(* ===== verification/Prelude.thy ===== *)
theory Prelude
  imports Complex_Main
begin

text \<open>
  Shared vocabulary of the development: Python floats with their non-finite values, Python's
  rounding, errors as sums, effects as state-passing computations that may raise, instants and
  dates, the decimal rendering of integers, and tables as lists of rows (the SQL statements the
  store uses). The lemmas here are the ones several components share.
\<close>

section \<open>Lemma collections\<close>

named_theorems contract_defs \<open>validators of the contract records\<close>
named_theorems effect_simps \<open>evaluation rules of computations that may raise\<close>
named_theorems table_simps \<open>rules for tables of rows\<close>

section \<open>Numbers and time\<close>

text \<open>
  A Python float. Finite floats are modelled as exact reals (rounding of binary arithmetic is not
  modelled); the non-finite values are kept wherever the code tests for them.
\<close>

datatype flt = Fin real | PosInf | NegInf | NaN

fun isfinite :: "flt \<Rightarrow> bool" where
  "isfinite (Fin _) = True"
| "isfinite _ = False"

text \<open>The value of a float that has passed a finiteness check.\<close>

fun fl_val :: "flt \<Rightarrow> real" where
  "fl_val (Fin x) = x"
| "fl_val _ = 0"

lemma isfinite_iff: "isfinite f \<longleftrightarrow> (\<exists>x. f = Fin x)"
  by (cases f) auto

lemma isfinite_fl_val: "isfinite f \<Longrightarrow> f = Fin (fl_val f)"
  by (cases f) auto

text \<open>Instants are microseconds since the epoch in UTC, dates are proleptic ordinals.\<close>

type_synonym instant = int
type_synonym date = int
type_synonym uuid = string

definition minutes :: "int \<Rightarrow> int" where
  "minutes n = n * 60000000"

definition hours :: "real \<Rightarrow> real" where
  "hours h = h * 3600000000"

text \<open>Python's \<open>round\<close>: to the nearest integer, ties to the even one; and \<open>round(x, 6)\<close>.\<close>

definition py_round :: "real \<Rightarrow> int" where
  "py_round x =
     (let f = \<lfloor>x\<rfloor>; d = x - of_int f
      in if d < 1 / 2 then f else if d > 1 / 2 then f + 1 else if even f then f else f + 1)"

definition round6 :: "real \<Rightarrow> real" where
  "round6 x = of_int (py_round (x * 10 ^ 6)) / 10 ^ 6"

lemma py_round_error: "\<bar>of_int (py_round x) - x\<bar> \<le> 1 / 2"
  unfolding py_round_def Let_def by (auto simp: abs_le_iff)

lemma py_round_of_int [simp]: "py_round (of_int n) = n"
  by (simp add: py_round_def)

lemma py_round_zero [simp]: "py_round 0 = 0"
  using py_round_of_int [of 0] by simp

lemma round6_error: "\<bar>round6 x - x\<bar> \<le> 1 / (2 * 10 ^ 6)"
proof -
  have "\<bar>of_int (py_round (x * 10 ^ 6)) - x * 10 ^ 6\<bar> \<le> 1 / 2"
    by (rule py_round_error)
  then show ?thesis
    unfolding round6_def by (simp add: abs_le_iff field_simps)
qed

lemma round6_zero [simp]: "round6 0 = 0"
  by (simp add: round6_def)

lemma round6_pos_imp: "0 < round6 x \<Longrightarrow> 0 < x"
proof -
  assume a: "0 < round6 x"
  then have "0 < py_round (x * 10 ^ 6)"
    by (simp add: round6_def zero_less_divide_iff)
  then have "1 \<le> real_of_int (py_round (x * 10 ^ 6))" by simp
  moreover have "real_of_int (py_round (x * 10 ^ 6)) - x * 10 ^ 6 \<le> 1 / 2"
    using py_round_error [of "x * 10 ^ 6"] by (rule abs_le_D1)
  ultimately have "0 < x * 10 ^ 6" by linarith
  then show "0 < x" by (simp add: zero_less_mult_iff)
qed

section \<open>Errors as values\<close>

definition bindr :: "'e + 'a \<Rightarrow> ('a \<Rightarrow> 'e + 'b) \<Rightarrow> 'e + 'b" where
  "bindr r f = (case r of Inl e \<Rightarrow> Inl e | Inr x \<Rightarrow> f x)"

definition require :: "bool \<Rightarrow> 'e \<Rightarrow> 'e + unit" where
  "require b e = (if b then Inr () else Inl e)"

lemma bindr_simps [simp]:
  "bindr (Inl e) f = Inl e"
  "bindr (Inr x) f = f x"
  by (simp_all add: bindr_def)

lemma bindr_Inr_iff: "bindr r f = Inr y \<longleftrightarrow> (\<exists>x. r = Inr x \<and> f x = Inr y)"
  by (cases r) auto

lemma bindr_Inl_iff: "bindr r f = Inl e \<longleftrightarrow> r = Inl e \<or> (\<exists>x. r = Inr x \<and> f x = Inl e)"
  by (cases r) auto

lemma require_Inr [simp]: "require b e = Inr u \<longleftrightarrow> b"
  by (auto simp: require_def)

lemma require_Inl [simp]: "require b e = Inl e' \<longleftrightarrow> \<not> b \<and> e = e'"
  by (auto simp: require_def)

text \<open>The first failure of a check run over a list in order, as a loop that raises would.\<close>

fun check_all :: "('a \<Rightarrow> 'e + unit) \<Rightarrow> 'a list \<Rightarrow> 'e + unit" where
  "check_all f [] = Inr ()"
| "check_all f (x # xs) = bindr (f x) (\<lambda>_. check_all f xs)"

lemma check_all_Inr: "check_all f xs = Inr () \<longleftrightarrow> (\<forall>x \<in> set xs. f x = Inr ())"
  by (induction xs) (auto simp: bindr_Inr_iff)

section \<open>Effects\<close>

text \<open>
  A computation on a state that may raise. Raising does not undo the state, as in Python.
\<close>

type_synonym ('s, 'e, 'a) eff = "'s \<Rightarrow> ('e + 'a) \<times> 's"

definition ret :: "'a \<Rightarrow> ('s, 'e, 'a) eff" where
  "ret x s = (Inr x, s)"

definition throw :: "'e \<Rightarrow> ('s, 'e, 'a) eff" where
  "throw e s = (Inl e, s)"

definition bnd :: "('s, 'e, 'a) eff \<Rightarrow> ('a \<Rightarrow> ('s, 'e, 'b) eff) \<Rightarrow> ('s, 'e, 'b) eff" where
  "bnd m f s = (case m s of (Inl e, s') \<Rightarrow> (Inl e, s') | (Inr x, s') \<Rightarrow> f x s')"

definition catch :: "('s, 'e, 'a) eff \<Rightarrow> ('e \<Rightarrow> ('s, 'e, 'a) eff) \<Rightarrow> ('s, 'e, 'a) eff" where
  "catch m h s = (case m s of (Inl e, s') \<Rightarrow> h e s' | (Inr x, s') \<Rightarrow> (Inr x, s'))"

lemma ret_apply [simp, effect_simps]: "ret x s = (Inr x, s)"
  by (simp add: ret_def)

lemma throw_apply [simp, effect_simps]: "throw e s = (Inl e, s)"
  by (simp add: throw_def)

lemma bnd_Inl [effect_simps]: "m s = (Inl e, s') \<Longrightarrow> bnd m f s = (Inl e, s')"
  by (simp add: bnd_def)

lemma bnd_Inr [effect_simps]: "m s = (Inr x, s') \<Longrightarrow> bnd m f s = f x s'"
  by (simp add: bnd_def)

text \<open>
  A property of states that a computation keeps, whatever it returns. The rules compose it along
  the structure of a program, which is how every frame and safety proof below proceeds.
\<close>

definition keeps :: "('s \<Rightarrow> bool) \<Rightarrow> ('s, 'e, 'a) eff \<Rightarrow> bool" where
  "keeps P m \<longleftrightarrow> (\<forall>s. P s \<longrightarrow> P (snd (m s)))"

lemma keepsI [intro?]: "(\<And>s. P s \<Longrightarrow> P (snd (m s))) \<Longrightarrow> keeps P m"
  by (simp add: keeps_def)

lemma keepsD: "keeps P m \<Longrightarrow> P s \<Longrightarrow> P (snd (m s))"
  by (simp add: keeps_def)

lemma keepsE: "keeps P m \<Longrightarrow> P s \<Longrightarrow> m s = (r, s') \<Longrightarrow> P s'"
  by (metis keepsD snd_conv)

lemma keeps_ret [simp, intro]: "keeps P (ret x)"
  by (simp add: keeps_def)

lemma keeps_throw [simp, intro]: "keeps P (throw e)"
  by (simp add: keeps_def)

lemma keeps_bnd [intro]: "keeps P m \<Longrightarrow> (\<And>x. keeps P (f x)) \<Longrightarrow> keeps P (bnd m f)"
  unfolding keeps_def bnd_def by (auto split: prod.split sum.split)

lemma keeps_catch [intro]: "keeps P m \<Longrightarrow> (\<And>e. keeps P (h e)) \<Longrightarrow> keeps P (catch m h)"
  unfolding keeps_def catch_def by (auto split: prod.split sum.split)

lemma keeps_if [intro]: "(b \<Longrightarrow> keeps P m) \<Longrightarrow> (\<not> b \<Longrightarrow> keeps P n) \<Longrightarrow> keeps P (if b then m else n)"
  by simp

fun for_each :: "('a \<Rightarrow> ('s, 'e, unit) eff) \<Rightarrow> 'a list \<Rightarrow> ('s, 'e, unit) eff" where
  "for_each f [] = ret ()"
| "for_each f (x # xs) = bnd (f x) (\<lambda>_. for_each f xs)"

lemma keeps_for_each [intro]: "(\<And>x. x \<in> set xs \<Longrightarrow> keeps P (f x)) \<Longrightarrow> keeps P (for_each f xs)"
  by (induction xs) auto

lemma bnd_assoc: "bnd (bnd m f) g = bnd m (\<lambda>x. bnd (f x) g)"
  by (rule ext) (auto simp: bnd_def split: prod.split sum.split)

lemma bnd_ret: "bnd (ret x) f = f x"
  by (rule ext) (simp add: bnd_def)

section \<open>Recording calls\<close>

text \<open>
  A world extended with the list of calls made on it, newest first: \<open>pre\<close> is logged when the call
  is made, \<open>post\<close> when it has answered; an unlogged operation leaves the list alone.
\<close>

definition unlogged :: "('w, 'e, 'a) eff \<Rightarrow> ('w \<times> 'c list, 'e, 'a) eff" where
  "unlogged m = (\<lambda>(w, tr). case m w of (r, w') \<Rightarrow> (r, (w', tr)))"

definition logged ::
  "('w \<Rightarrow> 'c list) \<Rightarrow> ('a \<Rightarrow> 'c list) \<Rightarrow> ('w, 'e, 'a) eff \<Rightarrow> ('w \<times> 'c list, 'e, 'a) eff" where
  "logged pre post m = (\<lambda>(w, tr).
     case m w of
       (Inl e, w') \<Rightarrow> (Inl e, (w', pre w @ tr))
     | (Inr x, w') \<Rightarrow> (Inr x, (w', post x @ pre w @ tr)))"

end
