(* ===== verification/Enums.thy ===== *)
theory Enums
  imports Prelude "HOL-Library.Char_ord" "HOL-Library.List_Lexorder" "HOL-Library.Product_Lexorder"
begin

text \<open>
  The categorical types of \<open>contracts/enums.py\<close>, the values whose text the program compares or
  hashes, and the run state machine with the facts every component uses about it.
\<close>

section \<open>Agents, runs and stages\<close>

datatype agent_name =
    VALUE | QUALITY_CATALYST | INSIDER | TECHNICAL | MACRO_NARRATIVE
  | RED_TEAM | CIO | QUANT_BASELINE

fun agent_value :: "agent_name \<Rightarrow> string" where
  "agent_value VALUE = ''value''"
| "agent_value QUALITY_CATALYST = ''quality_catalyst''"
| "agent_value INSIDER = ''insider''"
| "agent_value TECHNICAL = ''technical''"
| "agent_value MACRO_NARRATIVE = ''macro_narrative''"
| "agent_value RED_TEAM = ''red_team''"
| "agent_value CIO = ''cio''"
| "agent_value QUANT_BASELINE = ''quant_baseline''"

definition VOTING_AGENTS :: "agent_name set" where
  "VOTING_AGENTS = {VALUE, QUALITY_CATALYST, INSIDER, TECHNICAL, MACRO_NARRATIVE}"

datatype stance = STRONG_SELL | STANCE_SELL | HOLD | STANCE_BUY | STRONG_BUY

datatype run_mode = LIVE | BACKTEST | ABLATION

datatype run_status =
    PENDING | INGEST_OK | FEATURES_OK | GATED | AGENTS_OK | COMMITTED | ANCHORED
  | EXECUTED | SCORED | FAILED | PARTIAL

datatype task_status = TASK_PENDING | TASK_RUNNING | TASK_COMPLETED | TASK_FAILED | TASK_PARTIAL

datatype data_sufficiency = FULL | PARTIAL_DATA | INSUFFICIENT

datatype bear_severity = LOW | MED | HIGH

datatype cio_action = APPROVE | VETO | FLAG_FOR_REVIEW

datatype sizing_mode = RANK | CALIBRATED

section \<open>Halts, horizons, feeds and orders\<close>

datatype kill_trigger = DAILY_LOSS | STALE_FEED | MANUAL

fun kill_trigger_value :: "kill_trigger \<Rightarrow> string" where
  "kill_trigger_value DAILY_LOSS = ''daily_loss''"
| "kill_trigger_value STALE_FEED = ''stale_feed''"
| "kill_trigger_value MANUAL = ''manual''"

definition HALT_REASON_PREFIX :: string where
  "HALT_REASON_PREFIX = ''kill_switch:''"

definition halt_reason :: "kill_trigger \<Rightarrow> string" where
  "halt_reason t = HALT_REASON_PREFIX @ kill_trigger_value t"

definition startswith :: "string \<Rightarrow> string \<Rightarrow> bool" where
  "startswith s p \<longleftrightarrow> take (length p) s = p"

lemma startswith_append [simp]: "startswith (p @ s) p"
  by (simp add: startswith_def)

lemma halt_reason_prefix [simp]: "startswith (halt_reason t) HALT_REASON_PREFIX"
  by (simp add: halt_reason_def)

datatype horizon = D5 | D21 | D63

fun horizon_days :: "horizon \<Rightarrow> int" where
  "horizon_days D5 = 5"
| "horizon_days D21 = 21"
| "horizon_days D63 = 63"

definition all_horizons :: "horizon list" where
  "all_horizons = [D5, D21, D63]"

datatype feed_name =
    FEED_PRICE_BARS | FEED_FUNDAMENTALS | FEED_INSIDER_TRADES | FEED_NEWS | FEED_REGIME
  | FEED_FEATURES

datatype order_side = BUY | SELL

datatype order_kind = LIMIT | MARKET

datatype broker_order_status =
    OPEN | PARTIALLY_FILLED | PENDING_CANCEL | FILLED | CANCELED | EXPIRED | DONE_FOR_DAY
  | REJECTED

definition TERMINAL_ORDER_STATUSES :: "broker_order_status set" where
  "TERMINAL_ORDER_STATUSES = {FILLED, CANCELED, EXPIRED, DONE_FOR_DAY, REJECTED}"

definition terminal :: "broker_order_status \<Rightarrow> bool" where
  "terminal s \<longleftrightarrow> s \<in> TERMINAL_ORDER_STATUSES"

datatype reference_source = IEX_MID | SIP_LAST

section \<open>Market data\<close>

datatype security_kind = EQUITY | ETF

datatype tape = TapeA | TapeB | TapeC

datatype ref_status = RESOLVED | UNRESOLVED

datatype ref_mode = REF_LIVE | REF_BACKTEST

datatype ref_reason =
    NO_REFERENCE_PRICE | NO_ELIGIBLE_TRADE | UNKNOWN_CONDITION | PROVIDER_MAPPING_UNVALIDATED
  | SIP_ENTITLEMENT | INCOMPLETE_TRADES | CALENDAR_UNCOVERED | AMBIGUOUS_ORDER

datatype condition_eligibility = ELIGIBLE | INELIGIBLE | CONDITIONAL | UNKNOWN

datatype halt_request_status = SYMBOLS_PENDING

section \<open>The order of horizons\<close>

instantiation horizon :: linorder
begin

definition less_eq_horizon :: "horizon \<Rightarrow> horizon \<Rightarrow> bool" where
  "less_eq_horizon a b \<longleftrightarrow> horizon_days a \<le> horizon_days b"

definition less_horizon :: "horizon \<Rightarrow> horizon \<Rightarrow> bool" where
  "less_horizon a b \<longleftrightarrow> horizon_days a < horizon_days b"

instance
proof
  fix a b c :: horizon
  show "(a < b) = (a \<le> b \<and> \<not> b \<le> a)"
    by (auto simp: less_eq_horizon_def less_horizon_def)
  show "a \<le> a" by (simp add: less_eq_horizon_def)
  show "a \<le> b \<Longrightarrow> b \<le> c \<Longrightarrow> a \<le> c" by (simp add: less_eq_horizon_def)
  show "a \<le> b \<Longrightarrow> b \<le> a \<Longrightarrow> a = b"
    by (cases a; cases b) (auto simp: less_eq_horizon_def)
  show "a \<le> b \<or> b \<le> a" by (auto simp: less_eq_horizon_def)
qed

end

instantiation run_status :: enum
begin

definition enum_run_status :: "run_status list" where
  "enum_run_status =
     [PENDING, INGEST_OK, FEATURES_OK, GATED, AGENTS_OK, COMMITTED, ANCHORED, EXECUTED, SCORED,
      FAILED, PARTIAL]"

definition enum_all_run_status :: "(run_status \<Rightarrow> bool) \<Rightarrow> bool" where
  "enum_all_run_status P \<longleftrightarrow> list_all P enum_class.enum"

definition enum_ex_run_status :: "(run_status \<Rightarrow> bool) \<Rightarrow> bool" where
  "enum_ex_run_status P \<longleftrightarrow> list_ex P enum_class.enum"

instance
proof
  have all: "s \<in> set enum_class.enum" for s :: run_status
    by (cases s) (simp_all add: enum_run_status_def)
  then show "(UNIV :: run_status set) = set enum_class.enum" by blast
  show "distinct (enum_class.enum :: run_status list)" by (simp add: enum_run_status_def)
  fix P :: "run_status \<Rightarrow> bool"
  show "enum_class.enum_all P \<longleftrightarrow> Ball UNIV P"
    using all by (auto simp: enum_all_run_status_def list_all_iff)
  show "enum_class.enum_ex P \<longleftrightarrow> Bex UNIV P"
    using all by (auto simp: enum_ex_run_status_def list_ex_iff)
qed

end

section \<open>The run state machine\<close>

definition run_path :: "run_status list" where
  "run_path =
     [PENDING, INGEST_OK, FEATURES_OK, GATED, AGENTS_OK, COMMITTED, ANCHORED, EXECUTED, SCORED]"

definition TERMINAL_RUN_STATUSES :: "run_status set" where
  "TERMINAL_RUN_STATUSES = {SCORED, FAILED, PARTIAL}"

definition pairwise :: "'a list \<Rightarrow> ('a \<times> 'a) list" where
  "pairwise xs = zip xs (tl xs)"

text \<open>The dictionary display of the source: later entries overwrite earlier ones.\<close>

definition RUN_TRANSITIONS :: "run_status \<Rightarrow> run_status set option" where
  "RUN_TRANSITIONS =
     (let steps = map_of (map (\<lambda>(cur, nxt). (cur, {nxt, FAILED, PARTIAL})) (pairwise run_path))
      in (\<lambda>s. if s \<in> TERMINAL_RUN_STATUSES then Some {}
              else (steps(ANCHORED \<mapsto> {EXECUTED, SCORED, FAILED, PARTIAL})) s))"

text \<open>A missing key would be a \<open>KeyError\<close>; \<open>run_transitions_total\<close> shows there is none.\<close>

definition can_transition :: "run_status \<Rightarrow> run_status \<Rightarrow> bool option" where
  "can_transition src dst = map_option (\<lambda>S. dst \<in> S) (RUN_TRANSITIONS src)"

lemmas run_machine_defs =
  RUN_TRANSITIONS_def run_path_def pairwise_def TERMINAL_RUN_STATUSES_def

lemma RUN_TRANSITIONS_eqs [simp]:
  "RUN_TRANSITIONS PENDING = Some {INGEST_OK, FAILED, PARTIAL}"
  "RUN_TRANSITIONS INGEST_OK = Some {FEATURES_OK, FAILED, PARTIAL}"
  "RUN_TRANSITIONS FEATURES_OK = Some {GATED, FAILED, PARTIAL}"
  "RUN_TRANSITIONS GATED = Some {AGENTS_OK, FAILED, PARTIAL}"
  "RUN_TRANSITIONS AGENTS_OK = Some {COMMITTED, FAILED, PARTIAL}"
  "RUN_TRANSITIONS COMMITTED = Some {ANCHORED, FAILED, PARTIAL}"
  "RUN_TRANSITIONS ANCHORED = Some {EXECUTED, SCORED, FAILED, PARTIAL}"
  "RUN_TRANSITIONS EXECUTED = Some {SCORED, FAILED, PARTIAL}"
  "RUN_TRANSITIONS SCORED = Some {}"
  "RUN_TRANSITIONS FAILED = Some {}"
  "RUN_TRANSITIONS PARTIAL = Some {}"
  by (simp_all add: run_machine_defs)

lemma run_transitions_total: "RUN_TRANSITIONS s \<noteq> None"
  by (cases s) simp_all

text \<open>The paths of the table, as a step relation on statuses.\<close>

inductive run_steps :: "run_status \<Rightarrow> run_status list \<Rightarrow> run_status \<Rightarrow> bool" where
  here: "run_steps s [] s"
| step: "can_transition s t = Some True \<Longrightarrow> run_steps t via u \<Longrightarrow> run_steps s (t # via) u"

inductive_cases run_steps_Nil: "run_steps s [] u"
inductive_cases run_steps_Cons: "run_steps s (t # via) u"

lemma run_steps_simps [simp]:
  "run_steps s [] u \<longleftrightarrow> s = u"
  "run_steps s (t # via) u \<longleftrightarrow> can_transition s t = Some True \<and> run_steps t via u"
  by (auto elim: run_steps_Nil run_steps_Cons intro: run_steps.intros)

text \<open>
  The rank strictly grows along every transition, so no path repeats a status; and a terminal
  status has no successor at all.
\<close>

fun run_rank :: "run_status \<Rightarrow> nat" where
  "run_rank PENDING = 0"
| "run_rank INGEST_OK = 1"
| "run_rank FEATURES_OK = 2"
| "run_rank GATED = 3"
| "run_rank AGENTS_OK = 4"
| "run_rank COMMITTED = 5"
| "run_rank ANCHORED = 6"
| "run_rank EXECUTED = 7"
| "run_rank _ = 8"

lemma can_transition_rank: "can_transition s t = Some True \<Longrightarrow> run_rank s < run_rank t"
  by (cases s; cases t) (simp_all add: can_transition_def)

lemma run_steps_length: "run_steps s via u \<Longrightarrow> run_rank s + length via \<le> run_rank u"
proof (induction rule: run_steps.induct)
  case (step s t via u)
  from can_transition_rank [OF step.hyps(1)] step.IH show ?case by simp
qed simp

lemma run_steps_through_anchored:
  assumes "run_steps s via u" and "u = EXECUTED \<or> u = SCORED" and "run_rank s < 6"
  shows "ANCHORED \<in> set via"
  using assms
proof (induction rule: run_steps.induct)
  case (step s t via u)
  show ?case
  proof (cases "t = ANCHORED")
    case False
    with step.hyps(1) step.prems(2) have "run_rank t < 6 \<or> t = FAILED \<or> t = PARTIAL"
      by (cases s; cases t) (simp_all add: can_transition_def)
    moreover have "t \<noteq> FAILED \<and> t \<noteq> PARTIAL"
    proof -
      have "\<not> run_steps FAILED via u" and "\<not> run_steps PARTIAL via u"
        using step.prems(1) by (cases via; auto simp: can_transition_def)+
      with step.hyps(2) show ?thesis by auto
    qed
    ultimately show ?thesis using step.IH step.prems(1) by auto
  qed simp
qed auto

lemma run_steps_through_committed:
  assumes "run_steps s via u" and "u = ANCHORED" and "run_rank s < 5"
  shows "COMMITTED \<in> set via"
  using assms
proof (induction rule: run_steps.induct)
  case (step s t via u)
  show ?case
  proof (cases "t = COMMITTED")
    case False
    with step.hyps(1) step.prems(2) have "run_rank t < 5 \<or> t = FAILED \<or> t = PARTIAL"
      by (cases s; cases t) (simp_all add: can_transition_def)
    moreover have "t \<noteq> FAILED \<and> t \<noteq> PARTIAL"
    proof -
      have "\<not> run_steps FAILED via u" and "\<not> run_steps PARTIAL via u"
        using step.prems(1) by (cases via; auto simp: can_transition_def)+
      with step.hyps(2) show ?thesis by auto
    qed
    ultimately show ?thesis using step.IH step.prems(1) by auto
  qed simp
qed auto

end
