(* ===== verification/Models.thy ===== *)
theory Models
  imports Enums
begin

text \<open>
  The message shapes of \<open>contracts/models.py\<close> as records, each with the validator Pydantic runs
  when the message is built. A validator is a boolean function: building a message that does not
  satisfy it raises. Finite floats are reals, so the \<open>allow_inf_nan=False\<close> constraints hold by
  type; range constraints are part of the validators.
\<close>

section \<open>Field types\<close>

definition MAX_POSITION :: real where
  "MAX_POSITION = 8 / 100"

definition probability :: "real \<Rightarrow> bool" where
  "probability p \<longleftrightarrow> 0 \<le> p \<and> p \<le> 1"

definition weight_ok :: "real \<Rightarrow> bool" where
  "weight_ok w \<longleftrightarrow> 0 \<le> w \<and> w \<le> MAX_POSITION"

definition label_ok :: "string \<Rightarrow> bool" where
  "label_ok s \<longleftrightarrow> 1 \<le> length s \<and> length s \<le> 128"

definition opt_all :: "('a \<Rightarrow> bool) \<Rightarrow> 'a option \<Rightarrow> bool" where
  "opt_all P x = (case x of None \<Rightarrow> True | Some y \<Rightarrow> P y)"

lemma opt_all_simps [simp]: "opt_all P None" "opt_all P (Some x) = P x"
  by (simp_all add: opt_all_def)

definition upper_char :: "char \<Rightarrow> bool" where
  "upper_char c \<longleftrightarrow> 65 \<le> (of_char c :: nat) \<and> (of_char c :: nat) \<le> 90"

definition digit_char :: "char \<Rightarrow> bool" where
  "digit_char c \<longleftrightarrow> 48 \<le> (of_char c :: nat) \<and> (of_char c :: nat) \<le> 57"

text \<open>The pattern \<open>^[A-Z]+_[0-9]{2,}$\<close> of an entity token, of length at most 32.\<close>

definition entity_token_ok :: "string \<Rightarrow> bool" where
  "entity_token_ok s \<longleftrightarrow>
     (let letters = takeWhile upper_char s; rest = dropWhile upper_char s
      in letters \<noteq> [] \<and> rest \<noteq> [] \<and> hd rest = CHR ''_'' \<and> list_all digit_char (tl rest) \<and>
         2 \<le> length (tl rest) \<and> length s \<le> 32)"

definition sha256_hex_ok :: "string \<Rightarrow> bool" where
  "sha256_hex_ok s \<longleftrightarrow> length s = 64 \<and>
     list_all (\<lambda>c. digit_char c \<or> 97 \<le> (of_char c :: nat) \<and> (of_char c :: nat) \<le> 102) s"

lemma MAX_POSITION_pos [simp]: "0 < MAX_POSITION"
  by (simp add: MAX_POSITION_def)

section \<open>What a model emits, and the envelope around it\<close>

record evidence_ref =
  ev_source :: feed_name
  ev_row_id :: string
  ev_note :: string

definition valid_evidence_ref :: "evidence_ref \<Rightarrow> bool" where
  "valid_evidence_ref e \<longleftrightarrow> label_ok (ev_row_id e) \<and>
     1 \<le> length (ev_note e) \<and> length (ev_note e) \<le> 280"

record agent_verdict_llm =
  av_stance :: stance
  p_outperform_5 :: real
  p_outperform_21 :: real
  p_outperform_63 :: real
  av_key_evidence :: "evidence_ref list"
  av_risks :: "string list"
  av_data_sufficiency :: data_sufficiency

definition valid_agent_verdict_llm :: "'a agent_verdict_llm_scheme \<Rightarrow> bool" where
  "valid_agent_verdict_llm v \<longleftrightarrow>
     probability (p_outperform_5 v) \<and> probability (p_outperform_21 v) \<and>
     probability (p_outperform_63 v) \<and>
     1 \<le> length (av_key_evidence v) \<and> length (av_key_evidence v) \<le> 5 \<and>
     list_all valid_evidence_ref (av_key_evidence v) \<and>
     length (av_risks v) \<le> 3 \<and>
     list_all (\<lambda>r. 1 \<le> length r \<and> length r \<le> 280) (av_risks v)"

record agent_verdict = agent_verdict_llm +
  av_run_id :: uuid
  av_agent :: agent_name
  av_entity_token :: string
  av_as_of :: instant
  av_prompt_version :: string
  av_model_served :: string
  av_valid :: bool

definition valid_agent_verdict :: "agent_verdict \<Rightarrow> bool" where
  "valid_agent_verdict v \<longleftrightarrow>
     valid_agent_verdict_llm v \<and> entity_token_ok (av_entity_token v) \<and>
     label_ok (av_prompt_version v) \<and> label_ok (av_model_served v) \<and>
     av_agent v \<in> VOTING_AGENTS"

record red_team_verdict =
  rt_bear_severity :: bear_severity
  rt_falsifiable_risk :: string
  rt_horizon_days :: horizon
  rt_key_evidence :: "evidence_ref list"
  rt_run_id :: uuid
  rt_entity_token :: string
  rt_as_of :: instant
  rt_prompt_version :: string
  rt_model_served :: string
  rt_valid :: bool

record cio_name_decision =
  cn_entity_token :: string
  cn_action :: cio_action
  cn_reason :: string

definition whitespace :: "char \<Rightarrow> bool" where
  "whitespace c \<longleftrightarrow> c = CHR '' '' \<or> 9 \<le> (of_char c :: nat) \<and> (of_char c :: nat) \<le> 13 \<or>
     28 \<le> (of_char c :: nat) \<and> (of_char c :: nat) \<le> 31 \<or>
     (of_char c :: nat) = 133 \<or> (of_char c :: nat) = 160"

definition valid_cio_name_decision :: "cio_name_decision \<Rightarrow> bool" where
  "valid_cio_name_decision d \<longleftrightarrow>
     entity_token_ok (cn_entity_token d) \<and> length (cn_reason d) \<le> 1000 \<and>
     (cn_action d = APPROVE \<or> list_ex (\<lambda>c. \<not> whitespace c) (cn_reason d))"

record cio_decision =
  cd_decisions :: "cio_name_decision list"
  cd_rationale :: string
  cd_run_id :: uuid
  cd_as_of :: instant
  cd_prompt_version :: string
  cd_model_served :: string

definition valid_cio_decision :: "cio_decision \<Rightarrow> bool" where
  "valid_cio_decision d \<longleftrightarrow>
     list_all valid_cio_name_decision (cd_decisions d) \<and>
     1 \<le> length (cd_rationale d) \<and> length (cd_rationale d) \<le> 4000 \<and>
     distinct (map cn_entity_token (cd_decisions d)) \<and>
     label_ok (cd_prompt_version d) \<and> label_ok (cd_model_served d)"

section \<open>Deterministic stages\<close>

record agent_weight =
  aw_agent :: agent_name
  aw_weight :: real

record committee_decision =
  dec_run_id :: uuid
  dec_security_id :: int
  dec_entity_token :: string
  dec_as_of :: instant
  dec_horizon_days :: horizon
  dec_pooled_p :: real
  dec_dispersion :: real
  dec_agent_weights :: "agent_weight list"
  dec_bear_severity :: "bear_severity option"
  dec_target_weight :: real

definition valid_committee_decision :: "committee_decision \<Rightarrow> bool" where
  "valid_committee_decision d \<longleftrightarrow>
     1 \<le> dec_security_id d \<and> entity_token_ok (dec_entity_token d) \<and>
     probability (dec_pooled_p d) \<and> 0 \<le> dec_dispersion d \<and> dec_agent_weights d \<noteq> [] \<and>
     list_all (\<lambda>w. 0 \<le> aw_weight w) (dec_agent_weights d) \<and> weight_ok (dec_target_weight d) \<and>
     (let agents = map aw_agent (dec_agent_weights d)
      in distinct agents \<and> (agents = [QUANT_BASELINE] \<or> set agents \<subseteq> VOTING_AGENTS))"

record horizon_pool =
  hp_horizon :: horizon
  hp_logit :: real
  hp_lambda_t :: real
  hp_dispersion :: real
  hp_weights :: "agent_weight list"

definition valid_horizon_pool :: "horizon_pool \<Rightarrow> bool" where
  "valid_horizon_pool p \<longleftrightarrow>
     probability (hp_lambda_t p) \<and> 0 \<le> hp_dispersion p \<and> hp_weights p \<noteq> [] \<and>
     list_all (\<lambda>w. 0 \<le> aw_weight w) (hp_weights p) \<and>
     (let agents = map aw_agent (hp_weights p) in distinct agents \<and> set agents \<subseteq> VOTING_AGENTS)"

record pooled_forecast =
  pf_entity_token :: string
  pf_pools :: "horizon_pool list"

text \<open>\<open>PooledForecast.pool\<close>: \<open>None\<close> where the code raises \<open>KeyError\<close>.\<close>

definition pf_pool :: "pooled_forecast \<Rightarrow> horizon \<Rightarrow> horizon_pool option" where
  "pf_pool f h = find (\<lambda>p. hp_horizon p = h) (pf_pools f)"

record calibration_fit =
  cf_horizon :: horizon
  cf_alpha :: real
  cf_beta :: real
  cf_active :: bool
  cf_independent_periods :: int
  cf_observations :: int
  cf_base_rate :: "real option"

record error_correlation =
  ec_horizon :: horizon
  ec_agents :: int
  ec_observations :: int
  ec_mean_correlation :: real
  ec_n_eff :: real
  ec_monoculture_alert :: bool

record proposed_position =
  pp_security_id :: int
  pp_entity_token :: string
  pp_sector :: string
  pp_pooled_p :: real
  pp_target_weight :: real

definition valid_position :: "proposed_position \<Rightarrow> bool" where
  "valid_position p \<longleftrightarrow>
     1 \<le> pp_security_id p \<and> entity_token_ok (pp_entity_token p) \<and> label_ok (pp_sector p) \<and>
     probability (pp_pooled_p p) \<and> weight_ok (pp_target_weight p)"

record proposed_book =
  pb_run_id :: uuid
  pb_as_of :: instant
  pb_positions :: "proposed_position list"

definition gross_exposure :: "proposed_book \<Rightarrow> real" where
  "gross_exposure b = sum_list (map pp_target_weight (pb_positions b))"

definition cash_weight :: "proposed_book \<Rightarrow> real" where
  "cash_weight b = max 0 (1 - gross_exposure b)"

definition valid_book :: "proposed_book \<Rightarrow> bool" where
  "valid_book b \<longleftrightarrow>
     list_all valid_position (pb_positions b) \<and>
     distinct (map pp_security_id (pb_positions b)) \<and>
     distinct (map pp_entity_token (pb_positions b)) \<and>
     gross_exposure b \<le> 1 + 1 / 10 ^ 9"

text \<open>Cash is the residual of a book: it is a fraction, and it completes the gross to at least 1.\<close>

lemma valid_book_gross_nonneg: "valid_book b \<Longrightarrow> 0 \<le> gross_exposure b"
  unfolding valid_book_def gross_exposure_def list_all_iff valid_position_def weight_ok_def
  by (auto intro!: sum_list_nonneg)

lemma cash_weight_probability: "valid_book b \<Longrightarrow> probability (cash_weight b)"
  using valid_book_gross_nonneg [of b] by (auto simp: probability_def cash_weight_def)

section \<open>Broker orders and execution evidence\<close>

record broker_order =
  bo_broker_order_id :: string
  bo_client_order_id :: string
  bo_symbol :: string
  bo_side :: order_side
  bo_kind :: order_kind
  bo_qty :: real
  bo_filled_qty :: real
  bo_limit_price :: "real option"
  bo_filled_avg_price :: "real option"
  bo_status :: broker_order_status
  bo_submitted_at :: instant
  bo_filled_at :: "instant option"

definition valid_broker_order :: "broker_order \<Rightarrow> bool" where
  "valid_broker_order w \<longleftrightarrow>
     label_ok (bo_broker_order_id w) \<and> label_ok (bo_client_order_id w) \<and> label_ok (bo_symbol w) \<and>
     0 < bo_qty w \<and> 0 \<le> bo_filled_qty w \<and> opt_all (\<lambda>p. 0 < p) (bo_limit_price w) \<and>
     opt_all (\<lambda>p. 0 < p) (bo_filled_avg_price w)"

record market_session =
  ms_session_date :: date
  ms_opens_at :: instant
  ms_closes_at :: instant

definition valid_market_session :: "market_session \<Rightarrow> bool" where
  "valid_market_session s \<longleftrightarrow> ms_opens_at s < ms_closes_at s"

record execution_record =
  er_run_id :: uuid
  er_security_id :: int
  er_client_order_id :: string
  er_broker_order_id :: string
  er_kind :: order_kind
  er_side :: order_side
  er_qty :: real
  er_filled_qty :: real
  er_limit_price :: "real option"
  er_decision_price :: real
  er_reference_price :: real
  er_reference_source :: reference_source
  er_fill_price :: "real option"
  er_slippage_bps :: "real option"
  er_status :: broker_order_status
  er_submitted_at :: instant
  er_filled_at :: "instant option"

definition valid_execution_record :: "execution_record \<Rightarrow> bool" where
  "valid_execution_record r \<longleftrightarrow>
     1 \<le> er_security_id r \<and> label_ok (er_client_order_id r) \<and> label_ok (er_broker_order_id r) \<and>
     0 < er_qty r \<and> 0 \<le> er_filled_qty r \<and> opt_all (\<lambda>p. 0 < p) (er_limit_price r) \<and>
     0 < er_decision_price r \<and> 0 < er_reference_price r \<and>
     opt_all (\<lambda>p. 0 < p) (er_fill_price r)"

section \<open>Runs and persistence records\<close>

record run_record =
  rr_run_id :: uuid
  rr_mode :: run_mode
  rr_as_of :: instant
  rr_config_hash :: string
  rr_status :: run_status
  rr_started_at :: instant
  rr_ended_at :: "instant option"
  rr_status_reason :: "string option"
  rr_total_cost_usd :: real

definition valid_run_record :: "run_record \<Rightarrow> bool" where
  "valid_run_record r \<longleftrightarrow>
     sha256_hex_ok (rr_config_hash r) \<and> opt_all (\<lambda>t. rr_started_at r \<le> t) (rr_ended_at r) \<and>
     opt_all (\<lambda>s. length s \<le> 1000) (rr_status_reason r) \<and> 0 \<le> rr_total_cost_usd r"

text \<open>
  A run that a kill-switch halt moved to \<open>PARTIAL\<close>. The same test stands in the pipeline, the
  execution stage and the tasks.
\<close>

definition run_halted :: "run_record \<Rightarrow> bool" where
  "run_halted r \<longleftrightarrow> rr_status r = PARTIAL \<and>
     startswith (case rr_status_reason r of None \<Rightarrow> [] | Some s \<Rightarrow> s) HALT_REASON_PREFIX"

record decision_commitment =
  dc_run_id :: uuid
  dc_sha256 :: string
  dc_committed_at :: instant

datatype any_verdict = Voter agent_verdict | Red red_team_verdict

fun verdict_run_id :: "any_verdict \<Rightarrow> uuid" where
  "verdict_run_id (Voter v) = av_run_id v"
| "verdict_run_id (Red v) = rt_run_id v"

fun verdict_entity_token :: "any_verdict \<Rightarrow> string" where
  "verdict_entity_token (Voter v) = av_entity_token v"
| "verdict_entity_token (Red v) = rt_entity_token v"

fun verdict_agent :: "any_verdict \<Rightarrow> agent_name" where
  "verdict_agent (Voter v) = av_agent v"
| "verdict_agent (Red v) = RED_TEAM"

record verdict_record =
  vr_security_id :: int
  vr_verdict :: any_verdict
  vr_tokens_in :: "int option"
  vr_tokens_out :: "int option"
  vr_cost_usd :: real
  vr_latency_ms :: "int option"

record committee_decision_record =
  cdr_decision :: committee_decision
  cdr_pooled_logit :: "real option"
  cdr_sizing_mode :: "sizing_mode option"
  cdr_cio_action :: "cio_action option"
  cdr_rationale :: "string option"

record portfolio_snapshot =
  ps_run_id :: uuid
  ps_as_of :: instant
  ps_book :: proposed_book
  ps_cash_weight :: real
  ps_cio :: "cio_decision option"

definition valid_snapshot :: "portfolio_snapshot \<Rightarrow> bool" where
  "valid_snapshot s \<longleftrightarrow>
     valid_book (ps_book s) \<and> opt_all valid_cio_decision (ps_cio s) \<and>
     probability (ps_cash_weight s) \<and> pb_run_id (ps_book s) = ps_run_id s \<and>
     pb_as_of (ps_book s) = ps_as_of s \<and>
     \<bar>ps_cash_weight s - cash_weight (ps_book s)\<bar> \<le> 1 / 10 ^ 9"

record dlq_record =
  dlq_run_id :: uuid
  dlq_as_of :: instant
  dlq_agent :: string
  dlq_error_type :: string
  dlq_payload :: "(string \<times> string) list"

record kill_switch_event =
  ke_run_id :: uuid
  ke_triggered_at :: instant
  ke_trigger :: kill_trigger
  ke_daily_loss :: "real option"
  ke_peak_drawdown :: "real option"
  ke_cancelled_order_ids :: "string list"
  ke_flattened :: bool

definition valid_kill_switch_event :: "kill_switch_event \<Rightarrow> bool" where
  "valid_kill_switch_event e \<longleftrightarrow>
     list_all label_ok (ke_cancelled_order_ids e) \<and> (ke_flattened e \<longrightarrow> ke_trigger e = MANUAL)"

record commitment_anchor =
  ca_run_id :: uuid
  ca_sha256 :: string
  ca_ots_proof :: "string option"
  ca_git_commit :: "string option"
  ca_anchored_at :: instant
  ca_verified_at :: "instant option"

record step_artifacts =
  sa_run :: run_record
  sa_verdicts :: "verdict_record list"
  sa_decisions :: "committee_decision_record list"
  sa_portfolio :: "portfolio_snapshot option"
  sa_commitment :: "decision_commitment option"
  sa_dlq :: "dlq_record list"
  sa_kill_switch :: "kill_switch_event list"

definition valid_step_artifacts :: "step_artifacts \<Rightarrow> bool" where
  "valid_step_artifacts s \<longleftrightarrow>
     (let rid = rr_run_id (sa_run s)
      in list_all (\<lambda>v. verdict_run_id (vr_verdict v) = rid) (sa_verdicts s) \<and>
         list_all (\<lambda>d. dec_run_id (cdr_decision d) = rid) (sa_decisions s) \<and>
         list_all (\<lambda>d. dlq_run_id d = rid) (sa_dlq s) \<and>
         list_all (\<lambda>k. ke_run_id k = rid) (sa_kill_switch s) \<and>
         opt_all (\<lambda>p. ps_run_id p = rid) (sa_portfolio s) \<and>
         opt_all (\<lambda>c. dc_run_id c = rid) (sa_commitment s))"

lemmas [contract_defs] =
  valid_evidence_ref_def valid_agent_verdict_llm_def valid_agent_verdict_def
  valid_cio_name_decision_def valid_cio_decision_def valid_committee_decision_def
  valid_horizon_pool_def valid_position_def valid_book_def valid_broker_order_def
  valid_market_session_def valid_execution_record_def valid_run_record_def valid_snapshot_def
  valid_kill_switch_event_def valid_step_artifacts_def
  probability_def weight_ok_def label_ok_def

end
