(* ===== verification/Kill_Switch.thy ===== *)
theory Kill_Switch
  imports Models
begin

text \<open>
  The kill switch of \<open>risk/kill_switch.py\<close>: the loss and drawdown figures, the automatic triggers,
  and the switch itself, a latch that keeps the first trigger it is given. The interface of a latch
  is a locale; the switch interprets it, and the executor, the halt controller and the execution
  stage use what follows from it.
\<close>

section \<open>Loss and drawdown\<close>

datatype kill_error = ValueError | EquityEvidenceError

definition daily_loss :: "flt \<Rightarrow> flt \<Rightarrow> kill_error + real" where
  "daily_loss equity prior =
     (if \<not> (isfinite equity \<and> isfinite prior) \<or> fl_val prior \<le> 0 then Inl ValueError
      else Inr ((fl_val prior - fl_val equity) / fl_val prior))"

definition peak_drawdown :: "flt list \<Rightarrow> flt \<Rightarrow> kill_error + real \<times> real" where
  "peak_drawdown history current =
     (if history = [] then Inl EquityEvidenceError
      else let vals = history @ [current]
           in if \<not> list_all (\<lambda>v. isfinite v \<and> 0 < fl_val v) vals then Inl EquityEvidenceError
              else let peak = Max (set (map fl_val vals))
                   in Inr (peak, (peak - fl_val current) / peak))"

lemma daily_loss_Inr:
  "daily_loss e p = Inr l \<longleftrightarrow>
     (\<exists>x y. e = Fin x \<and> p = Fin y \<and> 0 < y \<and> l = (y - x) / y)"
  by (cases e; cases p) (auto simp: daily_loss_def)

lemma peak_drawdown_InrD:
  assumes "peak_drawdown history current = Inr (peak, dd)"
  shows "history \<noteq> []" and "isfinite current" and "0 < fl_val current"
    and "fl_val current \<le> peak" and "\<forall>v \<in> set history. fl_val v \<le> peak"
    and "peak \<in> fl_val ` set (history @ [current])" and "dd = (peak - fl_val current) / peak"
proof -
  let ?vals = "map fl_val (history @ [current])"
  from assms have ne: "history \<noteq> []"
    and ok: "list_all (\<lambda>v. isfinite v \<and> 0 < fl_val v) (history @ [current])"
    and peak: "peak = Max (set ?vals)" and dd: "dd = (peak - fl_val current) / peak"
    by (auto simp: peak_drawdown_def Let_def split: if_splits)
  show "history \<noteq> []" by (rule ne)
  from ok show "isfinite current" and "0 < fl_val current" by auto
  show "fl_val current \<le> peak" unfolding peak by (rule Max_ge) auto
  show "\<forall>v \<in> set history. fl_val v \<le> peak" unfolding peak by (auto intro!: Max_ge)
  have "Max (set ?vals) \<in> set ?vals" by (rule Max_in) auto
  then show "peak \<in> fl_val ` set (history @ [current])" by (simp add: peak)
  show "dd = (peak - fl_val current) / peak" by (rule dd)
qed

lemma peak_drawdown_bounds:
  assumes "peak_drawdown history current = Inr (peak, dd)"
  shows "0 \<le> dd" and "dd < 1"
proof -
  note d = peak_drawdown_InrD [OF assms]
  from d(3,4) have pos: "0 < peak" by linarith
  with d(4,7) show "0 \<le> dd" by simp
  from pos d(3,7) show "dd < 1" by (simp add: divide_less_eq)
qed

section \<open>Automatic triggers\<close>

text \<open>
  The SLA is an ordered dictionary from required feeds to hours; a feed the health table does not
  hold, or holds without a success time, has never succeeded.
\<close>

definition last_seen :: "(feed_name \<Rightarrow> instant option option) \<Rightarrow> feed_name \<Rightarrow> instant option" where
  "last_seen last_success feed = (case last_success feed of None \<Rightarrow> None | Some t \<Rightarrow> t)"

definition feed_stale ::
  "(feed_name \<Rightarrow> instant option option) \<Rightarrow> instant \<Rightarrow> feed_name \<times> real \<Rightarrow> bool" where
  "feed_stale last_success now fh =
     (case last_seen last_success (fst fh) of None \<Rightarrow> True
      | Some seen \<Rightarrow> py_round (hours (snd fh)) < now - seen)"

definition stale_feeds ::
  "(feed_name \<Rightarrow> instant option option) \<Rightarrow> (feed_name \<times> real) list \<Rightarrow> instant \<Rightarrow> feed_name list" where
  "stale_feeds last_success sla_hours now =
     map fst (filter (feed_stale last_success now) sla_hours)"

definition evaluate ::
  "flt \<Rightarrow> flt \<Rightarrow> real \<Rightarrow> (feed_name \<Rightarrow> instant option option) \<Rightarrow> (feed_name \<times> real) list \<Rightarrow> instant
   \<Rightarrow> kill_error + kill_trigger option" where
  "evaluate equity prior limit last_success sla_hours now =
     bindr (daily_loss equity prior) (\<lambda>loss.
       if limit < loss then Inr (Some DAILY_LOSS)
       else if stale_feeds last_success sla_hours now \<noteq> [] then Inr (Some STALE_FEED)
       else Inr None)"

lemma evaluate_None_iff:
  "evaluate equity prior limit seen sla now = Inr None \<longleftrightarrow>
     (\<exists>loss. daily_loss equity prior = Inr loss \<and> loss \<le> limit \<and>
       (\<forall>fh \<in> set sla. \<not> feed_stale seen now fh))"
  by (auto simp: evaluate_def bindr_Inr_iff stale_feeds_def filter_empty_conv not_less)

lemma evaluate_not_manual: "evaluate equity prior limit seen sla now \<noteq> Inr (Some MANUAL)"
  by (auto simp: evaluate_def bindr_Inr_iff)

section \<open>The switch\<close>

type_synonym kill_switch = "kill_trigger option"

definition ks_halted :: "kill_switch \<Rightarrow> bool" where
  "ks_halted ks \<longleftrightarrow> ks \<noteq> None"

definition ks_trigger :: "kill_switch \<Rightarrow> kill_trigger option" where
  "ks_trigger ks = ks"

definition ks_halt :: "kill_trigger \<Rightarrow> kill_switch \<Rightarrow> bool \<times> kill_switch" where
  "ks_halt t ks = (if ks \<noteq> None then (False, ks) else (True, Some t))"

definition ks_allows :: "kill_switch \<Rightarrow> order_side \<Rightarrow> bool" where
  "ks_allows ks side \<longleftrightarrow> \<not> ks_halted ks \<or> side = SELL"

datatype switch_error = KillSwitchHaltedError

definition ks_require :: "kill_switch \<Rightarrow> order_side \<Rightarrow> switch_error + unit" where
  "ks_require ks side = require (ks_allows ks side) KillSwitchHaltedError"

definition ks_from_events :: "kill_switch_event list \<Rightarrow> kill_switch" where
  "ks_from_events events =
     fold (\<lambda>e ks. snd (ks_halt (ke_trigger e) ks)) (sort_key ke_triggered_at events) None"

definition was_flattened :: "kill_switch_event list \<Rightarrow> bool" where
  "was_flattened events \<longleftrightarrow> list_ex ke_flattened events"

section \<open>Latches\<close>

locale latch =
  fixes engage :: "'t \<Rightarrow> 's \<Rightarrow> bool \<times> 's"
    and engaged :: "'s \<Rightarrow> bool"
    and cause :: "'s \<Rightarrow> 't option"
  assumes engaged_cause: "engaged s \<longleftrightarrow> cause s \<noteq> None"
    and engage_fresh: "\<not> engaged s \<Longrightarrow> fst (engage t s) \<and> cause (snd (engage t s)) = Some t"
    and engage_again: "engaged s \<Longrightarrow> engage t s = (False, s)"
begin

lemma engage_engaged: "engaged (snd (engage t s))"
  by (cases "engaged s") (simp_all add: engage_again engage_fresh engaged_cause)

lemma engage_keeps_cause: "cause s = Some c \<Longrightarrow> cause (snd (engage t s)) = Some c"
  by (simp add: engage_again engaged_cause)

lemma fold_engaged: "engaged s \<Longrightarrow> fold (\<lambda>x s. snd (engage (f x) s)) xs s = s"
  by (induction xs) (simp_all add: engage_again)

lemma fold_first:
  "\<not> engaged s \<Longrightarrow> xs \<noteq> [] \<Longrightarrow> cause (fold (\<lambda>x s. snd (engage (f x) s)) xs s) = Some (f (hd xs))"
  by (cases xs) (simp_all add: fold_engaged engage_engaged engage_fresh)

end

interpretation ks: latch ks_halt ks_halted ks_trigger
  by unfold_locales (auto simp: ks_halt_def ks_halted_def ks_trigger_def)

lemma ks_halted_ks_halt [simp]: "ks_halted (snd (ks_halt t ks))"
  by (rule ks.engage_engaged)

lemma ks_allows_sell [simp]: "ks_allows ks SELL"
  by (simp add: ks_allows_def)

lemma ks_allows_buy: "ks_allows ks BUY \<longleftrightarrow> \<not> ks_halted ks"
  by (simp add: ks_allows_def)

section \<open>Rebuilding the switch from stored events\<close>

lemma hd_sort_key_min:
  assumes "xs \<noteq> []"
  shows "hd (sort_key f xs) \<in> set xs" and "\<forall>x \<in> set xs. f (hd (sort_key f xs)) \<le> f x"
proof -
  obtain y ys where y: "sort_key f xs = y # ys"
    using assms by (metis list.exhaust length_0_conv length_sort)
  then have "set xs = insert y (set ys)"
    by (metis set_sort list.simps(15))
  moreover have "sorted (map f (y # ys))"
    using y by (metis sorted_sort_key)
  ultimately show "hd (sort_key f xs) \<in> set xs" and "\<forall>x \<in> set xs. f (hd (sort_key f xs)) \<le> f x"
    by (auto simp: y)
qed

lemma ks_from_events_Nil [simp]: "ks_from_events [] = None"
  by (simp add: ks_from_events_def)

lemma ks_from_events_trigger:
  assumes "events \<noteq> []"
  shows "ks_from_events events = Some (ke_trigger (hd (sort_key ke_triggered_at events)))"
proof -
  have "sort_key ke_triggered_at events \<noteq> []"
    using assms by (metis length_0_conv length_sort)
  from ks.fold_first [of None, OF _ this, of ke_trigger] show ?thesis
    by (simp add: ks_halted_def ks_trigger_def ks_from_events_def)
qed

lemma ks_from_events_halted: "ks_halted (ks_from_events events) \<longleftrightarrow> events \<noteq> []"
  by (cases "events = []") (simp_all add: ks_from_events_trigger ks_halted_def)

lemma ks_from_events_eqI:
  assumes "set events = set events'"
    and tie: "\<forall>e \<in> set events. \<forall>e' \<in> set events.
      ke_triggered_at e = ke_triggered_at e' \<longrightarrow> ke_trigger e = ke_trigger e'"
  shows "ks_from_events events = ks_from_events events'"
proof (cases "events = []")
  case False
  with assms(1) have ne': "events' \<noteq> []" by auto
  let ?h = "hd (sort_key ke_triggered_at events)" and ?h' = "hd (sort_key ke_triggered_at events')"
  note m = hd_sort_key_min [OF False, of ke_triggered_at]
    and m' = hd_sort_key_min [OF ne', of ke_triggered_at]
  from m m' assms(1) have "ke_triggered_at ?h = ke_triggered_at ?h'"
    by (auto intro!: antisym)
  with tie m(1) m'(1) assms(1) have "ke_trigger ?h = ke_trigger ?h'" by blast
  then show ?thesis by (simp add: ks_from_events_trigger False ne')
qed (use assms in simp)

end
