(* ===== verification/Gateway.thy ===== *)
theory Gateway
  imports Kill_Switch
begin

text \<open>
  The broker interface of \<open>execution/gateway.py\<close> and the small pure functions of
  \<open>execution/executor.py\<close>. The broker, the recorder, the clock and the sleeper are outside the
  program: they are arbitrary operations on an arbitrary world, so what is proved of the executor
  holds for every answer they can give, every failure and every interleaving of fills.
\<close>

section \<open>Exceptions\<close>

datatype exn =
    BrokerError | DuplicateClientOrderError | OrderNotCancelableError | CancelNotConfirmedError
  | OverfillError | NoReferencePriceError | ImmutableConflict | AssertionError | ValueErr
  | EquityEvidence | ExecutionNotEligibleError | ExecutionPlanError | CommitmentIntegrity
  | MissingEvidence | OtherError string

text \<open>\<open>isinstance(exc, BrokerError)\<close>: the class and its subclasses.\<close>

fun is_broker_error :: "exn \<Rightarrow> bool" where
  "is_broker_error BrokerError = True"
| "is_broker_error DuplicateClientOrderError = True"
| "is_broker_error OrderNotCancelableError = True"
| "is_broker_error CancelNotConfirmedError = True"
| "is_broker_error OverfillError = True"
| "is_broker_error _ = False"

section \<open>The broker\<close>

record 'w gateway =
  gw_find_by_client_id :: "string \<Rightarrow> ('w, exn, broker_order option) eff"
  gw_get_order :: "string \<Rightarrow> ('w, exn, broker_order) eff"
  gw_submit_limit :: "string \<Rightarrow> string \<Rightarrow> order_side \<Rightarrow> real \<Rightarrow> real \<Rightarrow> ('w, exn, broker_order) eff"
  gw_submit_market :: "string \<Rightarrow> string \<Rightarrow> order_side \<Rightarrow> real \<Rightarrow> ('w, exn, broker_order) eff"
  gw_cancel_order :: "string \<Rightarrow> ('w, exn, unit) eff"
  gw_open_orders :: "('w, exn, broker_order list) eff"
  gw_positions :: "('w, exn, (string \<times> real) list) eff"
  gw_close_position :: "string \<Rightarrow> ('w, exn, unit) eff"
  gw_account_equity :: "('w, exn, flt \<times> flt) eff"
  gw_equity_history :: "('w, exn, flt list) eff"

section \<open>Client order ids\<close>

fun dec_digits :: "nat \<Rightarrow> string" where
  "dec_digits n =
     (if n < 10 then [char_of (48 + n)] else dec_digits (n div 10) @ [char_of (48 + n mod 10)])"

declare dec_digits.simps [simp del]

definition str_int :: "int \<Rightarrow> string" where
  "str_int i = (if i < 0 then CHR ''-'' # dec_digits (nat (- i)) else dec_digits (nat i))"

definition client_order_id :: "uuid \<Rightarrow> int \<Rightarrow> string \<Rightarrow> string" where
  "client_order_id run_id security_id leg = run_id @ ''-'' @ str_int security_id @ ''-'' @ leg"

text \<open>Decimal rendering is injective: the digits determine the number.\<close>

definition digits_val :: "string \<Rightarrow> nat" where
  "digits_val s = foldl (\<lambda>a c. 10 * a + (of_char c - 48)) 0 s"

lemma digits_val_snoc: "digits_val (s @ [c]) = 10 * digits_val s + (of_char c - 48)"
  by (simp add: digits_val_def)

lemma of_char_digit: "n < 10 \<Longrightarrow> (of_char (char_of (48 + n) :: char) :: nat) = 48 + n"
  by simp

lemma digits_val_dec_digits [simp]: "digits_val (dec_digits n) = n"
proof (induction n rule: dec_digits.induct)
  case (1 n)
  show ?case
  proof (cases "n < 10")
    case True
    then show ?thesis by (simp add: dec_digits.simps [of n] digits_val_def)
  next
    case False
    then have "digits_val (dec_digits n) = 10 * digits_val (dec_digits (n div 10)) + n mod 10"
      by (simp add: dec_digits.simps [of n] digits_val_snoc)
    with False "1.IH" show ?thesis by simp
  qed
qed

lemma dec_digits_inject [simp]: "dec_digits m = dec_digits n \<longleftrightarrow> m = n"
  by (metis digits_val_dec_digits)

lemma dec_digits_chars: "c \<in> set (dec_digits n) \<Longrightarrow> digit_char c"
proof (induction n rule: dec_digits.induct)
  case (1 n)
  show ?case
  proof (cases "n < 10")
    case True
    with "1.prems" show ?thesis by (simp add: dec_digits.simps [of n] digit_char_def)
  next
    case False
    with 1 show ?thesis
      by (auto simp: dec_digits.simps [of n] digit_char_def)
  qed
qed

lemma dash_not_digit: "CHR ''-'' \<notin> set (dec_digits n)"
  using dec_digits_chars [of "CHR ''-''" n] by (auto simp: digit_char_def)

lemma split_at_dash:
  assumes "xs @ CHR ''-'' # ys = xs' @ CHR ''-'' # ys'"
    and "CHR ''-'' \<notin> set xs" and "CHR ''-'' \<notin> set xs'"
  shows "xs = xs' \<and> ys = ys'"
  using assms by (auto simp: append_eq_append_conv2 append_eq_Cons_conv Cons_eq_append_conv)

lemma str_int_tail_inject:
  assumes "str_int i @ CHR ''-'' # l = str_int j @ CHR ''-'' # m" and "0 \<le> i" and "0 \<le> j"
  shows "i = j \<and> l = m"
proof -
  from assms have "dec_digits (nat i) @ CHR ''-'' # l = dec_digits (nat j) @ CHR ''-'' # m"
    by (simp add: str_int_def)
  from split_at_dash [OF this dash_not_digit dash_not_digit] assms(2,3)
  show ?thesis by auto
qed

text \<open>
  Run ids are rendered with a fixed width (36 characters for a UUID), so an id determines its run,
  its security and its leg.
\<close>

lemma client_order_id_inject:
  assumes "client_order_id r i l = client_order_id r' i' l'"
    and "length r = length r'" and "0 \<le> i" and "0 \<le> i'"
  shows "r = r' \<and> i = i' \<and> l = l'"
proof -
  from assms(1,2) have "r = r'" and "str_int i @ CHR ''-'' # l = str_int i' @ CHR ''-'' # l'"
    by (auto simp: client_order_id_def)
  with str_int_tail_inject [OF this(2) assms(3,4)] show ?thesis by simp
qed

section \<open>Prices\<close>

definition EPS :: real where
  "EPS = 1 / 10 ^ 6"

definition slippage_bps :: "order_side \<Rightarrow> real \<Rightarrow> real \<Rightarrow> real" where
  "slippage_bps side reference fill =
     (let sign = (if side = BUY then 1 else - 1) in sign * (fill - reference) / reference * 10000)"

definition collar_price :: "order_side \<Rightarrow> real \<Rightarrow> real \<Rightarrow> real" where
  "collar_price side reference collar_bps =
     (let factor = (if side = BUY then 1 + collar_bps / 10000 else 1 - collar_bps / 10000);
          cents = reference * factor * 100;
          rounded = (if side = BUY then \<lfloor>cents + EPS\<rfloor> else \<lceil>cents - EPS\<rceil>)
      in of_int rounded / 100)"

lemma EPS_pos [simp]: "0 < EPS"
  by (simp add: EPS_def)

lemma collar_price_buy_bound:
  "collar_price BUY reference bps \<le> reference * (1 + bps / 10000) + EPS / 100"
proof -
  have "of_int \<lfloor>reference * (1 + bps / 10000) * 100 + EPS\<rfloor> \<le> reference * (1 + bps / 10000) * 100 + EPS"
    by (rule of_int_floor_le)
  then show ?thesis by (simp add: collar_price_def Let_def field_simps)
qed

lemma collar_price_sell_bound:
  "reference * (1 - bps / 10000) - EPS / 100 \<le> collar_price SELL reference bps"
proof -
  define c where "c = \<lceil>reference * (1 - bps / 10000) * 100 - EPS\<rceil>"
  have "reference * (1 - bps / 10000) * 100 - EPS \<le> of_int c"
    unfolding c_def by (rule le_of_int_ceiling)
  moreover have "collar_price SELL reference bps = of_int c / 100"
    by (simp add: collar_price_def Let_def c_def)
  ultimately show ?thesis by linarith
qed

lemma collar_price_whole_cents: "\<exists>n :: int. collar_price side reference bps * 100 = of_int n"
  by (auto simp: collar_price_def Let_def)

end
