(* ===== verification/Executor.thy ===== *)
theory Executor
  imports Gateway
begin

text \<open>
  The order executor of \<open>execution/executor.py\<close>: limit orders for the whole book, one shared wait,
  cancel and confirm, then market orders for the residuals. The broker, the recorder, the clock,
  the sleeper and the kill switch object are operations on a world of arbitrary type. A leg is the
  progress of one name; a leg step acts on the world and on its leg and may raise, and the phases
  run the steps over the legs the way \<open>execute_book\<close> does.
\<close>

section \<open>The executor and its targets\<close>

record 'w executor =
  ex_gw :: "'w gateway"
  ex_switch :: "'w \<Rightarrow> kill_switch"
  ex_record_executions :: "execution_record list \<Rightarrow> ('w, exn, unit) eff"
  ex_find_execution :: "string \<Rightarrow> ('w, exn, execution_record option) eff"
  ex_clock :: "('w, exn, instant) eff"
  ex_sleep :: "int \<Rightarrow> ('w, exn, unit) eff"
  ex_collar_bps :: real
  ex_limit_wait :: int
  ex_poll_seconds :: int
  ex_poll_attempts :: nat

record exec_target =
  tg_run_id :: uuid
  tg_security_id :: int
  tg_symbol :: string
  tg_side :: order_side
  tg_qty :: flt
  tg_decision_price :: real

record exec_outcome =
  eo_records :: "execution_record list"
  eo_filled_qty :: real
  eo_complete :: bool
  eo_blocked :: bool

type_synonym ref_price = "real \<times> reference_source"

text \<open>
  One name's progress. \<open>lg_open\<close> records membership in the list \<open>fresh\<close> of phase A and
  \<open>lg_fresh_ref\<close> is the memo of \<open>_Reference\<close>.
\<close>

record leg =
  lg_target :: exec_target
  lg_lim_id :: string
  lg_mkt_id :: string
  lg_fresh_ref :: "ref_price option"
  lg_records :: "execution_record list"
  lg_lim :: "broker_order option"
  lg_mkt :: "broker_order option"
  lg_error :: "exn option"
  lg_blocked :: bool
  lg_residual :: real
  lg_residual_pending :: bool
  lg_price :: "real option"
  lg_open :: bool

definition lim_id_of :: "exec_target \<Rightarrow> string" where
  "lim_id_of t = client_order_id (tg_run_id t) (tg_security_id t) ''lim''"

definition mkt_id_of :: "exec_target \<Rightarrow> string" where
  "mkt_id_of t = client_order_id (tg_run_id t) (tg_security_id t) ''mkt''"

definition new_leg :: "exec_target \<Rightarrow> broker_order option \<Rightarrow> leg" where
  "new_leg t lm =
     \<lparr>lg_target = t, lg_lim_id = lim_id_of t, lg_mkt_id = mkt_id_of t, lg_fresh_ref = None,
      lg_records = [], lg_lim = lm, lg_mkt = None, lg_error = None, lg_blocked = False,
      lg_residual = 0, lg_residual_pending = False, lg_price = None, lg_open = False\<rparr>"

definition lg_current :: "leg \<Rightarrow> broker_order option" where
  "lg_current l = (if lg_mkt l \<noteq> None then lg_mkt l else lg_lim l)"

definition set_current :: "broker_order \<Rightarrow> leg \<Rightarrow> leg" where
  "set_current w l =
     (if lg_mkt l \<noteq> None then l\<lparr>lg_mkt := Some w\<rparr> else l\<lparr>lg_lim := Some w\<rparr>)"

section \<open>Leg steps\<close>

type_synonym ('w, 'a) leg_eff = "('w \<times> leg, exn, 'a) eff"

definition on_world :: "('w, exn, 'a) eff \<Rightarrow> ('w, 'a) leg_eff" where
  "on_world m = (\<lambda>(w, l). case m w of (r, w') \<Rightarrow> (r, (w', l)))"

definition get_leg :: "('w, leg) leg_eff" where
  "get_leg = (\<lambda>(w, l). (Inr l, (w, l)))"

definition set_leg :: "(leg \<Rightarrow> leg) \<Rightarrow> ('w, unit) leg_eff" where
  "set_leg f = (\<lambda>(w, l). (Inr (), (w, f l)))"

definition allows_now :: "'w executor \<Rightarrow> order_side \<Rightarrow> ('w, bool) leg_eff" where
  "allows_now ex side = (\<lambda>(w, l). (Inr (ks_allows (ex_switch ex w) side), (w, l)))"

text \<open>\<open>OrderExecutor._submit_once\<close>: a failed submission is reconciled, never resubmitted.\<close>

definition submit_once ::
  "'w executor \<Rightarrow> string \<Rightarrow> ('w, exn, broker_order) eff \<Rightarrow> ('w, exn, broker_order) eff" where
  "submit_once ex cid submit =
     catch submit (\<lambda>e.
       if is_broker_error e then
         bnd (gw_find_by_client_id (ex_gw ex) cid) (\<lambda>found.
           case found of None \<Rightarrow> throw e | Some w \<Rightarrow> ret w)
       else throw e)"

text \<open>\<open>_Reference.get\<close>: the stored reference of the order, else one memoised lookup.\<close>

definition ref_get ::
  "'w executor \<Rightarrow> ('w, exn, ref_price) eff \<Rightarrow> string \<Rightarrow> ('w, ref_price) leg_eff" where
  "ref_get ex lookup cid =
     bnd (on_world (ex_find_execution ex cid)) (\<lambda>stored.
       case stored of
         Some r \<Rightarrow> ret (er_reference_price r, er_reference_source r)
       | None \<Rightarrow>
           bnd get_leg (\<lambda>l.
             case lg_fresh_ref l of
               Some p \<Rightarrow> ret p
             | None \<Rightarrow>
                 bnd (on_world lookup) (\<lambda>p.
                 bnd (set_leg (\<lambda>l. l\<lparr>lg_fresh_ref := Some p\<rparr>)) (\<lambda>_. ret p))))"

text \<open>\<open>OrderExecutor._record\<close>; building the record validates it.\<close>

definition exec_record :: "exec_target \<Rightarrow> broker_order \<Rightarrow> ref_price \<Rightarrow> execution_record" where
  "exec_record t w ref =
     (let fill = (if 0 < bo_filled_qty w then bo_filled_avg_price w else None)
      in \<lparr>er_run_id = tg_run_id t, er_security_id = tg_security_id t,
          er_client_order_id = bo_client_order_id w, er_broker_order_id = bo_broker_order_id w,
          er_kind = bo_kind w, er_side = bo_side w, er_qty = bo_qty w,
          er_filled_qty = bo_filled_qty w, er_limit_price = bo_limit_price w,
          er_decision_price = tg_decision_price t, er_reference_price = fst ref,
          er_reference_source = snd ref, er_fill_price = fill,
          er_slippage_bps = map_option (slippage_bps (bo_side w) (fst ref)) fill,
          er_status = bo_status w, er_submitted_at = bo_submitted_at w,
          er_filled_at = bo_filled_at w\<rparr>)"

definition leg_note :: "'w executor \<Rightarrow> ('w, exn, ref_price) eff \<Rightarrow> broker_order \<Rightarrow> ('w, unit) leg_eff" where
  "leg_note ex lookup w =
     bnd get_leg (\<lambda>l.
     bnd (ref_get ex lookup (lg_lim_id l)) (\<lambda>ref.
       let rcd = exec_record (lg_target l) w ref
       in if \<not> valid_execution_record rcd then throw ValueErr
          else bnd (on_world (ex_record_executions ex [rcd])) (\<lambda>_.
               set_leg (\<lambda>l. l\<lparr>lg_records := lg_records l @ [rcd]\<rparr>))))"

definition open_for_submit :: "'w executor \<Rightarrow> 'w \<Rightarrow> leg \<Rightarrow> leg" where
  "open_for_submit ex w l =
     (if lg_lim l \<noteq> None then l\<lparr>lg_open := False\<rparr>
      else if \<not> ks_allows (ex_switch ex w) (tg_side (lg_target l))
      then l\<lparr>lg_blocked := True, lg_open := False\<rparr>
      else l\<lparr>lg_open := True\<rparr>)"

definition resolve_reference :: "'w executor \<Rightarrow> ('w, exn, ref_price) eff \<Rightarrow> ('w, unit) leg_eff" where
  "resolve_reference ex lookup =
     bnd get_leg (\<lambda>l.
     bnd (ref_get ex lookup (lg_lim_id l)) (\<lambda>ref.
     set_leg (\<lambda>l. l\<lparr>lg_price := Some (fst ref)\<rparr>)))"

definition submit_limit :: "'w executor \<Rightarrow> ('w, exn, ref_price) eff \<Rightarrow> ('w, unit) leg_eff" where
  "submit_limit ex lookup =
     bnd get_leg (\<lambda>l.
     let t = lg_target l in
     bnd (allows_now ex (tg_side t)) (\<lambda>ok.
       if \<not> ok then set_leg (\<lambda>l. l\<lparr>lg_blocked := True\<rparr>)
       else case lg_price l of
         None \<Rightarrow> throw AssertionError
       | Some price \<Rightarrow>
           bnd (on_world (submit_once ex (lg_lim_id l)
                 (gw_submit_limit (ex_gw ex) (lg_lim_id l) (tg_symbol t) (tg_side t)
                    (fl_val (tg_qty t)) (collar_price (tg_side t) price (ex_collar_bps ex)))))
             (\<lambda>w. bnd (set_leg (\<lambda>l. l\<lparr>lg_lim := Some w\<rparr>)) (\<lambda>_. leg_note ex lookup w))))"

definition cancel_limit :: "'w executor \<Rightarrow> ('w, unit) leg_eff" where
  "cancel_limit ex =
     bnd get_leg (\<lambda>l.
       case lg_lim l of
         None \<Rightarrow> ret ()
       | Some lm \<Rightarrow>
           if terminal (bo_status lm) then ret ()
           else
             bnd (on_world (gw_get_order (ex_gw ex) (bo_broker_order_id lm))) (\<lambda>now.
             bnd (set_leg (\<lambda>l. l\<lparr>lg_lim := Some now\<rparr>)) (\<lambda>_.
               if terminal (bo_status now) then ret ()
               else on_world (catch (gw_cancel_order (ex_gw ex) (bo_broker_order_id now))
                      (\<lambda>e. if e = OrderNotCancelableError then ret () else throw e)))))"

definition guard_overfill :: "exec_target \<Rightarrow> real \<Rightarrow> ('w, unit) leg_eff" where
  "guard_overfill t filled =
     (if fl_val (tg_qty t) + EPS < filled then throw OverfillError else ret ())"

definition close_limit :: "'w executor \<Rightarrow> ('w, exn, ref_price) eff \<Rightarrow> ('w, unit) leg_eff" where
  "close_limit ex lookup =
     bnd get_leg (\<lambda>l.
       case lg_lim l of
         None \<Rightarrow> ret ()
       | Some lm \<Rightarrow>
           bnd (leg_note ex lookup lm) (\<lambda>_.
           if \<not> terminal (bo_status lm) then throw CancelNotConfirmedError
           else
             bnd (guard_overfill (lg_target l) (bo_filled_qty lm)) (\<lambda>_.
             if bo_status lm = REJECTED then ret ()
             else
               let residual = round6 (fl_val (tg_qty (lg_target l)) - bo_filled_qty lm)
               in set_leg (\<lambda>l. l\<lparr>lg_residual := residual, lg_residual_pending := 0 < residual\<rparr>))))"

definition submit_market :: "'w executor \<Rightarrow> ('w, exn, ref_price) eff \<Rightarrow> ('w, unit) leg_eff" where
  "submit_market ex lookup =
     bnd get_leg (\<lambda>l.
     let t = lg_target l in
     bnd (on_world (gw_find_by_client_id (ex_gw ex) (lg_mkt_id l))) (\<lambda>found.
       case found of
         None \<Rightarrow>
           bnd (allows_now ex (tg_side t)) (\<lambda>ok.
             if \<not> ok then set_leg (\<lambda>l. l\<lparr>lg_blocked := True\<rparr>)
             else
               bnd (on_world (submit_once ex (lg_mkt_id l)
                     (gw_submit_market (ex_gw ex) (lg_mkt_id l) (tg_symbol t) (tg_side t)
                        (lg_residual l))))
                 (\<lambda>w. bnd (set_leg (\<lambda>l. l\<lparr>lg_mkt := Some w\<rparr>)) (\<lambda>_. leg_note ex lookup w)))
       | Some w \<Rightarrow> set_leg (\<lambda>l. l\<lparr>lg_mkt := Some w\<rparr>)))"

definition close_market :: "'w executor \<Rightarrow> ('w, exn, ref_price) eff \<Rightarrow> ('w, unit) leg_eff" where
  "close_market ex lookup =
     bnd get_leg (\<lambda>l.
       case (lg_mkt l, lg_lim l) of
         (Some mkt, Some lm) \<Rightarrow>
           bnd (leg_note ex lookup mkt) (\<lambda>_.
             guard_overfill (lg_target l) (bo_filled_qty lm + bo_filled_qty mkt))
       | _ \<Rightarrow> throw AssertionError)"

definition leg_outcome :: "leg \<Rightarrow> exec_outcome" where
  "leg_outcome l =
     (let filled = (case lg_lim l of None \<Rightarrow> 0 | Some w \<Rightarrow> bo_filled_qty w) +
                   (case lg_mkt l of None \<Rightarrow> 0 | Some w \<Rightarrow> bo_filled_qty w)
      in \<lparr>eo_records = lg_records l, eo_filled_qty = filled,
          eo_complete = \<bar>fl_val (tg_qty (lg_target l)) - filled\<bar> \<le> EPS,
          eo_blocked = lg_blocked l\<rparr>)"

section \<open>Phases over the book\<close>

record 'w book =
  bk_world :: 'w
  bk_legs :: "leg list"
  bk_errors :: "exn list"
  bk_stop :: bool

text \<open>
  One guarded pass over the legs: a step that raises marks its leg, is remembered, and an overfill
  stops new exposure; the other legs go on. \<open>sel\<close> is the condition of the loop and sees the stop
  flag as it is when the leg's turn comes.
\<close>

fun run_legs ::
  "(bool \<Rightarrow> leg \<Rightarrow> bool) \<Rightarrow> (exec_target \<Rightarrow> ('w, unit) leg_eff) \<Rightarrow> 'w \<Rightarrow> bool \<Rightarrow> leg list
   \<Rightarrow> 'w \<times> bool \<times> exn list \<times> leg list" where
  "run_legs sel step w stop [] = (w, stop, [], [])"
| "run_legs sel step w stop (l # ls) =
     (if sel stop l then
        (case step (lg_target l) (w, l) of
           (Inr _, (w1, l1)) \<Rightarrow>
             (case run_legs sel step w1 stop ls of
                (w2, stop2, errs, ls2) \<Rightarrow> (w2, stop2, errs, l1 # ls2))
         | (Inl e, (w1, l1)) \<Rightarrow>
             (case run_legs sel step w1 (stop \<or> e = OverfillError) ls of
                (w2, stop2, errs, ls2) \<Rightarrow> (w2, stop2, e # errs, l1\<lparr>lg_error := Some e\<rparr> # ls2)))
      else
        (case run_legs sel step w stop ls of
           (w2, stop2, errs, ls2) \<Rightarrow> (w2, stop2, errs, l # ls2)))"

definition phase ::
  "(bool \<Rightarrow> leg \<Rightarrow> bool) \<Rightarrow> (exec_target \<Rightarrow> ('w, unit) leg_eff) \<Rightarrow> ('w book, exn, unit) eff" where
  "phase sel step b =
     (case run_legs sel step (bk_world b) (bk_stop b) (bk_legs b) of
        (w, stop, errs, ls) \<Rightarrow>
          (Inr (), \<lparr>bk_world = w, bk_legs = ls, bk_errors = bk_errors b @ errs, bk_stop = stop\<rparr>))"

definition live :: "leg \<Rightarrow> bool" where
  "live l \<longleftrightarrow> lg_error l = None"

definition on_book_world :: "('w, exn, 'a) eff \<Rightarrow> ('w book, exn, 'a) eff" where
  "on_book_world m b = (case m (bk_world b) of (r, w) \<Rightarrow> (r, b\<lparr>bk_world := w\<rparr>))"

definition run_gate :: "('w, exn, unit) eff option \<Rightarrow> ('w book, exn, unit) eff" where
  "run_gate gate = (case gate of None \<Rightarrow> ret () | Some g \<Rightarrow> on_book_world g)"

definition open_legs :: "'w executor \<Rightarrow> ('w book, exn, unit) eff" where
  "open_legs ex b =
     (Inr (), b\<lparr>bk_legs := map (open_for_submit ex (bk_world b)) (bk_legs b)\<rparr>)"

text \<open>\<open>_wait_once\<close> over the limits of the live legs.\<close>

definition deadlines :: "'w executor \<Rightarrow> leg list \<Rightarrow> instant list" where
  "deadlines ex ls =
     [bo_submitted_at w + ex_limit_wait ex.
        l \<leftarrow> ls, live l, w \<leftarrow> (case lg_lim l of None \<Rightarrow> [] | Some w \<Rightarrow> [w]),
        \<not> terminal (bo_status w)]"

definition wait_once :: "'w executor \<Rightarrow> ('w book, exn, unit) eff" where
  "wait_once ex b =
     (if ks_halted (ex_switch ex (bk_world b)) then (Inr (), b)
      else let ds = deadlines ex (bk_legs b)
           in if ds = [] then (Inr (), b)
              else bnd (on_book_world (ex_clock ex)) (\<lambda>now.
                     let remaining = Max (set ds) - now
                     in if 0 < remaining then on_book_world (ex_sleep ex remaining) else ret ()) b)"

definition waiting :: "leg \<Rightarrow> bool" where
  "waiting l \<longleftrightarrow> live l \<and> (case lg_current l of None \<Rightarrow> False | Some w \<Rightarrow> \<not> terminal (bo_status w))"

text \<open>One pass of \<open>_await_all\<close>: an exception of the broker ends the whole call.\<close>

fun poll_legs :: "'w executor \<Rightarrow> 'w \<Rightarrow> leg list \<Rightarrow> (exn + unit) \<times> 'w \<times> leg list" where
  "poll_legs ex w [] = (Inr (), w, [])"
| "poll_legs ex w (l # ls) =
     (case lg_current l of
        Some cur \<Rightarrow>
          if waiting l then
            (case gw_get_order (ex_gw ex) (bo_broker_order_id cur) w of
               (Inl e, w1) \<Rightarrow> (Inl e, w1, l # ls)
             | (Inr now, w1) \<Rightarrow>
                 (case poll_legs ex w1 ls of
                    (r, w2, ls2) \<Rightarrow> (r, w2, set_current now l # ls2)))
          else (case poll_legs ex w ls of (r, w2, ls2) \<Rightarrow> (r, w2, l # ls2))
      | None \<Rightarrow> (case poll_legs ex w ls of (r, w2, ls2) \<Rightarrow> (r, w2, l # ls2)))"

definition poll :: "'w executor \<Rightarrow> ('w book, exn, unit) eff" where
  "poll ex b =
     (case poll_legs ex (bk_world b) (bk_legs b) of
        (r, w, ls) \<Rightarrow> (r, b\<lparr>bk_world := w, bk_legs := ls\<rparr>))"

definition none_waiting :: "('w book, exn, bool) eff" where
  "none_waiting b = (Inr (\<not> list_ex waiting (bk_legs b)), b)"

fun await_all :: "'w executor \<Rightarrow> nat \<Rightarrow> ('w book, exn, unit) eff" where
  "await_all ex 0 = ret ()"
| "await_all ex (Suc n) =
     bnd (poll ex) (\<lambda>_.
     bnd none_waiting (\<lambda>fin.
       if fin then ret ()
       else bnd (on_book_world (ex_sleep ex (ex_poll_seconds ex))) (\<lambda>_. await_all ex n)))"

section \<open>Executing a book\<close>

fun make_legs :: "'w executor \<Rightarrow> exec_target list \<Rightarrow> ('w, exn, leg list) eff" where
  "make_legs ex [] = ret []"
| "make_legs ex (t # ts) =
     bnd (gw_find_by_client_id (ex_gw ex) (lim_id_of t)) (\<lambda>lm.
     bnd (make_legs ex ts) (\<lambda>ls. ret (new_leg t lm # ls)))"

definition book_phases ::
  "'w executor \<Rightarrow> (exec_target \<Rightarrow> ('w, exn, ref_price) eff) \<Rightarrow> ('w, exn, unit) eff option
   \<Rightarrow> ('w book, exn, unit) eff" where
  "book_phases ex reference_for gate =
     bnd (run_gate gate) (\<lambda>_.
     bnd (open_legs ex) (\<lambda>_.
     bnd (phase (\<lambda>_ l. lg_open l) (\<lambda>t. resolve_reference ex (reference_for t))) (\<lambda>_.
     bnd (phase (\<lambda>_ l. lg_open l \<and> live l) (\<lambda>t. submit_limit ex (reference_for t))) (\<lambda>_.
     bnd (wait_once ex) (\<lambda>_.
     bnd (phase (\<lambda>_. live) (\<lambda>_. cancel_limit ex)) (\<lambda>_.
     bnd (await_all ex (ex_poll_attempts ex)) (\<lambda>_.
     bnd (phase (\<lambda>_. live) (\<lambda>t. close_limit ex (reference_for t))) (\<lambda>_.
     bnd (run_gate gate) (\<lambda>_.
     bnd (phase (\<lambda>stop l. live l \<and> lg_residual_pending l \<and> \<not> stop)
            (\<lambda>t. submit_market ex (reference_for t))) (\<lambda>_.
     bnd (await_all ex (ex_poll_attempts ex)) (\<lambda>_.
     phase (\<lambda>_ l. live l \<and> lg_mkt l \<noteq> None) (\<lambda>t. close_market ex (reference_for t)))))))))))))"

definition bad_qty :: "exec_target \<Rightarrow> bool" where
  "bad_qty t \<longleftrightarrow> \<not> isfinite (tg_qty t) \<or> fl_val (tg_qty t) \<le> 0"

definition execute_book ::
  "'w executor \<Rightarrow> exec_target list \<Rightarrow> (exec_target \<Rightarrow> ('w, exn, ref_price) eff)
   \<Rightarrow> ('w, exn, unit) eff option \<Rightarrow> ('w, exn, exec_outcome list) eff" where
  "execute_book ex targets reference_for gate w =
     (if list_ex bad_qty targets then (Inl ValueErr, w)
      else case make_legs ex targets w of
        (Inl e, w1) \<Rightarrow> (Inl e, w1)
      | (Inr legs, w1) \<Rightarrow>
          (case book_phases ex reference_for gate
                  \<lparr>bk_world = w1, bk_legs = legs, bk_errors = [], bk_stop = False\<rparr> of
             (Inl e, b) \<Rightarrow> (Inl e, bk_world b)
           | (Inr _, b) \<Rightarrow>
               (case bk_errors b of
                  e # _ \<Rightarrow> (Inl e, bk_world b)
                | [] \<Rightarrow> (Inr (map leg_outcome (bk_legs b)), bk_world b))))"

text \<open>\<open>refresh_record\<close>: broker-reported state moves, identity and the reference do not.\<close>

definition refresh_record :: "execution_record \<Rightarrow> broker_order \<Rightarrow> exn + execution_record" where
  "refresh_record stored w =
     (if bo_broker_order_id w \<noteq> er_broker_order_id stored then Inl ValueErr
      else
        let fill = (if 0 < bo_filled_qty w then bo_filled_avg_price w else None);
            r = stored\<lparr>er_filled_qty := bo_filled_qty w, er_status := bo_status w,
                  er_fill_price := fill,
                  er_slippage_bps := map_option (slippage_bps (er_side stored)
                                        (er_reference_price stored)) fill,
                  er_filled_at := bo_filled_at w\<rparr>
        in if valid_execution_record r then Inr r else Inl ValueErr)"


section \<open>The recorder the executor relies on\<close>

text \<open>
  \<open>ExecutionRecorder\<close> as the executor uses it: records are put in and found again by client order
  id. The law is that a record that is found keeps its reference price and source, whatever is put
  in later; then the executor prices a leg against the first reference it recorded, however often it
  is replayed.
\<close>

fun put_all :: "('r \<Rightarrow> 's \<Rightarrow> 's option) \<Rightarrow> 'r list \<Rightarrow> 's \<Rightarrow> 's option" where
  "put_all put [] s = Some s"
| "put_all put (r # rs) s = (case put r s of None \<Rightarrow> None | Some s' \<Rightarrow> put_all put rs s')"

locale execution_recorder =
  fixes put :: "execution_record list \<Rightarrow> 's \<Rightarrow> 's option"
    and find_record :: "'s \<Rightarrow> string \<Rightarrow> execution_record option"
    and ok :: "'s \<Rightarrow> bool"
  assumes put_ok: "ok s \<Longrightarrow> put rs s = Some s' \<Longrightarrow> ok s'"
    and put_keeps: "ok s \<Longrightarrow> put rs s = Some s' \<Longrightarrow> find_record s cid = Some r \<Longrightarrow>
      \<exists>r'. find_record s' cid = Some r' \<and> er_reference_price r' = er_reference_price r \<and>
        er_reference_source r' = er_reference_source r"
begin

lemma reference_stable:
  "ok s \<Longrightarrow> put_all put rss s = Some s' \<Longrightarrow> find_record s cid = Some r \<Longrightarrow>
   \<exists>r'. find_record s' cid = Some r' \<and> er_reference_price r' = er_reference_price r \<and>
     er_reference_source r' = er_reference_source r"
proof (induction rss arbitrary: s r)
  case (Cons rs rss)
  then obtain t where t: "put rs s = Some t" "put_all put rss t = Some s'"
    by (auto split: option.splits)
  from put_keeps [OF Cons.prems(1) t(1) Cons.prems(3)] obtain q where
    q: "find_record t cid = Some q" "er_reference_price q = er_reference_price r"
      "er_reference_source q = er_reference_source r" by blast
  from Cons.IH [OF put_ok [OF Cons.prems(1) t(1)] t(2) q(1)] q(2,3) show ?case by simp
qed simp

lemma ref_get_first:
  assumes "ok s" and "put_all put rss s = Some s'" and "find_record s cid = Some r"
    and "ex_find_execution ex cid = (\<lambda>t. (Inr (find_record t cid), t))"
  shows "ref_get ex lookup cid (s', l) =
    (Inr (er_reference_price r, er_reference_source r), (s', l))"
  using reference_stable [OF assms(1-3)] assms(4)
  by (auto simp: ref_get_def bnd_def on_world_def)

end

end
