(* ===== verification/Effects.thy ===== *)
theory Effects
  imports Prelude
begin

text \<open>
  Reasoning about computations that may raise: a Hoare triple with a normal and an exceptional
  postcondition, its rules, and the calls a computation logs. Every proof about an orchestration
  step goes along the structure of its program with these rules.
\<close>

named_theorems hoare_intros \<open>rules of the Hoare triple, one per program construct\<close>

section \<open>Triples\<close>

definition hoare ::
  "('s \<Rightarrow> bool) \<Rightarrow> ('s, 'e, 'a) eff \<Rightarrow> ('a \<Rightarrow> 's \<Rightarrow> bool) \<Rightarrow> ('e \<Rightarrow> 's \<Rightarrow> bool) \<Rightarrow> bool" where
  "hoare P m Q E \<longleftrightarrow> (\<forall>s. P s \<longrightarrow> (case m s of (Inl e, s') \<Rightarrow> E e s' | (Inr x, s') \<Rightarrow> Q x s'))"

lemma hoare_iff:
  "hoare P m Q E \<longleftrightarrow>
     (\<forall>s x s'. P s \<longrightarrow> m s = (Inr x, s') \<longrightarrow> Q x s') \<and> (\<forall>s e s'. P s \<longrightarrow> m s = (Inl e, s') \<longrightarrow> E e s')"
  unfolding hoare_def
proof (intro iffI conjI allI impI)
  fix s
  assume a: "(\<forall>s x s'. P s \<longrightarrow> m s = (Inr x, s') \<longrightarrow> Q x s') \<and> (\<forall>s e s'. P s \<longrightarrow> m s = (Inl e, s') \<longrightarrow> E e s')"
    and p: "P s"
  obtain r s' where m: "m s = (r, s')" by (cases "m s")
  then show "case m s of (Inl e, s') \<Rightarrow> E e s' | (Inr x, s') \<Rightarrow> Q x s'"
    using a p by (cases r) auto
qed fastforce+

lemma hoareI:
  "(\<And>s x s'. P s \<Longrightarrow> m s = (Inr x, s') \<Longrightarrow> Q x s') \<Longrightarrow> (\<And>s e s'. P s \<Longrightarrow> m s = (Inl e, s') \<Longrightarrow> E e s') \<Longrightarrow>
   hoare P m Q E"
  by (simp add: hoare_iff)

lemma hoare_InrD: "hoare P m Q E \<Longrightarrow> P s \<Longrightarrow> m s = (Inr x, s') \<Longrightarrow> Q x s'"
  by (simp add: hoare_iff)

lemma hoare_InlD: "hoare P m Q E \<Longrightarrow> P s \<Longrightarrow> m s = (Inl e, s') \<Longrightarrow> E e s'"
  by (simp add: hoare_iff)

lemma hoare_ret [hoare_intros]: "(\<And>s. P s \<Longrightarrow> Q x s) \<Longrightarrow> hoare P (ret x) Q E"
  by (simp add: hoare_iff)

lemma hoare_throw [hoare_intros]: "(\<And>s. P s \<Longrightarrow> E e s) \<Longrightarrow> hoare P (throw e) Q E"
  by (simp add: hoare_iff)

lemma hoare_bnd:
  assumes "hoare P m R E" and "\<And>x. hoare (R x) (f x) Q E"
  shows "hoare P (bnd m f) Q E"
proof (rule hoareI)
  fix s x s' assume "P s" "bnd m f s = (Inr x, s')"
  with assms show "Q x s'"
    by (auto simp: bnd_def split: prod.splits sum.splits dest: hoare_InrD)
next
  fix s e s' assume "P s" "bnd m f s = (Inl e, s')"
  with assms show "E e s'"
    by (auto simp: bnd_def split: prod.splits sum.splits dest: hoare_InrD hoare_InlD)
qed

lemma hoare_catch:
  assumes "hoare P m Q F" and "\<And>e. hoare (F e) (h e) Q E"
  shows "hoare P (catch m h) Q E"
proof (rule hoareI)
  fix s x s' assume "P s" "catch m h s = (Inr x, s')"
  with assms show "Q x s'"
    by (auto simp: catch_def split: prod.splits sum.splits dest: hoare_InrD hoare_InlD)
next
  fix s e s' assume "P s" "catch m h s = (Inl e, s')"
  with assms show "E e s'"
    by (auto simp: catch_def split: prod.splits sum.splits dest: hoare_InlD)
qed

lemma hoare_weaken:
  assumes "hoare P' m Q' E'" and "\<And>s. P s \<Longrightarrow> P' s" and "\<And>x s. Q' x s \<Longrightarrow> Q x s"
    and "\<And>e s. E' e s \<Longrightarrow> E e s"
  shows "hoare P m Q E"
  using assms unfolding hoare_iff by blast

lemma hoare_pre: "hoare P' m Q E \<Longrightarrow> (\<And>s. P s \<Longrightarrow> P' s) \<Longrightarrow> hoare P m Q E"
  by (rule hoare_weaken)

lemma hoare_if [hoare_intros]:
  "(b \<Longrightarrow> hoare P m Q E) \<Longrightarrow> (\<not> b \<Longrightarrow> hoare P n Q E) \<Longrightarrow> hoare P (if b then m else n) Q E"
  by simp

lemma hoare_option [hoare_intros]:
  "(z = None \<Longrightarrow> hoare P m Q E) \<Longrightarrow> (\<And>x. z = Some x \<Longrightarrow> hoare P (f x) Q E) \<Longrightarrow>
   hoare P (case z of None \<Rightarrow> m | Some x \<Rightarrow> f x) Q E"
  by (cases z) auto

lemma hoare_sum [hoare_intros]:
  "(\<And>e. z = Inl e \<Longrightarrow> hoare P (g e) Q E) \<Longrightarrow> (\<And>x. z = Inr x \<Longrightarrow> hoare P (f x) Q E) \<Longrightarrow>
   hoare P (case z of Inl e \<Rightarrow> g e | Inr x \<Rightarrow> f x) Q E"
  by (cases z) auto

lemma hoare_pair [hoare_intros]:
  "(\<And>a b. z = (a, b) \<Longrightarrow> hoare P (f a b) Q E) \<Longrightarrow> hoare P (case z of (a, b) \<Rightarrow> f a b) Q E"
  by (cases z) auto

lemma hoare_assume: "(c \<Longrightarrow> hoare P m Q E) \<Longrightarrow> hoare (\<lambda>s. c \<and> P s) m Q E"
  by (auto simp: hoare_iff)

lemma hoare_exists: "(\<And>x. hoare (P x) m Q E) \<Longrightarrow> hoare (\<lambda>s. \<exists>x. P x s) m Q E"
  unfolding hoare_iff by blast

lemma hoare_conj:
  "hoare P m Q E \<Longrightarrow> hoare P m Q' E' \<Longrightarrow> hoare P m (\<lambda>x s. Q x s \<and> Q' x s) (\<lambda>e s. E e s \<and> E' e s)"
  unfolding hoare_iff by blast

lemma hoare_keeps: "keeps P m \<Longrightarrow> hoare P m (\<lambda>_. P) (\<lambda>_. P)"
  by (metis hoareI keepsE)

lemma hoare_True [simp]: "hoare P m (\<lambda>_ _. True) (\<lambda>_ _. True)"
  by (simp add: hoare_iff)

lemma hoare_False [simp]: "hoare (\<lambda>_. False) m Q E"
  by (simp add: hoare_iff)

section \<open>Loops\<close>

text \<open>A loop that carries a value.\<close>

fun fold_eff :: "('b \<Rightarrow> 'a \<Rightarrow> ('s, 'e, 'a) eff) \<Rightarrow> 'b list \<Rightarrow> 'a \<Rightarrow> ('s, 'e, 'a) eff" where
  "fold_eff step [] x = ret x"
| "fold_eff step (b # bs) x = bnd (step b x) (fold_eff step bs)"

lemma hoare_fold:
  assumes "\<And>b x. b \<in> set bs \<Longrightarrow> hoare (I x) (step b x) I E"
  shows "hoare (I x) (fold_eff step bs x) I E"
  using assms
proof (induction bs arbitrary: x)
  case (Cons b bs)
  then have "hoare (I x) (step b x) I E" and "\<And>y. hoare (I y) (fold_eff step bs y) I E" by simp_all
  then show ?case by (simp add: hoare_bnd)
qed (simp add: hoare_ret)

lemma hoare_for_each:
  assumes "\<And>b. b \<in> set bs \<Longrightarrow> hoare I (f b) (\<lambda>_. I) E"
  shows "hoare I (for_each f bs) (\<lambda>_. I) E"
  using assms
proof (induction bs)
  case (Cons b bs)
  then show ?case by (auto intro: hoare_bnd)
qed (simp add: hoare_ret)

lemma keeps_option:
  "(z = None \<Longrightarrow> keeps P m) \<Longrightarrow> (\<And>x. z = Some x \<Longrightarrow> keeps P (f x)) \<Longrightarrow>
   keeps P (case z of None \<Rightarrow> m | Some x \<Rightarrow> f x)"
  by (cases z) auto

lemma keeps_sum:
  "(\<And>e. z = Inl e \<Longrightarrow> keeps P (g e)) \<Longrightarrow> (\<And>x. z = Inr x \<Longrightarrow> keeps P (f x)) \<Longrightarrow>
   keeps P (case z of Inl e \<Rightarrow> g e | Inr x \<Rightarrow> f x)"
  by (cases z) auto

lemma keeps_pair: "(\<And>a b. z = (a, b) \<Longrightarrow> keeps P (f a b)) \<Longrightarrow> keeps P (case z of (a, b) \<Rightarrow> f a b)"
  by (cases z) auto

lemma keeps_fold: "(\<And>b x. keeps P (step b x)) \<Longrightarrow> keeps P (fold_eff step bs x)"
  by (induction bs arbitrary: x) auto

text \<open>The rules that follow a program's structure, for \<open>intro\<close>.\<close>

lemmas keeps_rules = keeps_bnd keeps_catch keeps_ret keeps_throw keeps_if keeps_option keeps_sum keeps_pair
  keeps_for_each keeps_fold

section \<open>Logged calls\<close>

text \<open>Predicates of the trace alone: what a logged call does to them.\<close>

definition on_trace :: "('c list \<Rightarrow> bool) \<Rightarrow> 'w \<times> 'c list \<Rightarrow> bool" where
  "on_trace P s \<longleftrightarrow> P (snd s)"

lemma on_trace_Pair [simp]: "on_trace P (w, tr) = P tr"
  by (simp add: on_trace_def)

lemma on_trace_iff: "on_trace P = (\<lambda>s. P (snd s))"
  by (simp add: fun_eq_iff on_trace_def)

lemma keeps_unlogged: "keeps (on_trace P) (unlogged m)"
  by (auto simp: keeps_def unlogged_def on_trace_def split: prod.splits)

lemma hoare_unlogged_trace [hoare_intros]:
  assumes "\<And>tr. P tr \<Longrightarrow> E tr" and "\<And>x tr. P tr \<Longrightarrow> Q x tr"
  shows "hoare (on_trace P) (unlogged m) (\<lambda>x. on_trace (Q x)) (\<lambda>_. on_trace E)"
  by (rule hoareI) (use assms in \<open>auto simp: unlogged_def on_trace_def split: prod.splits\<close>)

lemma hoare_logged_trace [hoare_intros]:
  assumes "\<And>w tr. P tr \<Longrightarrow> E (pre w @ tr)" and "\<And>w x tr. P tr \<Longrightarrow> Q x (post x @ pre w @ tr)"
  shows "hoare (on_trace P) (logged pre post m) (\<lambda>x. on_trace (Q x)) (\<lambda>_. on_trace E)"
  by (rule hoareI) (use assms in \<open>auto simp: logged_def on_trace_def split: prod.splits sum.splits\<close>)

section \<open>What a computation logs\<close>

text \<open>A computation that logs only calls of one kind.\<close>

definition emits :: "('c \<Rightarrow> bool) \<Rightarrow> ('w \<times> 'c list, 'e, 'a) eff \<Rightarrow> bool" where
  "emits A m \<longleftrightarrow>
     (\<forall>w tr r w' tr'. m (w, tr) = (r, (w', tr')) \<longrightarrow> (\<exists>new. tr' = new @ tr \<and> list_all A new))"

lemma emitsE:
  assumes "emits A m" and "m (w, tr) = (r, (w', tr'))"
  obtains new where "tr' = new @ tr" and "list_all A new"
  using assms unfolding emits_def by blast

lemma emits_ret [intro]: "emits A (ret x)" and emits_throw [intro]: "emits A (throw e)"
  by (auto simp: emits_def)

lemma emits_unlogged [intro]: "emits A (unlogged m)"
  by (auto simp: emits_def unlogged_def split: prod.splits)

lemma emits_logged [intro]:
  "(\<And>x. list_all A (post x)) \<Longrightarrow> (\<And>w. list_all A (pre w)) \<Longrightarrow> emits A (logged pre post m)"
  by (auto simp: emits_def logged_def split: prod.splits sum.splits)

lemma emits_bnd [intro]:
  assumes m: "emits A m" and f: "\<And>x. emits A (f x)"
  shows "emits A (bnd m f)"
  unfolding emits_def
proof (intro allI impI)
  fix w tr r w' tr'
  assume run: "bnd m f (w, tr) = (r, (w', tr'))"
  obtain r1 w1 tr1 where one: "m (w, tr) = (r1, (w1, tr1))" by (metis surj_pair)
  from emitsE [OF m one] obtain a where a: "tr1 = a @ tr" "list_all A a" .
  show "\<exists>new. tr' = new @ tr \<and> list_all A new"
  proof (cases r1)
    case (Inl e)
    with one run a show ?thesis by (auto simp: bnd_def)
  next
    case (Inr x)
    with one run have "f x (w1, tr1) = (r, (w', tr'))" by (simp add: bnd_def)
    from emitsE [OF f this] a show ?thesis by (metis append.assoc list_all_append)
  qed
qed

lemma emits_catch [intro]:
  assumes m: "emits A m" and h: "\<And>e. emits A (h e)"
  shows "emits A (catch m h)"
  unfolding emits_def
proof (intro allI impI)
  fix w tr r w' tr'
  assume run: "catch m h (w, tr) = (r, (w', tr'))"
  obtain r1 w1 tr1 where one: "m (w, tr) = (r1, (w1, tr1))" by (metis surj_pair)
  from emitsE [OF m one] obtain a where a: "tr1 = a @ tr" "list_all A a" .
  show "\<exists>new. tr' = new @ tr \<and> list_all A new"
  proof (cases r1)
    case (Inr x)
    with one run a show ?thesis by (auto simp: catch_def)
  next
    case (Inl e)
    with one run have "h e (w1, tr1) = (r, (w', tr'))" by (simp add: catch_def)
    from emitsE [OF h this] a show ?thesis by (metis append.assoc list_all_append)
  qed
qed

lemma emits_if [intro]: "emits A m \<Longrightarrow> emits A n \<Longrightarrow> emits A (if b then m else n)"
  by simp

lemma emits_for_each [intro]: "(\<And>x. emits A (f x)) \<Longrightarrow> emits A (for_each f xs)"
  by (induction xs) (auto simp del: ret_apply)

end
