(* ===== verification/Halt.thy ===== *)
theory Halt
  imports Executor Effects
begin

text \<open>
  The halt controller of \<open>execution/halt.py\<close>: the automatic check, the manual halt and the settling
  of open orders after a restart. The controller's own state is the kill switch and the flag that
  positions have been flattened; the broker, the recorder and the sleeper are operations on a
  world of arbitrary type, and the clock never fails.
\<close>

section \<open>The controller\<close>

record 'w halt_ctl =
  hl_gw :: "'w gateway"
  hl_record :: "kill_switch_event \<Rightarrow> ('w, exn, unit) eff"
  hl_run_id :: uuid
  hl_clock :: "'w \<Rightarrow> instant \<times> 'w"
  hl_sleep :: "int \<Rightarrow> ('w, exn, unit) eff"
  hl_poll_seconds :: int
  hl_poll_attempts :: nat

record halt_state =
  hs_switch :: kill_switch
  hs_flattened :: bool

type_synonym ('w, 'a) halt_eff = "('w \<times> halt_state, exn, 'a) eff"

definition on_broker :: "('w, exn, 'a) eff \<Rightarrow> ('w, 'a) halt_eff" where
  "on_broker m = (\<lambda>(w, h). case m w of (r, w') \<Rightarrow> (r, (w', h)))"

definition HALT_ROUNDS :: nat where
  "HALT_ROUNDS = 3"

fun confirm_terminal :: "'w halt_ctl \<Rightarrow> nat \<Rightarrow> string \<Rightarrow> ('w, exn, unit) eff" where
  "confirm_terminal c 0 bid = throw CancelNotConfirmedError"
| "confirm_terminal c (Suc n) bid =
     bnd (gw_get_order (hl_gw c) bid) (\<lambda>x.
       if terminal (bo_status x) then ret ()
       else bnd (hl_sleep c (hl_poll_seconds c)) (\<lambda>_. confirm_terminal c n bid))"

definition cancel_one :: "'w halt_ctl \<Rightarrow> broker_order \<Rightarrow> ('w, exn, unit) eff" where
  "cancel_one c x =
     catch (gw_cancel_order (hl_gw c) (bo_broker_order_id x))
       (\<lambda>e. if e = OrderNotCancelableError then ret () else throw e)"

fun cancel_rounds :: "'w halt_ctl \<Rightarrow> nat \<Rightarrow> string list \<Rightarrow> ('w, exn, string list) eff" where
  "cancel_rounds c 0 cancelled =
     bnd (gw_open_orders (hl_gw c)) (\<lambda>xs.
       if xs \<noteq> [] then throw CancelNotConfirmedError else ret cancelled)"
| "cancel_rounds c (Suc k) cancelled =
     bnd (gw_open_orders (hl_gw c)) (\<lambda>xs.
       if xs = [] then ret cancelled
       else bnd (for_each (cancel_one c) xs) (\<lambda>_.
            bnd (for_each (\<lambda>x. confirm_terminal c (hl_poll_attempts c) (bo_broker_order_id x)) xs) (\<lambda>_.
            cancel_rounds c k (cancelled @ map bo_broker_order_id xs))))"

definition cancel_all_confirmed :: "'w halt_ctl \<Rightarrow> ('w, exn, string list) eff" where
  "cancel_all_confirmed c = cancel_rounds c HALT_ROUNDS []"

definition close_all :: "'w halt_ctl \<Rightarrow> ('w, exn, unit) eff" where
  "close_all c =
     bnd (gw_positions (hl_gw c)) (\<lambda>ps.
       for_each (\<lambda>(symbol, qty). if qty \<noteq> 0 then gw_close_position (hl_gw c) symbol else ret ()) ps)"

section \<open>Halting\<close>

definition halt_event ::
  "'w halt_ctl \<Rightarrow> instant \<Rightarrow> kill_trigger \<Rightarrow> real option \<Rightarrow> real option \<Rightarrow> string list \<Rightarrow> bool
   \<Rightarrow> kill_switch_event" where
  "halt_event c now trigger loss dd cancelled flattened =
     \<lparr>ke_run_id = hl_run_id c, ke_triggered_at = now, ke_trigger = trigger, ke_daily_loss = loss,
      ke_peak_drawdown = dd, ke_cancelled_order_ids = cancelled, ke_flattened = flattened\<rparr>"

text \<open>
  The \<open>finally\<close> clause: build the event, which validates it, and record it. An exception of its own
  replaces the outcome of the body.
\<close>

definition record_halt_event ::
  "'w halt_ctl \<Rightarrow> kill_trigger \<Rightarrow> real option \<Rightarrow> real option \<Rightarrow> string list \<Rightarrow> bool \<Rightarrow> exn + unit
   \<Rightarrow> ('w, exn, unit) eff" where
  "record_halt_event c trigger loss dd cancelled flattened outcome w =
     (case hl_clock c w of
        (now, w1) \<Rightarrow>
          let e = halt_event c now trigger loss dd cancelled flattened
          in if \<not> valid_kill_switch_event e then (Inl ValueErr, w1)
             else case hl_record c e w1 of
                    (Inl x, w2) \<Rightarrow> (Inl x, w2)
                  | (Inr _, w2) \<Rightarrow> (outcome, w2))"

definition do_halt ::
  "'w halt_ctl \<Rightarrow> kill_trigger \<Rightarrow> bool \<Rightarrow> real option \<Rightarrow> real option \<Rightarrow> ('w, unit) halt_eff" where
  "do_halt c trigger flatten loss dd = (\<lambda>(w, h).
     let h1 = h\<lparr>hs_switch := snd (ks_halt trigger (hs_switch h))\<rparr>
     in case cancel_all_confirmed c w of
          (Inl e, w1) \<Rightarrow> on_broker (record_halt_event c trigger loss dd [] False (Inl e)) (w1, h1)
        | (Inr cancelled, w1) \<Rightarrow>
            if \<not> flatten
            then on_broker (record_halt_event c trigger loss dd cancelled False (Inr ())) (w1, h1)
            else case close_all c w1 of
                   (Inl e, w2) \<Rightarrow>
                     on_broker (record_halt_event c trigger loss dd cancelled False (Inl e)) (w2, h1)
                 | (Inr _, w2) \<Rightarrow>
                     on_broker (record_halt_event c trigger loss dd cancelled True (Inr ()))
                       (w2, h1\<lparr>hs_flattened := True\<rparr>))"

section \<open>The operations\<close>

fun kill_exn :: "kill_error \<Rightarrow> exn" where
  "kill_exn ValueError = ValueErr"
| "kill_exn EquityEvidenceError = EquityEvidence"

definition lift_kill :: "kill_error + 'a \<Rightarrow> ('w, exn, 'a) eff" where
  "lift_kill r = (case r of Inl e \<Rightarrow> throw (kill_exn e) | Inr x \<Rightarrow> ret x)"

definition drawdown :: "'w halt_ctl \<Rightarrow> flt \<Rightarrow> bool \<Rightarrow> ('w, exn, real option) eff" where
  "drawdown c current required =
     catch
       (bnd (gw_equity_history (hl_gw c)) (\<lambda>history.
        bnd (lift_kill (peak_drawdown history current)) (\<lambda>pd. ret (Some (snd pd)))))
       (\<lambda>e. if e = EquityEvidence \<and> \<not> required then ret None else throw e)"

definition safe_drawdown :: "'w halt_ctl \<Rightarrow> ('w, exn, real option) eff" where
  "safe_drawdown c =
     catch (bnd (gw_account_equity (hl_gw c)) (\<lambda>eq. drawdown c (fst eq) False)) (\<lambda>_. ret None)"

definition check ::
  "'w halt_ctl \<Rightarrow> real \<Rightarrow> (feed_name \<Rightarrow> instant option option) \<Rightarrow> (feed_name \<times> real) list
   \<Rightarrow> ('w, kill_trigger option) halt_eff" where
  "check c limit last_success sla_hours = (\<lambda>(w, h).
     if ks_halted (hs_switch h) then (Inr None, (w, h))
     else
       bnd (on_broker (gw_account_equity (hl_gw c))) (\<lambda>(equity, prior).
       bnd (on_broker (\<lambda>w. case hl_clock c w of (now, w') \<Rightarrow> (Inr now, w'))) (\<lambda>now.
       bnd (on_broker (lift_kill (evaluate equity prior limit last_success sla_hours now))) (\<lambda>trigger.
         case trigger of
           None \<Rightarrow> bnd (on_broker (drawdown c equity True)) (\<lambda>_. ret None)
         | Some t \<Rightarrow>
             bnd (on_broker (drawdown c equity False)) (\<lambda>dd.
             bnd (on_broker (lift_kill (daily_loss equity prior))) (\<lambda>loss.
             bnd (do_halt c t False (Some loss) dd) (\<lambda>_. ret (Some t))))))) (w, h))"

definition manual_halt :: "'w halt_ctl \<Rightarrow> bool \<Rightarrow> ('w, unit) halt_eff" where
  "manual_halt c flatten = (\<lambda>(w, h).
     if flatten \<and> hs_flattened h then (Inr (), (w, h))
     else bnd (on_broker (safe_drawdown c)) (\<lambda>dd. do_halt c MANUAL flatten None dd) (w, h))"

definition settle_open_orders :: "'w halt_ctl \<Rightarrow> ('w, string list) halt_eff" where
  "settle_open_orders c = (\<lambda>(w, h).
     if ks_halted (hs_switch h) then on_broker (cancel_all_confirmed c) (w, h)
     else (Inr [], (w, h)))"

section \<open>Watching the broker\<close>

datatype hcall =
    HOpen "broker_order list"
  | HGet string broker_order
  | HCancel string
  | HPositions
  | HClose string
  | HSubmit string
  | HRecord kill_switch_event

definition watched_gateway :: "'w gateway \<Rightarrow> ('w \<times> hcall list) gateway" where
  "watched_gateway gw =
     \<lparr>gw_find_by_client_id = (\<lambda>cid. unlogged (gw_find_by_client_id gw cid)),
      gw_get_order = (\<lambda>b. logged (\<lambda>_. []) (\<lambda>x. [HGet b x]) (gw_get_order gw b)),
      gw_submit_limit = (\<lambda>cid s side q p.
        logged (\<lambda>_. [HSubmit cid]) (\<lambda>_. []) (gw_submit_limit gw cid s side q p)),
      gw_submit_market = (\<lambda>cid s side q.
        logged (\<lambda>_. [HSubmit cid]) (\<lambda>_. []) (gw_submit_market gw cid s side q)),
      gw_cancel_order = (\<lambda>b. logged (\<lambda>_. [HCancel b]) (\<lambda>_. []) (gw_cancel_order gw b)),
      gw_open_orders = logged (\<lambda>_. []) (\<lambda>xs. [HOpen xs]) (gw_open_orders gw),
      gw_positions = logged (\<lambda>_. [HPositions]) (\<lambda>_. []) (gw_positions gw),
      gw_close_position = (\<lambda>s. logged (\<lambda>_. [HClose s]) (\<lambda>_. []) (gw_close_position gw s)),
      gw_account_equity = unlogged (gw_account_equity gw),
      gw_equity_history = unlogged (gw_equity_history gw)\<rparr>"

definition watched :: "'w halt_ctl \<Rightarrow> ('w \<times> hcall list) halt_ctl" where
  "watched c =
     \<lparr>hl_gw = watched_gateway (hl_gw c),
      hl_record = (\<lambda>e. logged (\<lambda>_. [HRecord e]) (\<lambda>_. []) (hl_record c e)),
      hl_run_id = hl_run_id c,
      hl_clock = (\<lambda>(w, tr). case hl_clock c w of (t, w') \<Rightarrow> (t, (w', tr))),
      hl_sleep = (\<lambda>d. unlogged (hl_sleep c d)),
      hl_poll_seconds = hl_poll_seconds c, hl_poll_attempts = hl_poll_attempts c\<rparr>"

lemma watched_simps [simp]:
  "gw_get_order (hl_gw (watched c)) b = logged (\<lambda>_. []) (\<lambda>x. [HGet b x]) (gw_get_order (hl_gw c) b)"
  "gw_cancel_order (hl_gw (watched c)) b = logged (\<lambda>_. [HCancel b]) (\<lambda>_. []) (gw_cancel_order (hl_gw c) b)"
  "gw_open_orders (hl_gw (watched c)) = logged (\<lambda>_. []) (\<lambda>xs. [HOpen xs]) (gw_open_orders (hl_gw c))"
  "gw_positions (hl_gw (watched c)) = logged (\<lambda>_. [HPositions]) (\<lambda>_. []) (gw_positions (hl_gw c))"
  "gw_close_position (hl_gw (watched c)) s = logged (\<lambda>_. [HClose s]) (\<lambda>_. []) (gw_close_position (hl_gw c) s)"
  "gw_account_equity (hl_gw (watched c)) = unlogged (gw_account_equity (hl_gw c))"
  "gw_equity_history (hl_gw (watched c)) = unlogged (gw_equity_history (hl_gw c))"
  "hl_record (watched c) e = logged (\<lambda>_. [HRecord e]) (\<lambda>_. []) (hl_record c e)"
  "hl_clock (watched c) (w, tr) = (case hl_clock c w of (t, w') \<Rightarrow> (t, (w', tr)))"
  "hl_sleep (watched c) d = unlogged (hl_sleep c d)"
  "hl_poll_seconds (watched c) = hl_poll_seconds c"
  "hl_poll_attempts (watched c) = hl_poll_attempts c"
  "hl_run_id (watched c) = hl_run_id c"
  by (simp_all add: watched_def watched_gateway_def)

section \<open>Cancelling and confirming\<close>

fun asking :: "hcall \<Rightarrow> bool" where
  "asking (HOpen _) = True"
| "asking (HGet _ _) = True"
| "asking (HCancel _) = True"
| "asking _ = False"

definition confirmed :: "hcall list \<Rightarrow> bool" where
  "confirmed tr \<longleftrightarrow>
     (\<forall>xs x. HOpen xs \<in> set tr \<longrightarrow> x \<in> set xs \<longrightarrow>
        (\<exists>y. HGet (bo_broker_order_id x) y \<in> set tr \<and> terminal (bo_status y)))"

lemma emits_cancel_one: "emits (\<lambda>x. \<exists>b. x = HCancel b) (cancel_one (watched c) x)"
  unfolding cancel_one_def watched_simps
  by (intro emits_catch emits_if emits_ret emits_throw emits_logged) auto

lemma confirm_terminal_trace:
  "confirm_terminal (watched c) n b (w, tr) = (r, (w', tr')) \<Longrightarrow>
   \<exists>new. tr' = new @ tr \<and> list_all (\<lambda>x. \<exists>b y. x = HGet b y) new \<and>
     (r = Inr () \<longrightarrow> (\<exists>y. HGet b y \<in> set new \<and> terminal (bo_status y)))"
proof (induction n arbitrary: w tr)
  case 0
  then show ?case by auto
next
  case (Suc n)
  obtain r1 w1 where one: "gw_get_order (hl_gw c) b w = (r1, w1)" by (metis prod.collapse)
  show ?case
  proof (cases r1)
    case (Inl e)
    with one Suc.prems show ?thesis by (auto simp: bnd_def logged_def)
  next
    case (Inr x)
    show ?thesis
    proof (cases "terminal (bo_status x)")
      case True
      with one Inr Suc.prems show ?thesis by (auto simp: bnd_def logged_def)
    next
      case False
      obtain r2 w2 where two: "hl_sleep c (hl_poll_seconds c) w1 = (r2, w2)" by (metis prod.collapse)
      show ?thesis
      proof (cases r2)
        case (Inl e)
        with one \<open>r1 = Inr x\<close> two False Suc.prems show ?thesis
          by (auto simp: bnd_def logged_def unlogged_def)
      next
        case (Inr u)
        with one \<open>r1 = Inr x\<close> two False Suc.prems
        have "confirm_terminal (watched c) n b (w2, HGet b x # tr) = (r, (w', tr'))"
          by (auto simp: bnd_def logged_def unlogged_def)
        from Suc.IH [OF this] show ?thesis by (fastforce intro: exI [of _ "_ @ [HGet b x]"])
      qed
    qed
  qed
qed

lemma confirm_each_trace:
  "for_each (\<lambda>x. confirm_terminal (watched c) n (bo_broker_order_id x)) xs (w, tr) = (r, (w', tr')) \<Longrightarrow>
   \<exists>new. tr' = new @ tr \<and> list_all (\<lambda>x. \<exists>b y. x = HGet b y) new \<and>
     (r = Inr () \<longrightarrow> (\<forall>x \<in> set xs. \<exists>y. HGet (bo_broker_order_id x) y \<in> set new \<and> terminal (bo_status y)))"
proof (induction xs arbitrary: w tr)
  case Nil
  then show ?case by auto
next
  case (Cons x xs)
  obtain r1 w1 tr1 where
    one: "confirm_terminal (watched c) n (bo_broker_order_id x) (w, tr) = (r1, (w1, tr1))"
    by (metis prod.collapse)
  from confirm_terminal_trace [OF one] obtain a where a: "tr1 = a @ tr"
    "list_all (\<lambda>x. \<exists>b y. x = HGet b y) a"
    "r1 = Inr () \<Longrightarrow> \<exists>y. HGet (bo_broker_order_id x) y \<in> set a \<and> terminal (bo_status y)" by blast
  show ?case
  proof (cases r1)
    case (Inl e)
    with one Cons.prems a show ?thesis by (auto simp: bnd_def)
  next
    case (Inr u)
    with one Cons.prems have
      "for_each (\<lambda>x. confirm_terminal (watched c) n (bo_broker_order_id x)) xs (w1, tr1) = (r, (w', tr'))"
      by (simp add: bnd_def)
    from Cons.IH [OF this] obtain b where b: "tr' = b @ tr1" "list_all (\<lambda>x. \<exists>b y. x = HGet b y) b"
      "r = Inr () \<Longrightarrow> \<forall>x \<in> set xs. \<exists>y. HGet (bo_broker_order_id x) y \<in> set b \<and> terminal (bo_status y)"
      by blast
    have "r1 = Inr ()" using Inr by simp
    with a b show ?thesis by (intro exI [of _ "b @ a"]) auto
  qed
qed

text \<open>
  The rounds of cancelling return only with an empty listing as their last call, with every order
  listed on the way seen in a terminal status, and with the ids of exactly those orders.
\<close>

definition listed :: "hcall list \<Rightarrow> broker_order list" where
  "listed tr = concat (map (\<lambda>c. case c of HOpen xs \<Rightarrow> xs | _ \<Rightarrow> []) (rev tr))"

lemma listed_simps [simp]:
  "listed [] = []"
  "listed (c # tr) = listed tr @ (case c of HOpen xs \<Rightarrow> xs | _ \<Rightarrow> [])"
  "listed (a @ b) = listed b @ listed a"
  by (simp_all add: listed_def)

lemma listed_quiet:
  "list_all (\<lambda>x. \<exists>b. x = HCancel b) a \<Longrightarrow> listed a = []"
  "list_all (\<lambda>x. \<exists>b y. x = HGet b y) a \<Longrightarrow> listed a = []"
  by (induction a) auto

definition seen_terminal :: "hcall list \<Rightarrow> broker_order \<Rightarrow> bool" where
  "seen_terminal tr x \<longleftrightarrow> (\<exists>y. HGet (bo_broker_order_id x) y \<in> set tr \<and> terminal (bo_status y))"

lemma cancel_rounds_trace:
  "cancel_rounds (watched c) k acc (w, tr) = (r, (w', tr')) \<Longrightarrow>
   \<exists>new. tr' = new @ tr \<and> list_all asking new \<and>
     (\<forall>ids. r = Inr ids \<longrightarrow> ids = acc @ map bo_broker_order_id (listed new) \<and>
        (\<exists>older. new = HOpen [] # older) \<and> list_all (seen_terminal new) (listed new))"
proof (induction k arbitrary: acc w tr)
  case 0
  then show ?case
    by (auto simp: bnd_def logged_def split: prod.splits sum.splits if_splits)
next
  case (Suc k)
  obtain r1 w1 where one: "gw_open_orders (hl_gw c) w = (r1, w1)" by (metis prod.collapse)
  show ?case
  proof (cases r1)
    case (Inl e)
    with one Suc.prems show ?thesis by (auto simp: bnd_def logged_def)
  next
    case lst: (Inr xs)
    show ?thesis
    proof (cases "xs = []")
      case True
      with one lst Suc.prems show ?thesis by (auto simp: bnd_def logged_def)
    next
      case ne: False
      let ?cancel = "for_each (cancel_one (watched c)) xs"
      let ?confirm = "for_each (\<lambda>x. confirm_terminal (watched c) (hl_poll_attempts c) (bo_broker_order_id x)) xs"
      obtain r2 w2 tr2 where two: "?cancel (w1, HOpen xs # tr) = (r2, (w2, tr2))" by (metis prod.collapse)
      from emitsE [OF emits_for_each [OF emits_cancel_one] two]
      obtain a where a: "tr2 = a @ HOpen xs # tr" "list_all (\<lambda>x. \<exists>b. x = HCancel b) a" .
      have ask_a: "list_all asking a" using a(2) by (induction a) auto
      show ?thesis
      proof (cases r2)
        case (Inl e)
        with one lst ne two a ask_a Suc.prems show ?thesis
          by (auto simp: bnd_def logged_def intro: exI [of _ "a @ [HOpen xs]"])
      next
        case cn: (Inr u)
        obtain r3 w3 tr3 where three: "?confirm (w2, tr2) = (r3, (w3, tr3))" by (metis prod.collapse)
        from confirm_each_trace [OF three] obtain b where b: "tr3 = b @ tr2"
          "list_all (\<lambda>x. \<exists>b y. x = HGet b y) b"
          "r3 = Inr () \<Longrightarrow> \<forall>x \<in> set xs. \<exists>y. HGet (bo_broker_order_id x) y \<in> set b \<and> terminal (bo_status y)"
          by blast
        have ask_b: "list_all asking b" using b(2) by (induction b) auto
        show ?thesis
        proof (cases r3)
          case (Inl e)
          with one lst ne two cn three a b ask_a ask_b Suc.prems show ?thesis
            by (auto simp: bnd_def logged_def intro: exI [of _ "b @ a @ [HOpen xs]"])
        next
          case cf: (Inr v)
          with one lst ne two cn three Suc.prems
          have rest: "cancel_rounds (watched c) k (acc @ map bo_broker_order_id xs) (w3, tr3) = (r, (w', tr'))"
            by (auto simp: bnd_def logged_def)
          from Suc.IH [OF rest] obtain d where d: "tr' = d @ tr3" "list_all asking d"
            "\<And>ids. r = Inr ids \<Longrightarrow> ids = (acc @ map bo_broker_order_id xs) @ map bo_broker_order_id (listed d) \<and>
               (\<exists>older. d = HOpen [] # older) \<and> list_all (seen_terminal d) (listed d)" by blast
          let ?new = "d @ b @ a @ [HOpen xs]"
          have new: "tr' = ?new @ tr" using a(1) b(1) d(1) by simp
          have "listed ?new = xs @ listed d"
            using listed_quiet(1) [OF a(2)] listed_quiet(2) [OF b(2)] by simp
          moreover have "list_all (seen_terminal ?new) (xs @ listed d)" if "r = Inr ids" for ids
            using d(3) [OF that] b(3) cf by (auto simp: list_all_iff seen_terminal_def)
          ultimately show ?thesis
            using new d ask_a ask_b by (intro exI [of _ ?new]) fastforce
        qed
      qed
    qed
  qed
qed

section \<open>A halt\<close>

fun closing :: "hcall \<Rightarrow> bool" where
  "closing HPositions = True"
| "closing (HClose _) = True"
| "closing _ = False"

lemma emits_close_all: "emits closing (close_all (watched c))"
proof -
  have "emits closing ((\<lambda>(s, q). if q \<noteq> 0 then gw_close_position (hl_gw (watched c)) s else ret ()) x)" for x
    by (cases x) (simp del: ret_apply, intro conjI impI emits_logged emits_ret, auto)
  then show ?thesis
    unfolding close_all_def watched_simps by (intro emits_bnd emits_logged emits_for_each) auto
qed

text \<open>
  The calls of a halt, newest first: the record of the event, then the closing of positions, which
  happens only after cancelling ended well, then the rounds of cancelling.
\<close>

definition halt_shape :: "bool \<Rightarrow> kill_switch_event \<Rightarrow> hcall list \<Rightarrow> hcall list \<Rightarrow> hcall list \<Rightarrow> bool" where
  "halt_shape flatten e tr cls cnc \<longleftrightarrow>
     tr = HRecord e # cls @ cnc \<and> list_all asking cnc \<and> list_all closing cls \<and>
     (cls \<noteq> [] \<longrightarrow> flatten) \<and> (ke_flattened e \<longrightarrow> flatten) \<and>
     (cls \<noteq> [] \<or> ke_flattened e \<or> ke_cancelled_order_ids e \<noteq> [] \<longrightarrow>
        (\<exists>older. cnc = HOpen [] # older) \<and> list_all (seen_terminal cnc) (listed cnc) \<and>
        ke_cancelled_order_ids e = map bo_broker_order_id (listed cnc))"

definition labels_ok :: "hcall list \<Rightarrow> bool" where
  "labels_ok tr \<longleftrightarrow> list_all (\<lambda>x. label_ok (bo_broker_order_id x)) (listed tr)"

lemma record_halt_event_trace:
  assumes "record_halt_event (watched c) trigger loss dd ids fl out (w, tr) = (r, (w', tr'))"
    and "list_all label_ok ids" and "fl \<longrightarrow> trigger = MANUAL"
  obtains now where "tr' = HRecord (halt_event c now trigger loss dd ids fl) # tr"
  using assms
  by (auto simp: record_halt_event_def logged_def halt_event_def valid_kill_switch_event_def Let_def
      split: prod.splits sum.splits)

lemma record_halt_event_grows:
  assumes "record_halt_event (watched c) trigger loss dd ids fl out (w, tr) = (r, (w', tr'))"
  obtains new where "tr' = new @ tr" and "listed new = []"
  using assms
  by (auto simp: record_halt_event_def logged_def Let_def split: prod.splits sum.splits if_splits)

lemma listed_closing: "list_all closing a \<Longrightarrow> listed a = []"
proof (induction a)
  case (Cons c a)
  then show ?case by (cases c) auto
qed simp

lemma do_halt_trace:
  assumes run: "do_halt (watched c) trigger flatten loss dd ((w, []), h) = (r, ((w', tr), h'))"
    and manual: "flatten \<longrightarrow> trigger = MANUAL" and labels: "labels_ok tr"
  shows "\<exists>e cls cnc. halt_shape flatten e tr cls cnc \<and> ke_trigger e = trigger \<and>
    ke_daily_loss e = loss \<and> ke_peak_drawdown e = dd \<and> ke_run_id e = hl_run_id c \<and>
    hs_switch h' = snd (ks_halt trigger (hs_switch h)) \<and>
    hs_flattened h' = (hs_flattened h \<or> ke_flattened e)"
proof -
  let ?h1 = "h\<lparr>hs_switch := snd (ks_halt trigger (hs_switch h))\<rparr>"
  let ?rec = "record_halt_event (watched c) trigger loss dd"
  obtain r1 w1 tr1 where one: "cancel_all_confirmed (watched c) (w, []) = (r1, (w1, tr1))"
    by (metis prod.collapse)
  from cancel_rounds_trace [OF one [unfolded cancel_all_confirmed_def]]
  have ask: "list_all asking tr1"
    and ids: "\<And>ids. r1 = Inr ids \<Longrightarrow> ids = map bo_broker_order_id (listed tr1) \<and>
        (\<exists>older. tr1 = HOpen [] # older) \<and> list_all (seen_terminal tr1) (listed tr1)"
    by auto
  have fin: ?thesis if "on_broker (?rec js fl out) ((w2, cls @ tr1), h2) = (r, ((w', tr), h'))"
    and "list_all closing cls" and "cls \<noteq> [] \<longrightarrow> flatten" and "fl \<longrightarrow> flatten"
    and "js = [] \<and> cls = [] \<and> \<not> fl \<or> r1 = Inr js"
    and "h2 = ?h1\<lparr>hs_flattened := hs_flattened h \<or> fl\<rparr>"
    for js fl out w2 cls h2
  proof -
    from that(1) have rc: "?rec js fl out (w2, cls @ tr1) = (r, (w', tr))" and h': "h' = h2"
      by (auto simp: on_broker_def split: prod.splits)
    from record_halt_event_grows [OF rc] obtain new where "tr = new @ cls @ tr1" "listed new = []" .
    then have "listed tr = listed tr1" using listed_closing [OF that(2)] by simp
    with labels have "list_all label_ok (map bo_broker_order_id (listed tr1))"
      by (simp add: labels_ok_def list_all_iff)
    with that(5) ids have "list_all label_ok js" by auto
    from record_halt_event_trace [OF rc this] that(4) manual obtain now where
      tr: "tr = HRecord (halt_event c now trigger loss dd js fl) # cls @ tr1" by auto
    have "halt_shape flatten (halt_event c now trigger loss dd js fl) tr cls tr1"
      unfolding halt_shape_def using tr ask that(2-5) ids by (auto simp: halt_event_def)
    then show ?thesis
      by (intro exI conjI, assumption) (simp_all add: halt_event_def h' that(6))
  qed
  show ?thesis
  proof (cases r1)
    case (Inl e)
    show ?thesis
      by (rule fin [of "[]" False "Inl e" w1 "[]" ?h1]) (use run one Inl in \<open>auto simp: do_halt_def\<close>)
  next
    case (Inr js)
    show ?thesis
    proof (cases flatten)
      case False
      show ?thesis
        by (rule fin [of "js" False "Inr ()" w1 "[]" ?h1])
          (use run one Inr False in \<open>auto simp: do_halt_def\<close>)
    next
      case True
      obtain r2 w2 tr2 where two: "close_all (watched c) (w1, tr1) = (r2, (w2, tr2))"
        by (metis prod.collapse)
      from emitsE [OF emits_close_all two] obtain cls where cls: "tr2 = cls @ tr1" "list_all closing cls" .
      show ?thesis
      proof (cases r2)
        case (Inl e)
        show ?thesis
          by (rule fin [of "js" False "Inl e" w2 cls ?h1])
            (use run one Inl \<open>r1 = Inr js\<close> True two cls in \<open>auto simp: do_halt_def\<close>)
      next
        case (Inr u)
        show ?thesis
          by (rule fin [of "js" True "Inr ()" w2 cls "?h1\<lparr>hs_flattened := True\<rparr>"])
            (use run one Inr \<open>r1 = Inr js\<close> True two cls in \<open>auto simp: do_halt_def\<close>)
      qed
    qed
  qed
qed

section \<open>The operations as seen by the broker\<close>

definition halt_run ::
  "('w \<times> hcall list, 'a) halt_eff \<Rightarrow> 'w \<Rightarrow> halt_state \<Rightarrow> (exn + 'a) \<times> hcall list \<times> halt_state" where
  "halt_run m w h = (case m ((w, []), h) of (r, ((_, tr), h')) \<Rightarrow> (r, tr, h'))"

lemma halt_runE:
  assumes "halt_run m w h = (r, tr, h')"
  obtains w' where "m ((w, []), h) = (r, ((w', tr), h'))"
  using assms by (auto simp: halt_run_def split: prod.splits)

lemma emits_nothing:
  assumes "emits (\<lambda>_. False) m" and "m (w, tr) = (r, (w', tr'))"
  shows "tr' = tr"
  by (rule emitsE [OF assms]) (auto simp: list_all_iff)

lemma silent_lift_kill: "emits (\<lambda>_. False) (lift_kill x)"
  by (cases x) (auto simp: lift_kill_def simp del: ret_apply throw_apply)

lemma silent_drawdown: "emits (\<lambda>_. False) (drawdown (watched c) eq b)"
  unfolding drawdown_def watched_simps
  by (intro emits_catch emits_bnd emits_unlogged silent_lift_kill emits_ret emits_if emits_throw)

lemma silent_safe_drawdown: "emits (\<lambda>_. False) (safe_drawdown (watched c))"
  unfolding safe_drawdown_def watched_simps
  by (intro emits_catch emits_bnd emits_unlogged silent_drawdown emits_ret)

text \<open>A manual halt that does something is a halt, with the trigger MANUAL.\<close>

lemma manual_halt_is_halt:
  assumes "manual_halt (watched c) fl ((w, []), h) = (r, ((w', tr), h'))"
    and "\<not> (fl \<and> hs_flattened h)"
  obtains dd w1 where "do_halt (watched c) MANUAL fl None dd ((w1, []), h) = (r, ((w', tr), h'))"
proof -
  obtain r1 w1 tr1 where one: "safe_drawdown (watched c) (w, []) = (r1, (w1, tr1))"
    by (metis prod.collapse)
  from emits_nothing [OF silent_safe_drawdown one] have tr1: "tr1 = []" .
  from one have "r1 \<noteq> Inl e" for e
    by (auto simp: safe_drawdown_def catch_def split: prod.splits sum.splits)
  then obtain dd where "r1 = Inr dd" by (cases r1) auto
  with one assms tr1 show thesis
    by (intro that [of dd w1]) (auto simp: manual_halt_def bnd_def on_broker_def)
qed

lemma lift_kill_Inr: "lift_kill x s = (Inr y, s') \<longleftrightarrow> x = Inr y \<and> s' = s"
  by (cases x) (auto simp: lift_kill_def)

lemma lift_kill_Inl: "lift_kill x s = (Inl e, s') \<Longrightarrow> s' = s"
  by (cases x) (auto simp: lift_kill_def)


section \<open>A concrete broker\<close>

text \<open>
  One working order, which a cancel ends, and one position. The world says whether the order still
  works.
\<close>

definition working_order :: "bool \<Rightarrow> broker_order" where
  "working_order open_now =
     \<lparr>bo_broker_order_id = ''b1'', bo_client_order_id = ''c1'', bo_symbol = ''SPY'', bo_side = BUY,
      bo_kind = LIMIT, bo_qty = 5, bo_filled_qty = 0, bo_limit_price = Some 100,
      bo_filled_avg_price = None, bo_status = (if open_now then OPEN else CANCELED),
      bo_submitted_at = 0, bo_filled_at = None\<rparr>"

definition demo_ctl :: "bool halt_ctl" where
  "demo_ctl =
     \<lparr>hl_gw = \<lparr>gw_find_by_client_id = (\<lambda>_. ret None),
        gw_get_order = (\<lambda>_ b. (Inr (working_order b), b)),
        gw_submit_limit = (\<lambda>_ _ _ _ _. throw BrokerError),
        gw_submit_market = (\<lambda>_ _ _ _. throw BrokerError),
        gw_cancel_order = (\<lambda>_ _. (Inr (), False)),
        gw_open_orders = (\<lambda>b. (Inr (if b then [working_order b] else []), b)),
        gw_positions = ret [(''SPY'', 5), (''QQQ'', 0)], gw_close_position = (\<lambda>_. ret ()),
        gw_account_equity = ret (Fin 90, Fin 100), gw_equity_history = ret [Fin 100]\<rparr>,
      hl_record = (\<lambda>_. ret ()), hl_run_id = ''run'', hl_clock = (\<lambda>b. (7, b)),
      hl_sleep = (\<lambda>_. ret ()), hl_poll_seconds = 1, hl_poll_attempts = 2\<rparr>"

definition running :: halt_state where
  "running = \<lparr>hs_switch = None, hs_flattened = False\<rparr>"

definition demo_event :: "kill_trigger \<Rightarrow> real option \<Rightarrow> bool \<Rightarrow> kill_switch_event" where
  "demo_event t loss fl =
     \<lparr>ke_run_id = ''run'', ke_triggered_at = 7, ke_trigger = t, ke_daily_loss = loss,
      ke_peak_drawdown = Some (1 / 10), ke_cancelled_order_ids = [''b1''], ke_flattened = fl\<rparr>"

definition demo_cancels :: "hcall list" where
  "demo_cancels = [HOpen [], HGet ''b1'' (working_order False), HCancel ''b1'', HOpen [working_order True]]"

lemmas halt_eval =
  halt_run_def manual_halt_def check_def do_halt_def demo_ctl_def running_def watched_def
  watched_gateway_def on_broker_def bnd_def catch_def safe_drawdown_def drawdown_def lift_kill_def
  peak_drawdown_def daily_loss_def evaluate_def stale_feeds_def logged_def unlogged_def
  cancel_all_confirmed_def HALT_ROUNDS_def numeral_eq_Suc cancel_one_def working_order_def
  terminal_def TERMINAL_ORDER_STATUSES_def close_all_def record_halt_event_def halt_event_def
  valid_kill_switch_event_def label_ok_def demo_event_def demo_cancels_def ks_halt_def ks_halted_def

lemma demo_manual_halt:
  "halt_run (manual_halt (watched demo_ctl) True) True running =
     (Inr (), [HRecord (demo_event MANUAL None True), HClose ''SPY'', HPositions] @ demo_cancels,
      \<lparr>hs_switch = Some MANUAL, hs_flattened = True\<rparr>)"
  by (simp add: halt_eval Let_def)



lemma demo_labels:
  "labels_ok (HRecord e # HClose s # HPositions # demo_cancels)" "labels_ok (HRecord e # demo_cancels)"
  by (simp_all add: labels_ok_def demo_cancels_def working_order_def label_ok_def)

section \<open>Properties\<close>

lemma halt_shape_record:
  assumes "halt_shape fl e tr cls cnc"
  shows "\<exists>calls. tr = HRecord e # calls \<and> (\<forall>e'. HRecord e' \<notin> set calls) \<and> (\<forall>cid. HSubmit cid \<notin> set calls)"
  using assms by (auto simp: halt_shape_def list_all_iff)

lemma halt_shape_close:
  assumes sh: "halt_shape fl e tr cls cnc" and tr: "tr = later @ HClose s # earlier"
  shows "fl \<and> (\<exists>mid older. earlier = mid @ HOpen [] # older \<and> list_all closing mid \<and>
    list_all (seen_terminal older) (listed older))"
proof -
  from sh have d: "tr = HRecord e # cls @ cnc" "list_all asking cnc" "list_all closing cls"
    "cls \<noteq> [] \<longrightarrow> fl" by (auto simp: halt_shape_def)
  have no: "HClose s \<notin> set cnc" using d(2) by (auto simp: list_all_iff)
  from tr d(1) have "later @ HClose s # earlier = HRecord e # cls @ cnc" by simp
  then obtain later' where l: "later = HRecord e # later'" "later' @ HClose s # earlier = cls @ cnc"
    by (cases later) auto
  then obtain mid where mid: "earlier = mid @ cnc" "cls = later' @ HClose s # mid"
    using no by (auto simp: append_eq_append_conv2 Cons_eq_append_conv append_eq_Cons_conv)
  from sh mid(2) obtain older where o: "cnc = HOpen [] # older"
    and t: "list_all (seen_terminal cnc) (listed cnc)" by (auto simp: halt_shape_def)
  from t have "list_all (seen_terminal older) (listed older)"
    unfolding o by (auto simp: list_all_iff seen_terminal_def)
  with mid d(3,4) o show ?thesis by auto
qed

text \<open>
  C5: a halt is never lost. Whatever the broker does or refuses, a manual halt that is not a repeat
  engages the switch for good and ends by handing the recorder exactly one event, with the trigger
  MANUAL; and it submits no order.
\<close>

theorem manual_halt_recorded:
  assumes "halt_run (manual_halt (watched c) fl) w h = (r, tr, h')"
    and "\<not> (fl \<and> hs_flattened h)" and "labels_ok tr"
  shows "ks_halted (hs_switch h') \<and>
    (\<exists>e calls. tr = HRecord e # calls \<and> (\<forall>e'. HRecord e' \<notin> set calls) \<and>
       (\<forall>cid. HSubmit cid \<notin> set calls) \<and> ke_trigger e = MANUAL \<and> ke_run_id e = hl_run_id c \<and>
       (ke_flattened e \<longrightarrow> fl) \<and> hs_flattened h' = (hs_flattened h \<or> ke_flattened e))"
proof -
  obtain w' where "manual_halt (watched c) fl ((w, []), h) = (r, ((w', tr), h'))"
    by (rule halt_runE [OF assms(1)])
  from manual_halt_is_halt [OF this assms(2)] obtain dd w1 where
    "do_halt (watched c) MANUAL fl None dd ((w1, []), h) = (r, ((w', tr), h'))" .
  from do_halt_trace [OF this _ assms(3)] obtain e cls cnc where
    e: "halt_shape fl e tr cls cnc" "ke_trigger e = MANUAL" "ke_run_id e = hl_run_id c"
      "hs_switch h' = snd (ks_halt MANUAL (hs_switch h))"
      "hs_flattened h' = (hs_flattened h \<or> ke_flattened e)" by auto
  from halt_shape_record [OF e(1)] e show ?thesis by (auto simp: halt_shape_def)
qed

theorem manual_halt_recorded_witness:
  "ks_halted (Some MANUAL) \<and>
    (\<exists>e calls. [HRecord (demo_event MANUAL None True), HClose ''SPY'', HPositions] @ demo_cancels
         = HRecord e # calls \<and> (\<forall>e'. HRecord e' \<notin> set calls) \<and>
       (\<forall>cid. HSubmit cid \<notin> set calls) \<and> ke_trigger e = MANUAL \<and> ke_run_id e = hl_run_id demo_ctl \<and>
       (ke_flattened e \<longrightarrow> True) \<and> True = (hs_flattened running \<or> ke_flattened e))"
  using manual_halt_recorded [OF demo_manual_halt] by (simp add: running_def demo_labels)

text \<open>
  C6: a manual halt closes a position only if asked to flatten, and only after the broker's last
  listing of open orders was empty and every order it had listed before was seen in a terminal
  status, so no working order can re-open the exposure.
\<close>

theorem manual_halt_closes_after_confirming:
  assumes "halt_run (manual_halt (watched c) fl) w h = (r, tr, h')" and "labels_ok tr"
    and "tr = later @ HClose s # earlier"
  shows "fl \<and> (\<exists>mid older. earlier = mid @ HOpen [] # older \<and> list_all closing mid \<and>
    list_all (seen_terminal older) (listed older))"
proof -
  obtain w' where run: "manual_halt (watched c) fl ((w, []), h) = (r, ((w', tr), h'))"
    by (rule halt_runE [OF assms(1)])
  have "\<not> (fl \<and> hs_flattened h)"
    using run assms(3) by (auto simp: manual_halt_def)
  from manual_halt_is_halt [OF run this] obtain dd w1 where
    "do_halt (watched c) MANUAL fl None dd ((w1, []), h) = (r, ((w', tr), h'))" .
  from do_halt_trace [OF this _ assms(2)] obtain e cls cnc where "halt_shape fl e tr cls cnc" by auto
  then show ?thesis using assms(3) by (rule halt_shape_close)
qed

theorem manual_halt_closes_after_confirming_witness:
  "True \<and> (\<exists>mid older. HPositions # demo_cancels = mid @ HOpen [] # older \<and> list_all closing mid \<and>
    list_all (seen_terminal older) (listed older))"
  by (rule manual_halt_closes_after_confirming [OF demo_manual_halt, of "[HRecord (demo_event MANUAL None True)]" "''SPY''"])
    (simp_all add: demo_labels)





end
