(* ===== verification/Tables.thy ===== *)
theory Tables
  imports Prelude
begin

text \<open>
  Tables as lists of rows, and the SQL statements of \<open>store/write.py\<close> on them: insert ignoring
  conflicts, conditional update, and the insert-only writer that compares a replay with what is
  stored. A key is a function of the row. Rows are kept in the order they were inserted, which is
  the order of the identity columns.
\<close>

section \<open>Statements\<close>

definition has_key :: "('r \<Rightarrow> 'k) \<Rightarrow> 'r list \<Rightarrow> 'k \<Rightarrow> bool" where
  "has_key key tbl k \<longleftrightarrow> k \<in> set (map key tbl)"

definition row_of :: "('r \<Rightarrow> 'k) \<Rightarrow> 'r list \<Rightarrow> 'k \<Rightarrow> 'r option" where
  "row_of key tbl k = find (\<lambda>r. key r = k) tbl"

text \<open>\<open>INSERT .. ON CONFLICT DO NOTHING RETURNING 1\<close>: the number of new rows and the table.\<close>

fun insert_new :: "('r \<Rightarrow> 'k) \<Rightarrow> 'r list \<Rightarrow> 'r list \<Rightarrow> nat \<times> 'r list" where
  "insert_new key tbl [] = (0, tbl)"
| "insert_new key tbl (r # rs) =
     (if has_key key tbl (key r) then insert_new key tbl rs
      else case insert_new key (tbl @ [r]) rs of (n, t) \<Rightarrow> (Suc n, t))"

definition update_where :: "('r \<Rightarrow> bool) \<Rightarrow> ('r \<Rightarrow> 'r) \<Rightarrow> 'r list \<Rightarrow> 'r list" where
  "update_where p f tbl = map (\<lambda>r. if p r then f r else r) tbl"

definition keyed :: "('r \<Rightarrow> 'k) \<Rightarrow> 'r list \<Rightarrow> bool" where
  "keyed key tbl \<longleftrightarrow> distinct (map key tbl)"

lemma has_key_simps [simp, table_simps]:
  "\<not> has_key key [] k"
  "has_key key (r # tbl) k \<longleftrightarrow> key r = k \<or> has_key key tbl k"
  "has_key key (t @ u) k \<longleftrightarrow> has_key key t k \<or> has_key key u k"
  by (auto simp: has_key_def)

lemma has_key_iff: "has_key key tbl k \<longleftrightarrow> (\<exists>r \<in> set tbl. key r = k)"
  by (auto simp: has_key_def)

lemma row_of_None [table_simps]: "row_of key tbl k = None \<longleftrightarrow> \<not> has_key key tbl k"
  by (auto simp: row_of_def find_None_iff has_key_iff)

lemma find_in: "find P xs = Some x \<Longrightarrow> x \<in> set xs \<and> P x"
  by (induction xs) (auto split: if_splits)

lemma row_of_SomeD: "row_of key tbl k = Some r \<Longrightarrow> r \<in> set tbl \<and> key r = k"
  by (auto simp: row_of_def find_Some_iff)

lemma keyed_row_of: "keyed key tbl \<Longrightarrow> row_of key tbl k = Some r \<longleftrightarrow> r \<in> set tbl \<and> key r = k"
proof (induction tbl)
  case (Cons x tbl)
  then show ?case by (auto simp: row_of_def keyed_def)
qed (simp add: row_of_def)

lemma keyed_unique: "keyed key tbl \<Longrightarrow> r \<in> set tbl \<Longrightarrow> s \<in> set tbl \<Longrightarrow> key r = key s \<Longrightarrow> r = s"
  unfolding keyed_def by (metis distinct_map inj_onD)

lemma insert_new_prefix: "insert_new key tbl rs = (n, t) \<Longrightarrow> \<exists>new. t = tbl @ new \<and> set new \<subseteq> set rs \<and> length new = n"
proof (induction rs arbitrary: tbl n t)
  case (Cons r rs)
  show ?case
  proof (cases "has_key key tbl (key r)")
    case True
    with Cons show ?thesis by fastforce
  next
    case False
    obtain m u where u: "insert_new key (tbl @ [r]) rs = (m, u)" by fastforce
    from Cons.IH [OF u] obtain new where "u = (tbl @ [r]) @ new" "set new \<subseteq> set rs" "length new = m" by blast
    with u False Cons.prems show ?thesis by (auto intro: exI [of _ "r # new"])
  qed
qed simp

lemma insert_new_keyed: "insert_new key tbl rs = (n, t) \<Longrightarrow> keyed key tbl \<Longrightarrow> keyed key t"
proof (induction rs arbitrary: tbl n t)
  case (Cons r rs)
  show ?case
  proof (cases "has_key key tbl (key r)")
    case False
    obtain m u where u: "insert_new key (tbl @ [r]) rs = (m, u)" by fastforce
    have "keyed key (tbl @ [r])" using False Cons.prems(2) by (auto simp: keyed_def has_key_def)
    from Cons.IH [OF u this] u False Cons.prems(1) show ?thesis by simp
  qed (use Cons in auto)
qed simp

lemma insert_new_covers: "insert_new key tbl rs = (n, t) \<Longrightarrow> r \<in> set rs \<Longrightarrow> has_key key t (key r)"
proof (induction rs arbitrary: tbl n t)
  case (Cons x rs)
  obtain m u where u: "insert_new key (tbl @ [x]) rs = (m, u)" by fastforce
  obtain m' u' where u': "insert_new key tbl rs = (m', u')" by fastforce
  from insert_new_prefix [OF u] insert_new_prefix [OF u'] Cons.prems u u' Cons.IH [OF u] Cons.IH [OF u']
  show ?case by (cases "has_key key tbl (key x)") (auto simp: has_key_iff)
qed simp

lemma insert_new_again: "(\<And>r. r \<in> set rs \<Longrightarrow> has_key key tbl (key r)) \<Longrightarrow> insert_new key tbl rs = (0, tbl)"
  by (induction rs) auto

lemma insert_new_one:
  "insert_new key tbl [r] = (if has_key key tbl (key r) then (0, tbl) else (1, tbl @ [r]))"
  by simp

lemma set_update_where: "set (update_where p f tbl) = (\<lambda>r. if p r then f r else r) ` set tbl"
  by (simp add: update_where_def)

lemma in_update_where: "r \<in> set tbl \<Longrightarrow> (if p r then f r else r) \<in> set (update_where p f tbl)"
  by (simp add: update_where_def)

lemma keyed_update_where:
  "(\<And>r. key (f r) = key r) \<Longrightarrow> keyed key (update_where p f tbl) = keyed key tbl"
proof -
  assume "\<And>r. key (f r) = key r"
  then have "map key (update_where p f tbl) = map key tbl" by (simp add: update_where_def)
  then show ?thesis by (simp add: keyed_def)
qed

lemma has_key_update_where:
  "(\<And>r. key (f r) = key r) \<Longrightarrow> has_key key (update_where p f tbl) k = has_key key tbl k"
  by (auto simp: has_key_iff set_update_where)

section \<open>The insert-only writer\<close>

text \<open>
  \<open>_insert_immutable\<close>: insert what is new, read every presented row back by its key, and compare
  the columns that say something. It runs in a transaction, so a conflict undoes the inserts and the
  chunks the code works in do not show.
\<close>

definition insert_immutable ::
  "('r \<Rightarrow> 'k) \<Rightarrow> ('r \<Rightarrow> 'p) \<Rightarrow> 'r list \<Rightarrow> 'r list \<Rightarrow> (nat \<times> 'r list) option" where
  "insert_immutable key payload tbl rows =
     (case insert_new key tbl rows of
        (n, t) \<Rightarrow>
          if list_all (\<lambda>r. case row_of key t (key r) of
                             None \<Rightarrow> False | Some s \<Rightarrow> payload s = payload r) rows
          then Some (n, t) else None)"

lemma insert_immutable_SomeD:
  assumes "insert_immutable key payload tbl rows = Some (n, t)"
  shows "insert_new key tbl rows = (n, t)"
    and "r \<in> set rows \<Longrightarrow> \<exists>s \<in> set t. key s = key r \<and> payload s = payload r"
proof -
  from assms have ok: "list_all (\<lambda>r. case row_of key t (key r) of None \<Rightarrow> False | Some s \<Rightarrow> payload s = payload r) rows"
    and ins: "insert_new key tbl rows = (n, t)"
    by (auto simp: insert_immutable_def split: prod.splits if_splits)
  show "insert_new key tbl rows = (n, t)" by (rule ins)
  show "\<exists>s \<in> set t. key s = key r \<and> payload s = payload r" if "r \<in> set rows"
    using ok that by (cases "row_of key t (key r)") (force simp: list_all_iff dest: row_of_SomeD)+
qed

lemma insert_immutable_replay:
  assumes "insert_immutable key payload tbl rows = Some (n, t)"
  shows "insert_immutable key payload t rows = Some (0, t)"
proof -
  from assms have ins: "insert_new key tbl rows = (n, t)"
    and ok: "list_all (\<lambda>r. case row_of key t (key r) of None \<Rightarrow> False | Some s \<Rightarrow> payload s = payload r) rows"
    by (auto simp: insert_immutable_def split: prod.splits if_splits)
  have "insert_new key t rows = (0, t)"
    by (rule insert_new_again) (rule insert_new_covers [OF ins])
  with ok show ?thesis by (simp add: insert_immutable_def)
qed

lemma insert_immutable_conflict:
  assumes "keyed key tbl" and "s \<in> set tbl" and "r \<in> set rows" and "key s = key r"
    and "payload s \<noteq> payload r"
  shows "insert_immutable key payload tbl rows = None"
proof -
  obtain n t where ins: "insert_new key tbl rows = (n, t)" by fastforce
  from insert_new_prefix [OF ins] assms(2) have "s \<in> set t" by auto
  moreover have "keyed key t" by (rule insert_new_keyed [OF ins assms(1)])
  ultimately have "row_of key t (key r) = Some s" using assms(4) by (simp add: keyed_row_of)
  with ins assms(3,5) show ?thesis by (auto simp: insert_immutable_def list_all_iff intro!: bexI [of _ r])
qed

section \<open>Transactions\<close>

text \<open>A block that raises leaves the database as it was.\<close>

definition transaction :: "('s, 'e, 'a) eff \<Rightarrow> ('s, 'e, 'a) eff" where
  "transaction m s = (case m s of (Inl e, _) \<Rightarrow> (Inl e, s) | (Inr x, s') \<Rightarrow> (Inr x, s'))"

lemma transaction_Inl: "transaction m s = (Inl e, s') \<Longrightarrow> s' = s"
  by (auto simp: transaction_def split: prod.splits sum.splits)

lemma transaction_Inr: "transaction m s = (Inr x, s') \<longleftrightarrow> m s = (Inr x, s')"
  by (auto simp: transaction_def split: prod.splits sum.splits)

end
