(* ===== verification/Json.thy ===== *)
theory Json
  imports Gateway
begin

text \<open>
  The part of Python's \<open>json.dumps\<close> the commitment hash uses: sorted keys, compact separators,
  ASCII only. The decimal rendering of a float is a parameter. The theorem of this theory is that
  the rendering is unambiguous: a document is determined, up to the order of its keys, by its text.
\<close>

section \<open>Documents\<close>

datatype json =
    JNull | JBool bool | JInt int | JNum real | JStr string | JList "json list"
  | JObj "(string \<times> json) list"

text \<open>\<open>sort_keys\<close>, at every level.\<close>

fun sort_keys :: "json \<Rightarrow> json" where
  "sort_keys (JList js) = JList (map sort_keys js)"
| "sort_keys (JObj kvs) = JObj (sort_key fst (map (\<lambda>(k, v). (k, sort_keys v)) kvs))"
| "sort_keys j = j"

fun commas :: "string list \<Rightarrow> string" where
  "commas [] = []"
| "commas [x] = x"
| "commas (x # y # xs) = x @ CHR '','' # commas (y # xs)"

definition hex_digit :: "nat \<Rightarrow> char" where
  "hex_digit n = (if n < 10 then char_of (48 + n) else char_of (87 + n))"

text \<open>\<open>ensure_ascii\<close>: quotes, backslashes and everything outside the printable range are escaped.\<close>

definition esc :: "char \<Rightarrow> string" where
  "esc c =
     (if c = CHR 0x22 then [CHR 0x5C, CHR 0x22]
      else if c = CHR 0x5C then [CHR 0x5C, CHR 0x5C]
      else if c = CHR 0x0A then [CHR 0x5C, CHR ''n'']
      else if c = CHR 0x0D then [CHR 0x5C, CHR ''r'']
      else if c = CHR 0x09 then [CHR 0x5C, CHR ''t'']
      else if c = CHR 0x0C then [CHR 0x5C, CHR ''f'']
      else if c = CHR 0x08 then [CHR 0x5C, CHR ''b'']
      else let n = of_char c :: nat
           in if 32 \<le> n \<and> n \<le> 126 then [c]
              else [CHR 0x5C, CHR ''u'', CHR ''0'', CHR ''0'', hex_digit (n div 16), hex_digit (n mod 16)])"

definition quote :: "string \<Rightarrow> string" where
  "quote s = CHR 0x22 # concat (map esc s) @ [CHR 0x22]"

fun render :: "(real \<Rightarrow> string) \<Rightarrow> json \<Rightarrow> string" where
  "render fr JNull = ''null''"
| "render fr (JBool b) = (if b then ''true'' else ''false'')"
| "render fr (JInt i) = str_int i"
| "render fr (JNum x) = fr x"
| "render fr (JStr s) = quote s"
| "render fr (JList js) = CHR ''['' # commas (map (render fr) js) @ '']''"
| "render fr (JObj kvs) =
     CHR ''{'' # commas (map (\<lambda>(k, v). quote k @ CHR '':'' # render fr v) kvs) @ ''}''"

definition dumps :: "(real \<Rightarrow> string) \<Rightarrow> json \<Rightarrow> string" where
  "dumps fr j = render fr (sort_keys j)"

section \<open>Strings\<close>

lemma hex_digit_inj: "m < 16 \<Longrightarrow> n < 16 \<Longrightarrow> hex_digit m = hex_digit n \<Longrightarrow> m = n"
proof -
  assume a: "m < 16" "n < 16" "hex_digit m = hex_digit n"
  have h: "of_char (hex_digit k) = (if k < 10 then 48 + k else 87 + k)" if "k < 16" for k :: nat
    using that by (auto simp: hex_digit_def)
  from a(3) have "(of_char (hex_digit m) :: nat) = of_char (hex_digit n)" by simp
  with a(1,2) show "m = n" by (auto simp: h split: if_splits)
qed

definition plain :: "char \<Rightarrow> bool" where
  "plain c \<longleftrightarrow> esc c = [c]"

lemma plain_not: "plain c \<Longrightarrow> c \<noteq> CHR 0x22 \<and> c \<noteq> CHR 0x5C"
  by (auto simp: plain_def esc_def)

text \<open>The escape of a character is never empty and no escape is a proper prefix of another.\<close>

definition short_escape :: "char \<Rightarrow> char option" where
  "short_escape c =
     (if c = CHR 0x22 then Some (CHR 0x22) else if c = CHR 0x5C then Some (CHR 0x5C)
      else if c = CHR 0x0A then Some (CHR ''n'') else if c = CHR 0x0D then Some (CHR ''r'')
      else if c = CHR 0x09 then Some (CHR ''t'') else if c = CHR 0x0C then Some (CHR ''f'')
      else if c = CHR 0x08 then Some (CHR ''b'') else None)"

lemma short_escape_inj: "short_escape c = Some e \<Longrightarrow> short_escape d = Some e \<Longrightarrow> c = d"
  by (auto simp: short_escape_def split: if_splits)

lemma short_escape_not_u: "short_escape c \<noteq> Some (CHR ''u'')"
  by (simp add: short_escape_def)

lemma esc_cases:
  obtains (plain) "esc c = [c]" "c \<noteq> CHR 0x22" "c \<noteq> CHR 0x5C"
  | (short) e where "esc c = [CHR 0x5C, e]" "short_escape c = Some e"
  | (long) "esc c = [CHR 0x5C, CHR ''u'', CHR ''0'', CHR ''0'', hex_digit (of_char c div 16), hex_digit (of_char c mod 16)]"
proof (cases "short_escape c")
  case (Some e)
  then show thesis
    by (intro short [of e]) (auto simp: short_escape_def esc_def split: if_splits)
next
  case None
  then have "c \<noteq> CHR 0x22" "c \<noteq> CHR 0x5C"
    and e: "esc c = (let n = of_char c :: nat in if 32 \<le> n \<and> n \<le> 126 then [c]
              else [CHR 0x5C, CHR ''u'', CHR ''0'', CHR ''0'', hex_digit (n div 16), hex_digit (n mod 16)])"
    by (auto simp: short_escape_def esc_def split: if_splits)
  then show thesis
    by (cases "32 \<le> (of_char c :: nat) \<and> (of_char c :: nat) \<le> 126") (auto intro: plain long simp: Let_def)
qed

lemma of_char_less: "(of_char c :: nat) < 256"
  by (metis of_char_of nat_of_char_less_256)

lemma esc_prefix_free: "esc c @ x = esc d @ y \<Longrightarrow> c = d \<and> x = y"
proof -
  assume eq: "esc c @ x = esc d @ y"
  show "c = d \<and> x = y"
  proof (cases c rule: esc_cases)
    case plain
    then show ?thesis using eq by (cases d rule: esc_cases) auto
  next
    case (short e)
    then show ?thesis using eq short_escape_inj short_escape_not_u by (cases d rule: esc_cases) auto
  next
    case long
    show ?thesis
    proof (cases d rule: esc_cases)
      case plain
      then show ?thesis using eq long by auto
    next
      case (short e)
      then show ?thesis using eq long short_escape_not_u by auto
    next
      case l2: long
      have s: "(of_char c :: nat) div 16 < 16" "(of_char d :: nat) div 16 < 16"
        using less_mult_imp_div_less [of _ 16 16] of_char_less by simp_all
      from eq long l2 have h: "hex_digit (of_char c div 16) = hex_digit (of_char d div 16)"
        "hex_digit (of_char c mod 16) = hex_digit (of_char d mod 16)" and "x = y" by auto
      from hex_digit_inj [OF s h(1)] hex_digit_inj [OF _ _ h(2)]
      have "(of_char c :: nat) = of_char d" by (metis div_mult_mod_eq mod_less_divisor zero_less_numeral)
      with \<open>x = y\<close> show ?thesis by simp
    qed
  qed
qed

lemma esc_not_quote: "esc c @ x \<noteq> CHR 0x22 # y"
  by (cases c rule: esc_cases) auto

lemma quote_prefix_free: "quote s @ r = quote t @ u \<Longrightarrow> s = t \<and> r = u"
proof -
  have "concat (map esc s) @ CHR 0x22 # r = concat (map esc t) @ CHR 0x22 # u \<Longrightarrow> s = t \<and> r = u"
  proof (induction s arbitrary: t)
    case Nil
    then show ?case using esc_not_quote [symmetric] by (cases t) auto
  next
    case (Cons c s)
    show ?case
    proof (cases t)
      case Nil
      with Cons.prems esc_not_quote show ?thesis by auto
    next
      case (Cons d t')
      with Cons.prems have "esc c @ (concat (map esc s) @ CHR 0x22 # r) = esc d @ (concat (map esc t') @ CHR 0x22 # u)"
        by simp
      from esc_prefix_free [OF this] Cons.IH Cons show ?thesis by auto
    qed
  qed
  then show "quote s @ r = quote t @ u \<Longrightarrow> s = t \<and> r = u" by (simp add: quote_def)
qed

section \<open>Numbers\<close>

definition numchar :: "char \<Rightarrow> bool" where
  "numchar c \<longleftrightarrow> digit_char c \<or> c \<in> set ''+-.e''"

text \<open>
  What is used of \<open>float.__repr__\<close> on finite floats: it distinguishes the floats at hand, is made of
  digits, signs, a point and an exponent mark, and always has a point or an exponent, so that no
  integer looks like it.
\<close>

definition float_repr_ok :: "(real \<Rightarrow> string) \<Rightarrow> real set \<Rightarrow> bool" where
  "float_repr_ok fr X \<longleftrightarrow> inj_on fr X \<and>
     (\<forall>x \<in> X. fr x \<noteq> [] \<and> list_all numchar (fr x) \<and> (CHR ''.'' \<in> set (fr x) \<or> CHR ''e'' \<in> set (fr x)))"

lemma float_repr_ok_subset: "float_repr_ok fr X \<Longrightarrow> Y \<subseteq> X \<Longrightarrow> float_repr_ok fr Y"
  unfolding float_repr_ok_def by (auto intro: inj_on_subset)

lemma str_int_chars: "c \<in> set (str_int i) \<Longrightarrow> digit_char c \<or> c = CHR ''-''"
  by (auto simp: str_int_def dest: dec_digits_chars split: if_splits)

lemma str_int_ne: "str_int i \<noteq> []"
proof -
  have "dec_digits n \<noteq> []" for n by (simp add: dec_digits.simps [of n])
  then show ?thesis by (simp add: str_int_def)
qed

lemma str_int_inject [simp]: "str_int i = str_int j \<longleftrightarrow> i = j"
proof -
  have "CHR ''-'' # x \<noteq> dec_digits n" for x n
    using dash_not_digit [of n] by (metis list.set_intros(1))
  then show ?thesis by (auto simp: str_int_def split: if_splits) (metis)+
qed

lemma str_int_numchar: "list_all numchar (str_int i)"
  using str_int_chars [of _ i] by (auto simp: list_all_iff numchar_def)

lemma str_int_not_float: "float_repr_ok fr X \<Longrightarrow> x \<in> X \<Longrightarrow> fr x \<noteq> str_int i"
  using str_int_chars [of "CHR ''.''" i] str_int_chars [of "CHR ''e''" i] unfolding float_repr_ok_def
  by (auto simp: digit_char_def)

text \<open>What may follow a document inside another one.\<close>

definition delim :: "string \<Rightarrow> bool" where
  "delim r \<longleftrightarrow> r = [] \<or> hd r \<in> set '',]}''"

lemma delim_simps [simp]: "delim []" "delim (CHR '','' # r)" "delim (CHR '']'' # r)" "delim (CHR ''}'' # r)"
  by (simp_all add: delim_def)

lemma delim_not_num: "delim (c # r) \<Longrightarrow> \<not> numchar c"
  by (auto simp: delim_def numchar_def digit_char_def)

lemma token_split:
  assumes "a @ r = b @ s" and "list_all numchar a" and "list_all numchar b" and "delim r" and "delim s"
  shows "a = b \<and> r = s"
proof -
  have "takeWhile numchar (x @ y) = x \<and> dropWhile numchar (x @ y) = y"
    if "list_all numchar x" "delim y" for x y
    using that delim_not_num by (cases y) (auto simp: list_all_iff takeWhile_append dropWhile_append)
  from this [OF assms(2,4)] this [OF assms(3,5)] assms(1) show ?thesis by metis
qed

section \<open>Unambiguity\<close>

fun floats :: "json \<Rightarrow> real set" where
  "floats (JNum x) = {x}"
| "floats (JList js) = (\<Union>j \<in> set js. floats j)"
| "floats (JObj kvs) = (\<Union>kv \<in> set kvs. floats (snd kv))"
| "floats _ = {}"

lemma floats_sort_keys [simp]: "floats (sort_keys j) = floats j"
proof (induction j rule: sort_keys.induct)
  case (2 kvs)
  then show ?case by (auto simp: case_prod_beta)
qed auto

definition tag :: "char \<Rightarrow> nat" where
  "tag c = (if c = CHR ''n'' then 0 else if c = CHR ''t'' then 1 else if c = CHR ''f'' then 2
            else if c = CHR 0x22 then 3 else if c = CHR ''['' then 4 else if c = CHR ''{'' then 5 else 6)"

fun jtag :: "json \<Rightarrow> nat" where
  "jtag JNull = 0"
| "jtag (JBool b) = (if b then 1 else 2)"
| "jtag (JStr _) = 3"
| "jtag (JList _) = 4"
| "jtag (JObj _) = 5"
| "jtag _ = 6"

lemma tag_numchar: "numchar c \<Longrightarrow> tag c = 6"
  by (auto simp: tag_def numchar_def digit_char_def)

lemma render_head:
  assumes "float_repr_ok fr (floats j)"
  shows "\<exists>c cs. render fr j = c # cs \<and> tag c = jtag j \<and> \<not> delim (c # cs)" (is ?goal)
proof -
  have num: ?goal if ne: "render fr j = w" "w \<noteq> []" "list_all numchar w" "jtag j = 6" for w
  proof -
    from ne(2) obtain c cs where w: "w = c # cs" by (cases w) auto
    with ne have "numchar c" by auto
    with ne w show ?goal by (auto simp: tag_numchar dest: delim_not_num)
  qed
  show ?goal
  proof (cases j)
    case (JInt i)
    then show ?thesis by (intro num [of "str_int i"]) (auto simp: str_int_ne str_int_numchar)
  next
    case (JNum x)
    with assms show ?thesis by (intro num [of "fr x"]) (auto simp: float_repr_ok_def)
  qed (auto simp: tag_def delim_def quote_def)
qed

definition unambiguous :: "(real \<Rightarrow> string) \<Rightarrow> json \<Rightarrow> bool" where
  "unambiguous fr j \<longleftrightarrow>
     (\<forall>k r s. render fr j @ r = render fr k @ s \<longrightarrow> delim r \<longrightarrow> delim s \<longrightarrow>
        float_repr_ok fr (floats j \<union> floats k) \<longrightarrow> j = k \<and> r = s)"

lemma unambiguousD:
  assumes "unambiguous fr j" and "render fr j @ r = render fr k @ s" and "delim r" and "delim s"
    and "float_repr_ok fr X" and "floats j \<subseteq> X" and "floats k \<subseteq> X"
  shows "j = k \<and> r = s"
  using assms float_repr_ok_subset [OF assms(5), of "floats j \<union> floats k"] unfolding unambiguous_def by blast

lemma same_tag:
  assumes "render fr j @ r = render fr k @ s" and "float_repr_ok fr (floats j \<union> floats k)"
  shows "jtag j = jtag k"
proof -
  from assms(2) have "float_repr_ok fr (floats j)" "float_repr_ok fr (floats k)"
    by (auto intro: float_repr_ok_subset)
  then obtain c cs d ds where "render fr j = c # cs" "tag c = jtag j" "render fr k = d # ds" "tag d = jtag k"
    by (metis render_head)
  with assms(1) show ?thesis by simp
qed

text \<open>
  Sequences: items separated by commas and closed by a bracket. Items are unambiguous before a
  delimiter and never start with one.
\<close>

lemma commas_unambiguous:
  assumes "\<forall>x \<in> set xs. \<forall>y r s. y \<in> set ys \<longrightarrow> f x @ r = f y @ s \<longrightarrow> delim r \<longrightarrow> delim s \<longrightarrow> x = y \<and> r = s"
    and "\<forall>x \<in> set xs \<union> set ys. \<exists>c cs. f x = c # cs \<and> \<not> delim (c # cs)"
    and "commas (map f xs) @ e # r = commas (map f ys) @ e # s" and e: "delim [e]" "e \<noteq> CHR '',''"
  shows "xs = ys \<and> r = s"
  using assms(1-3)
proof (induction xs arbitrary: ys)
  case Nil
  show ?case
  proof (cases ys)
    case (Cons y ys')
    from Nil.prems(2) Cons obtain c cs where f: "f y = c # cs" "\<not> delim (c # cs)" by auto
    have "hd (commas (map f ys) @ e # s) = c"
      using f Cons by (cases ys') auto
    with Nil.prems(3) have "c = e" by (metis append_Nil commas.simps(1) list.sel(1) list.simps(8))
    with f(2) e show ?thesis by (simp add: delim_def)
  qed (use Nil in simp)
next
  case (Cons x xs)
  from Cons.prems(2) obtain c cs where fx: "f x = c # cs" "\<not> delim (c # cs)" by auto
  show ?case
  proof (cases ys)
    case Nil
    have "hd (commas (map f (x # xs)) @ e # r) = c" using fx by (cases xs) auto
    with Cons.prems(3) Nil have "c = e" by (metis append_Nil commas.simps(1) list.sel(1) list.simps(8))
    with fx(2) e show ?thesis by (auto simp: delim_def)
  next
    case ys: (Cons y ys')
    define r1 where "r1 = (if xs = [] then e # r else CHR '','' # commas (map f xs) @ e # r)"
    define s1 where "s1 = (if ys' = [] then e # s else CHR '','' # commas (map f ys') @ e # s)"
    have "commas (map f (x # xs)) @ e # r = f x @ r1" by (cases xs) (auto simp: r1_def)
    moreover have "commas (map f ys) @ e # s = f y @ s1" by (cases ys') (auto simp: s1_def ys)
    moreover have "delim r1" "delim s1" using e(1) by (auto simp: r1_def s1_def delim_def)
    ultimately have xy: "x = y" and tl: "r1 = s1" using Cons.prems(1,3) ys by auto
    show ?thesis
    proof (cases "xs = [] \<or> ys' = []")
      case True
      have "(xs = []) = (ys' = [])" using tl e(2) by (cases xs; cases ys'; simp add: r1_def s1_def)
      with True have "xs = [] \<and> ys' = []" by blast
      with tl xy ys show ?thesis by (simp add: r1_def s1_def)
    next
      case False
      with tl have "commas (map f xs) @ e # r = commas (map f ys') @ e # s" by (simp add: r1_def s1_def)
      moreover have "\<forall>x \<in> set xs. \<forall>y r s. y \<in> set ys' \<longrightarrow> f x @ r = f y @ s \<longrightarrow> delim r \<longrightarrow> delim s \<longrightarrow> x = y \<and> r = s"
        using Cons.prems(1) unfolding ys by (metis list.set_intros(2))
      moreover have "\<forall>x \<in> set xs \<union> set ys'. \<exists>c cs. f x = c # cs \<and> \<not> delim (c # cs)"
        using Cons.prems(2) unfolding ys by (metis Un_iff list.set_intros(2))
      ultimately have "xs = ys' \<and> r = s" by (intro Cons.IH)
      with xy ys show ?thesis by simp
    qed
  qed
qed

lemma render_unambiguous: "unambiguous fr j"
proof (induction j)
  case (JList js)
  show ?case
    unfolding unambiguous_def
  proof (intro allI impI)
    fix k r s
    assume eq: "render fr (JList js) @ r = render fr k @ s" and d: "delim r" "delim s"
      and fl: "float_repr_ok fr (floats (JList js) \<union> floats k)"
    from same_tag [OF eq fl] obtain ks where k: "k = JList ks" by (cases k) (auto split: if_splits)
    have "js = ks \<and> r = s"
    proof (rule commas_unambiguous [where f = "render fr" and e = "CHR '']''"])
      show "\<forall>x \<in> set js. \<forall>y r s. y \<in> set ks \<longrightarrow> render fr x @ r = render fr y @ s \<longrightarrow> delim r \<longrightarrow> delim s \<longrightarrow> x = y \<and> r = s"
        using JList unambiguousD [OF _ _ _ _ fl] k by fastforce
      show "\<forall>x \<in> set js \<union> set ks. \<exists>c cs. render fr x = c # cs \<and> \<not> delim (c # cs)"
      proof
        fix x assume "x \<in> set js \<union> set ks"
        with k have "floats x \<subseteq> floats (JList js) \<union> floats k" by auto
        from render_head [OF float_repr_ok_subset [OF fl this]]
        show "\<exists>c cs. render fr x = c # cs \<and> \<not> delim (c # cs)" by metis
      qed
      show "commas (map (render fr) js) @ CHR '']'' # r = commas (map (render fr) ks) @ CHR '']'' # s"
        using eq k by simp
    qed auto
    with k show "JList js = k \<and> r = s" by simp
  qed
next
  case (JObj kvs)
  let ?f = "\<lambda>(k, v). quote k @ CHR '':'' # render fr v"
  show ?case
    unfolding unambiguous_def
  proof (intro allI impI)
    fix k r s
    assume eq: "render fr (JObj kvs) @ r = render fr k @ s" and d: "delim r" "delim s"
      and fl: "float_repr_ok fr (floats (JObj kvs) \<union> floats k)"
    from same_tag [OF eq fl] obtain lvs where k: "k = JObj lvs" by (cases k) (auto split: if_splits)
    have "kvs = lvs \<and> r = s"
    proof (rule commas_unambiguous [where f = ?f and e = "CHR ''}''"])
      show "\<forall>x \<in> set kvs. \<forall>y r s. y \<in> set lvs \<longrightarrow> ?f x @ r = ?f y @ s \<longrightarrow> delim r \<longrightarrow> delim s \<longrightarrow> x = y \<and> r = s"
      proof (intro ballI allI impI)
        fix x y r s
        assume x: "x \<in> set kvs" and y: "y \<in> set lvs" and e: "?f x @ r = ?f y @ s"
          and dl: "delim r" "delim s"
        obtain a v b u where xy: "x = (a, v)" "y = (b, u)" by (metis surj_pair)
        from e xy have q: "quote a @ (CHR '':'' # render fr v @ r) = quote b @ (CHR '':'' # render fr u @ s)"
          by simp
        from quote_prefix_free [OF q] have ab: "a = b" and vu: "render fr v @ r = render fr u @ s" by auto
        have "unambiguous fr v" using JObj [OF x, of v] xy(1) by simp
        moreover have "floats v \<subseteq> floats (JObj kvs) \<union> floats k" "floats u \<subseteq> floats (JObj kvs) \<union> floats k"
          using x y xy k by force+
        ultimately show "x = y \<and> r = s" using unambiguousD [OF _ vu dl fl] ab xy by simp
      qed
    qed (use eq k in \<open>auto simp: quote_def delim_def\<close>)
    with k show "JObj kvs = k \<and> r = s" by simp
  qed
next
  case (JInt i)
  show ?case
    unfolding unambiguous_def
  proof (intro allI impI)
    fix k r s
    assume eq: "render fr (JInt i) @ r = render fr k @ s" and d: "delim r" "delim s"
      and fl: "float_repr_ok fr (floats (JInt i) \<union> floats k)"
    from same_tag [OF eq fl] consider j where "k = JInt j" | x where "k = JNum x"
      by (cases k) (auto split: if_splits)
    then show "JInt i = k \<and> r = s"
    proof cases
      case (1 j)
      with token_split [OF eq [unfolded 1] _ _ d] show ?thesis by (simp add: str_int_numchar)
    next
      case (2 x)
      with fl have "list_all numchar (fr x)" by (auto simp: float_repr_ok_def)
      with token_split [OF eq [unfolded 2] _ _ d] have "fr x = str_int i" by (simp add: str_int_numchar)
      moreover from 2 have "x \<in> floats (JInt i) \<union> floats k" by simp
      ultimately show ?thesis using str_int_not_float [OF fl, of x i] by simp
    qed
  qed
next
  case (JNum y)
  show ?case
    unfolding unambiguous_def
  proof (intro allI impI)
    fix k r s
    assume eq: "render fr (JNum y) @ r = render fr k @ s" and d: "delim r" "delim s"
      and fl: "float_repr_ok fr (floats (JNum y) \<union> floats k)"
    from fl have n: "list_all numchar (fr y)" by (auto simp: float_repr_ok_def)
    from same_tag [OF eq fl] consider j where "k = JInt j" | x where "k = JNum x"
      by (cases k) (auto split: if_splits)
    then show "JNum y = k \<and> r = s"
    proof cases
      case (1 j)
      with token_split [OF eq [unfolded 1] _ _ d] n have "fr y = str_int j" by (simp add: str_int_numchar)
      moreover have "y \<in> floats (JNum y) \<union> floats k" by simp
      ultimately show ?thesis using str_int_not_float [OF fl, of y j] by simp
    next
      case (2 x)
      with fl have "list_all numchar (fr x)" by (auto simp: float_repr_ok_def)
      with token_split [OF eq [unfolded 2 render.simps] n _ d] have "fr y = fr x \<and> r = s" by simp
      moreover have "inj_on fr (floats (JNum y) \<union> floats k)" using fl by (simp add: float_repr_ok_def)
      ultimately have "y = x" by (elim conjE inj_onD) (auto simp: 2)
      with \<open>fr y = fr x \<and> r = s\<close> 2 show ?thesis by simp
    qed
  qed
next
  case (JStr t)
  show ?case
    unfolding unambiguous_def
  proof (intro allI impI)
    fix k r s
    assume eq: "render fr (JStr t) @ r = render fr k @ s"
      and fl: "float_repr_ok fr (floats (JStr t) \<union> floats k)"
    from same_tag [OF eq fl] obtain u where k: "k = JStr u" by (cases k) (auto split: if_splits)
    with eq show "JStr t = k \<and> r = s" using quote_prefix_free [of t r u s] by simp
  qed
next
  case (JBool b)
  show ?case
    unfolding unambiguous_def
  proof (intro allI impI)
    fix k r s
    assume eq: "render fr (JBool b) @ r = render fr k @ s"
      and fl: "float_repr_ok fr (floats (JBool b) \<union> floats k)"
    from same_tag [OF eq fl] have "k = JBool b" by (cases k) (auto split: if_splits)
    with eq show "JBool b = k \<and> r = s" by simp
  qed
next
  case JNull
  show ?case
    unfolding unambiguous_def
  proof (intro allI impI)
    fix k r s
    assume eq: "render fr JNull @ r = render fr k @ s"
      and fl: "float_repr_ok fr (floats JNull \<union> floats k)"
    from same_tag [OF eq fl] have "k = JNull" by (cases k) (auto split: if_splits)
    with eq show "JNull = k \<and> r = s" by simp
  qed
qed

lemma dumps_inject:
  assumes "dumps fr j = dumps fr k" and "float_repr_ok fr (floats j \<union> floats k)"
  shows "sort_keys j = sort_keys k"
  using unambiguousD [OF render_unambiguous, of fr "sort_keys j" "[]" "sort_keys k" "[]"
      "floats j \<union> floats k"] assms
  by (simp add: dumps_def)

text \<open>With the same keys in the same order, sorting loses nothing.\<close>

lemma sort_key_fst_inject:
  assumes "sort_key fst xs = sort_key fst ys" and "map fst xs = map fst ys" and "distinct (map fst xs)"
  shows "xs = ys"
proof -
  from assms(1) have set_eq: "set xs = set ys" by (metis set_sort)
  have len: "length xs = length ys" using assms(2) by (metis length_map)
  show ?thesis
  proof (rule nth_equalityI [OF len])
    fix i assume i: "i < length xs"
    then have "xs ! i \<in> set ys" using set_eq by (metis nth_mem)
    then obtain j where j: "j < length ys" "ys ! j = xs ! i" by (metis in_set_conv_nth)
    have "map fst xs ! j = map fst ys ! j" by (simp add: assms(2))
    with j i len have "map fst xs ! j = map fst xs ! i" by simp
    with assms(3) i j(1) len have "j = i" by (metis distinct_conv_nth length_map)
    with j show "xs ! i = ys ! i" by simp
  qed
qed

end
