(* ===== verification/Commitment.thy ===== *)
theory Commitment
  imports Json Models "HOL-Library.Multiset"
begin

text \<open>
  The decision commitment of \<open>contracts/commitment.py\<close>: the canonical document of a run's identity,
  its committee decisions and its final portfolio, its bytes and its hash, and the checks that
  recompute it. The hash function, the rendering of floats and of instants are parameters.
\<close>

section \<open>Values and their canonical form\<close>

datatype pyval =
    PNone | PBool bool | PInt int | PFloat flt | PStr string | PUuid uuid
  | PTime instant | PNaiveTime | PEnum pyval | PList "pyval list" | PDict "(string \<times> pyval) list"
  | POther

datatype canon_error = CanonValueError | CanonTypeError

fun mapr :: "('a \<Rightarrow> 'e + 'b) \<Rightarrow> 'a list \<Rightarrow> 'e + 'b list" where
  "mapr f [] = Inr []"
| "mapr f (x # xs) = bindr (f x) (\<lambda>y. bindr (mapr f xs) (\<lambda>ys. Inr (y # ys)))"

lemma mapr_cong [fundef_cong]:
  "xs = ys \<Longrightarrow> (\<And>x. x \<in> set ys \<Longrightarrow> f x = g x) \<Longrightarrow> mapr f xs = mapr g ys"
  by (induction ys arbitrary: xs) auto

lemma mapr_total: "(\<And>x. x \<in> set xs \<Longrightarrow> f x = Inr (g x)) \<Longrightarrow> mapr f xs = Inr (map g xs)"
  by (induction xs) auto

fun canon :: "(instant \<Rightarrow> string) \<Rightarrow> pyval \<Rightarrow> canon_error + json" where
  "canon fmt (PEnum v) = canon fmt v"
| "canon fmt (PTime t) = Inr (JStr (fmt t))"
| "canon fmt PNaiveTime = Inl CanonValueError"
| "canon fmt (PUuid u) = Inr (JStr u)"
| "canon fmt (PBool b) = Inr (JBool b)"
| "canon fmt PNone = Inr JNull"
| "canon fmt (PInt i) = Inr (JInt i)"
| "canon fmt (PStr s) = Inr (JStr s)"
| "canon fmt (PFloat x) = (if isfinite x then Inr (JNum (fl_val x)) else Inl CanonValueError)"
| "canon fmt (PDict kvs) =
     bindr (mapr (\<lambda>kv. bindr (canon fmt (snd kv)) (\<lambda>j. Inr (fst kv, j))) kvs) (\<lambda>ps. Inr (JObj ps))"
| "canon fmt (PList vs) = bindr (mapr (canon fmt) vs) (\<lambda>js. Inr (JList js))"
| "canon fmt POther = Inl CanonTypeError"

section \<open>The records as values\<close>

fun run_mode_value :: "run_mode \<Rightarrow> string" where
  "run_mode_value LIVE = ''live''"
| "run_mode_value BACKTEST = ''backtest''"
| "run_mode_value ABLATION = ''ablation''"

fun bear_severity_value :: "bear_severity \<Rightarrow> string" where
  "bear_severity_value LOW = ''low''"
| "bear_severity_value MED = ''med''"
| "bear_severity_value HIGH = ''high''"

fun cio_action_value :: "cio_action \<Rightarrow> string" where
  "cio_action_value APPROVE = ''approve''"
| "cio_action_value VETO = ''veto''"
| "cio_action_value FLAG_FOR_REVIEW = ''flag_for_review''"

fun sizing_mode_value :: "sizing_mode \<Rightarrow> string" where
  "sizing_mode_value RANK = ''rank''"
| "sizing_mode_value CALIBRATED = ''calibrated''"

definition dump_opt :: "('a \<Rightarrow> pyval) \<Rightarrow> 'a option \<Rightarrow> pyval" where
  "dump_opt f x = (case x of None \<Rightarrow> PNone | Some y \<Rightarrow> f y)"

definition dump_enum :: "('a \<Rightarrow> string) \<Rightarrow> 'a \<Rightarrow> pyval" where
  "dump_enum val x = PEnum (PStr (val x))"

definition dump_num :: "real \<Rightarrow> pyval" where
  "dump_num x = PFloat (Fin x)"

definition dump_weight :: "agent_weight \<Rightarrow> pyval" where
  "dump_weight w = PDict [(''agent'', dump_enum agent_value (aw_agent w)), (''weight'', dump_num (aw_weight w))]"

definition dump_decision :: "committee_decision \<Rightarrow> pyval" where
  "dump_decision d = PDict
     [(''run_id'', PUuid (dec_run_id d)), (''security_id'', PInt (dec_security_id d)),
      (''entity_token'', PStr (dec_entity_token d)), (''as_of'', PTime (dec_as_of d)),
      (''horizon_days'', PEnum (PInt (horizon_days (dec_horizon_days d)))),
      (''pooled_p'', dump_num (dec_pooled_p d)), (''dispersion'', dump_num (dec_dispersion d)),
      (''agent_weights'', PList (map dump_weight (dec_agent_weights d))),
      (''bear_severity'', dump_opt (dump_enum bear_severity_value) (dec_bear_severity d)),
      (''target_weight'', dump_num (dec_target_weight d))]"

definition dump_decision_record :: "committee_decision_record \<Rightarrow> pyval" where
  "dump_decision_record r = PDict
     [(''decision'', dump_decision (cdr_decision r)),
      (''pooled_logit'', dump_opt dump_num (cdr_pooled_logit r)),
      (''sizing_mode'', dump_opt (dump_enum sizing_mode_value) (cdr_sizing_mode r)),
      (''cio_action'', dump_opt (dump_enum cio_action_value) (cdr_cio_action r)),
      (''rationale'', dump_opt PStr (cdr_rationale r))]"

definition dump_position :: "proposed_position \<Rightarrow> pyval" where
  "dump_position p = PDict
     [(''security_id'', PInt (pp_security_id p)), (''entity_token'', PStr (pp_entity_token p)),
      (''sector'', PStr (pp_sector p)), (''pooled_p'', dump_num (pp_pooled_p p)),
      (''target_weight'', dump_num (pp_target_weight p))]"

definition dump_book :: "proposed_book \<Rightarrow> pyval" where
  "dump_book b = PDict
     [(''run_id'', PUuid (pb_run_id b)), (''as_of'', PTime (pb_as_of b)),
      (''positions'', PList (map dump_position (pb_positions b)))]"

definition dump_cio_name :: "cio_name_decision \<Rightarrow> pyval" where
  "dump_cio_name d = PDict
     [(''entity_token'', PStr (cn_entity_token d)), (''action'', dump_enum cio_action_value (cn_action d)),
      (''reason'', PStr (cn_reason d))]"

definition dump_cio :: "cio_decision \<Rightarrow> pyval" where
  "dump_cio d = PDict
     [(''decisions'', PList (map dump_cio_name (cd_decisions d))), (''rationale'', PStr (cd_rationale d)),
      (''run_id'', PUuid (cd_run_id d)), (''agent'', dump_enum agent_value CIO),
      (''as_of'', PTime (cd_as_of d)), (''prompt_version'', PStr (cd_prompt_version d)),
      (''model_served'', PStr (cd_model_served d))]"

definition dump_snapshot :: "portfolio_snapshot \<Rightarrow> pyval" where
  "dump_snapshot s = PDict
     [(''run_id'', PUuid (ps_run_id s)), (''as_of'', PTime (ps_as_of s)), (''book'', dump_book (ps_book s)),
      (''cash_weight'', dump_num (ps_cash_weight s)), (''cio'', dump_opt dump_cio (ps_cio s))]"

section \<open>The commitment\<close>

definition COMMITMENT_VERSION :: string where
  "COMMITMENT_VERSION = ''commitment_v1''"

definition decision_key :: "committee_decision_record \<Rightarrow> int \<times> int" where
  "decision_key r = (dec_security_id (cdr_decision r), horizon_days (dec_horizon_days (cdr_decision r)))"

definition commitment_payload ::
  "run_record \<Rightarrow> committee_decision_record list \<Rightarrow> portfolio_snapshot \<Rightarrow> canon_error + pyval" where
  "commitment_payload run decisions snapshot =
     (if ps_run_id snapshot \<noteq> rr_run_id run then Inl CanonValueError
      else let ordered = sort_key decision_key decisions
           in if list_ex (\<lambda>d. dec_run_id (cdr_decision d) \<noteq> rr_run_id run) ordered
              then Inl CanonValueError
              else Inr (PDict
                [(''v'', PStr COMMITMENT_VERSION),
                 (''run'', PDict
                    [(''run_id'', PUuid (rr_run_id run)), (''mode'', dump_enum run_mode_value (rr_mode run)),
                     (''as_of'', PTime (rr_as_of run)), (''config_hash'', PStr (rr_config_hash run))]),
                 (''decisions'', PList (map dump_decision_record ordered)),
                 (''snapshot'', dump_snapshot snapshot)]))"

text \<open>The standard library as the commitment uses it: hashing, \<open>repr\<close> of floats, ISO instants.\<close>

record stdlib =
  sl_sha256 :: "string \<Rightarrow> string"
  sl_float_repr :: "real \<Rightarrow> string"
  sl_isoformat :: "instant \<Rightarrow> string"

definition canonical_bytes :: "stdlib \<Rightarrow> pyval \<Rightarrow> canon_error + string" where
  "canonical_bytes sl p = bindr (canon (sl_isoformat sl) p) (\<lambda>j. Inr (dumps (sl_float_repr sl) j))"

definition commitment_bytes ::
  "stdlib \<Rightarrow> run_record \<Rightarrow> committee_decision_record list \<Rightarrow> portfolio_snapshot \<Rightarrow> canon_error + string" where
  "commitment_bytes sl run decisions snapshot =
     bindr (commitment_payload run decisions snapshot) (canonical_bytes sl)"

definition commitment_hash ::
  "stdlib \<Rightarrow> run_record \<Rightarrow> committee_decision_record list \<Rightarrow> portfolio_snapshot \<Rightarrow> canon_error + string" where
  "commitment_hash sl run decisions snapshot =
     bindr (commitment_bytes sl run decisions snapshot) (\<lambda>b. Inr (sl_sha256 sl b))"

section \<open>Verification\<close>

datatype defect_kind =
    SNAPSHOT_MISSING | SNAPSHOT_INVALID | DECISION_ENTITY_TOKEN_MISSING | DECISION_ROW_INVALID

datatype integrity_error = CommitmentIntegrityError | MaterialDefectError defect_kind

definition verify_commitment ::
  "stdlib \<Rightarrow> string \<Rightarrow> run_record \<Rightarrow> committee_decision_record list \<Rightarrow> portfolio_snapshot
   \<Rightarrow> integrity_error + string" where
  "verify_commitment sl stored run decisions snapshot =
     (case commitment_hash sl run decisions snapshot of
        Inl _ \<Rightarrow> Inl CommitmentIntegrityError
      | Inr recomputed \<Rightarrow>
          if recomputed \<noteq> stored then Inl CommitmentIntegrityError else Inr recomputed)"

record commitment_material =
  cm_run :: run_record
  cm_decisions :: "committee_decision_record list"
  cm_snapshot :: portfolio_snapshot
  cm_stored_sha256 :: string
  cm_committed_at :: instant
  cm_anchor :: "commitment_anchor option"

definition verify_material :: "stdlib \<Rightarrow> commitment_material \<Rightarrow> integrity_error + string" where
  "verify_material sl m =
     bindr (verify_commitment sl (cm_stored_sha256 m) (cm_run m) (cm_decisions m) (cm_snapshot m))
       (\<lambda>recomputed.
          case cm_anchor m of
            None \<Rightarrow> Inr recomputed
          | Some a \<Rightarrow> if ca_sha256 a \<noteq> recomputed then Inl CommitmentIntegrityError else Inr recomputed)"

section \<open>The documents that are hashed\<close>

text \<open>The canonical form of each record, which exists since contract floats are finite.\<close>

definition jopt :: "('a \<Rightarrow> json) \<Rightarrow> 'a option \<Rightarrow> json" where
  "jopt f x = (case x of None \<Rightarrow> JNull | Some y \<Rightarrow> f y)"

definition jweight :: "agent_weight \<Rightarrow> json" where
  "jweight w = JObj [(''agent'', JStr (agent_value (aw_agent w))), (''weight'', JNum (aw_weight w))]"

definition jdecision :: "(instant \<Rightarrow> string) \<Rightarrow> committee_decision \<Rightarrow> json" where
  "jdecision fmt d = JObj
     [(''run_id'', JStr (dec_run_id d)), (''security_id'', JInt (dec_security_id d)),
      (''entity_token'', JStr (dec_entity_token d)), (''as_of'', JStr (fmt (dec_as_of d))),
      (''horizon_days'', JInt (horizon_days (dec_horizon_days d))),
      (''pooled_p'', JNum (dec_pooled_p d)), (''dispersion'', JNum (dec_dispersion d)),
      (''agent_weights'', JList (map jweight (dec_agent_weights d))),
      (''bear_severity'', jopt (\<lambda>x. JStr (bear_severity_value x)) (dec_bear_severity d)),
      (''target_weight'', JNum (dec_target_weight d))]"

definition jdecision_record :: "(instant \<Rightarrow> string) \<Rightarrow> committee_decision_record \<Rightarrow> json" where
  "jdecision_record fmt r = JObj
     [(''decision'', jdecision fmt (cdr_decision r)), (''pooled_logit'', jopt JNum (cdr_pooled_logit r)),
      (''sizing_mode'', jopt (\<lambda>x. JStr (sizing_mode_value x)) (cdr_sizing_mode r)),
      (''cio_action'', jopt (\<lambda>x. JStr (cio_action_value x)) (cdr_cio_action r)),
      (''rationale'', jopt JStr (cdr_rationale r))]"

definition jposition :: "proposed_position \<Rightarrow> json" where
  "jposition p = JObj
     [(''security_id'', JInt (pp_security_id p)), (''entity_token'', JStr (pp_entity_token p)),
      (''sector'', JStr (pp_sector p)), (''pooled_p'', JNum (pp_pooled_p p)),
      (''target_weight'', JNum (pp_target_weight p))]"

definition jbook :: "(instant \<Rightarrow> string) \<Rightarrow> proposed_book \<Rightarrow> json" where
  "jbook fmt b = JObj
     [(''run_id'', JStr (pb_run_id b)), (''as_of'', JStr (fmt (pb_as_of b))),
      (''positions'', JList (map jposition (pb_positions b)))]"

definition jcio_name :: "cio_name_decision \<Rightarrow> json" where
  "jcio_name d = JObj
     [(''entity_token'', JStr (cn_entity_token d)), (''action'', JStr (cio_action_value (cn_action d))),
      (''reason'', JStr (cn_reason d))]"

definition jcio :: "(instant \<Rightarrow> string) \<Rightarrow> cio_decision \<Rightarrow> json" where
  "jcio fmt d = JObj
     [(''decisions'', JList (map jcio_name (cd_decisions d))), (''rationale'', JStr (cd_rationale d)),
      (''run_id'', JStr (cd_run_id d)), (''agent'', JStr ''cio''), (''as_of'', JStr (fmt (cd_as_of d))),
      (''prompt_version'', JStr (cd_prompt_version d)), (''model_served'', JStr (cd_model_served d))]"

definition jsnapshot :: "(instant \<Rightarrow> string) \<Rightarrow> portfolio_snapshot \<Rightarrow> json" where
  "jsnapshot fmt s = JObj
     [(''run_id'', JStr (ps_run_id s)), (''as_of'', JStr (fmt (ps_as_of s))), (''book'', jbook fmt (ps_book s)),
      (''cash_weight'', JNum (ps_cash_weight s)), (''cio'', jopt (jcio fmt) (ps_cio s))]"

definition jrun :: "(instant \<Rightarrow> string) \<Rightarrow> run_record \<Rightarrow> json" where
  "jrun fmt r = JObj
     [(''run_id'', JStr (rr_run_id r)), (''mode'', JStr (run_mode_value (rr_mode r))),
      (''as_of'', JStr (fmt (rr_as_of r))), (''config_hash'', JStr (rr_config_hash r))]"

definition jpayload ::
  "(instant \<Rightarrow> string) \<Rightarrow> run_record \<Rightarrow> committee_decision_record list \<Rightarrow> portfolio_snapshot \<Rightarrow> json" where
  "jpayload fmt run ds snap = JObj
     [(''v'', JStr COMMITMENT_VERSION), (''run'', jrun fmt run),
      (''decisions'', JList (map (jdecision_record fmt) (sort_key decision_key ds))),
      (''snapshot'', jsnapshot fmt snap)]"

lemma mapr_map: "mapr f (map g xs) = mapr (\<lambda>x. f (g x)) xs"
  by (induction xs) auto

lemma canon_opt:
  "(\<And>x. canon fmt (f x) = Inr (g x)) \<Longrightarrow> canon fmt (dump_opt f y) = Inr (jopt g y)"
  by (cases y) (auto simp: dump_opt_def jopt_def)

lemma canon_enum [simp]: "canon fmt (dump_enum val x) = Inr (JStr (val x))"
  and canon_num [simp]: "canon fmt (dump_num r) = Inr (JNum r)"
  by (simp_all add: dump_enum_def dump_num_def)

lemma canon_list:
  "(\<And>x. canon fmt (f x) = Inr (g x)) \<Longrightarrow> canon fmt (PList (map f xs)) = Inr (JList (map g xs))"
  by (simp add: mapr_map mapr_total [of _ _ g])

lemma canon_dict_Cons:
  "canon fmt (PDict kvs) = Inr (JObj ps) \<Longrightarrow> canon fmt v = Inr j \<Longrightarrow>
   canon fmt (PDict ((k, v) # kvs)) = Inr (JObj ((k, j) # ps))"
  by (auto simp: bindr_Inr_iff)

lemma canon_dict_Nil: "canon fmt (PDict []) = Inr (JObj [])"
  by simp

lemmas canon_dict = canon_dict_Cons canon_dict_Nil

lemma canon_weight: "canon fmt (dump_weight w) = Inr (jweight w)"
  unfolding dump_weight_def jweight_def by (intro canon_dict canon_enum canon_num)

lemma canon_decision: "canon fmt (dump_decision d) = Inr (jdecision fmt d)"
  unfolding dump_decision_def jdecision_def
  by (intro canon_dict canon_enum canon_num canon_list canon_weight canon_opt canon.simps) simp_all

lemma canon_decision_record: "canon fmt (dump_decision_record d) = Inr (jdecision_record fmt d)"
  unfolding dump_decision_record_def jdecision_record_def
  by (intro canon_dict canon_decision canon_opt canon_enum canon_num canon.simps)

lemma canon_book: "canon fmt (dump_book b) = Inr (jbook fmt b)"
proof -
  have "canon fmt (dump_position x) = Inr (jposition x)" for x
    unfolding dump_position_def jposition_def by (intro canon_dict canon_num canon.simps)
  then show ?thesis
    unfolding dump_book_def jbook_def by (intro canon_dict canon_list canon.simps)
qed

lemma canon_cio: "canon fmt (dump_cio d) = Inr (jcio fmt d)"
proof -
  have "canon fmt (dump_cio_name x) = Inr (jcio_name x)" for x
    unfolding dump_cio_name_def jcio_name_def by (intro canon_dict canon_enum canon.simps)
  moreover have "canon fmt (dump_enum agent_value CIO) = Inr (JStr ''cio'')"
    by simp
  ultimately show ?thesis
    unfolding dump_cio_def jcio_def by (intro canon_dict canon_list canon.simps)
qed

lemma canon_snapshot: "canon fmt (dump_snapshot s) = Inr (jsnapshot fmt s)"
  unfolding dump_snapshot_def jsnapshot_def
  by (intro canon_dict canon_book canon_opt canon_cio canon_num canon.simps)

definition fits :: "run_record \<Rightarrow> committee_decision_record list \<Rightarrow> portfolio_snapshot \<Rightarrow> bool" where
  "fits run ds snap \<longleftrightarrow>
     ps_run_id snap = rr_run_id run \<and> (\<forall>d \<in> set ds. dec_run_id (cdr_decision d) = rr_run_id run)"

lemma commitment_bytes_eq:
  "commitment_bytes sl run ds snap =
     (if fits run ds snap
      then Inr (dumps (sl_float_repr sl) (jpayload (sl_isoformat sl) run ds snap))
      else Inl CanonValueError)"
proof -
  let ?fmt = "sl_isoformat sl"
  have run: "canon ?fmt (PDict
        [(''run_id'', PUuid (rr_run_id run)), (''mode'', dump_enum run_mode_value (rr_mode run)),
         (''as_of'', PTime (rr_as_of run)), (''config_hash'', PStr (rr_config_hash run))]) = Inr (jrun ?fmt run)"
    unfolding jrun_def by (intro canon_dict canon_enum canon.simps)
  have "canon ?fmt (PDict
        [(''v'', PStr COMMITMENT_VERSION),
         (''run'', PDict
            [(''run_id'', PUuid (rr_run_id run)), (''mode'', dump_enum run_mode_value (rr_mode run)),
             (''as_of'', PTime (rr_as_of run)), (''config_hash'', PStr (rr_config_hash run))]),
         (''decisions'', PList (map dump_decision_record (sort_key decision_key ds))),
         (''snapshot'', dump_snapshot snap)]) = Inr (jpayload ?fmt run ds snap)"
    unfolding jpayload_def
    by (intro canon_dict run canon_list canon_decision_record canon_snapshot canon.simps)
  then show ?thesis
    by (auto simp: commitment_bytes_def commitment_payload_def canonical_bytes_def fits_def
        list_ex_iff Let_def simp del: canon.simps)
qed

lemma commitment_hash_eq:
  "commitment_hash sl run ds snap =
     (if fits run ds snap
      then Inr (sl_sha256 sl (dumps (sl_float_repr sl) (jpayload (sl_isoformat sl) run ds snap)))
      else Inl CanonValueError)"
  by (simp add: commitment_hash_def commitment_bytes_eq)

section \<open>The document determines what was decided\<close>

lemma obj_inject:
  assumes "sort_keys (JObj xs) = sort_keys (JObj ys)" and "map fst xs = map fst ys" and "distinct (map fst xs)"
  shows "map (\<lambda>kv. sort_keys (snd kv)) xs = map (\<lambda>kv. sort_keys (snd kv)) ys"
proof -
  let ?f = "map (\<lambda>(k, v). (k, sort_keys v))"
  have fst: "map fst (?f zs) = map fst zs" for zs :: "(string \<times> json) list"
    by (induction zs) auto
  have "?f xs = ?f ys"
    by (rule sort_key_fst_inject) (use assms in \<open>simp_all only: fst sort_keys.simps json.inject\<close>)
  then have "map snd (?f xs) = map snd (?f ys)" by simp
  then show ?thesis by (simp add: case_prod_beta comp_def)
qed

lemma list_inject:
  assumes "map (\<lambda>x. sort_keys (f x)) xs = map (\<lambda>x. sort_keys (f x)) ys"
    and "\<And>x y. sort_keys (f x) = sort_keys (f y) \<Longrightarrow> x = y"
  shows "xs = ys"
  using assms(1)
proof (induction xs arbitrary: ys)
  case (Cons x xs)
  then obtain y ys' where "ys = y # ys'" "sort_keys (f x) = sort_keys (f y)"
    "map (\<lambda>x. sort_keys (f x)) xs = map (\<lambda>x. sort_keys (f x)) ys'"
    by (cases ys) auto
  with Cons.IH assms(2) show ?case by blast
qed simp

lemma opt_inject:
  assumes "sort_keys (jopt f x) = sort_keys (jopt f y)"
    and "\<And>x y. sort_keys (f x) = sort_keys (f y) \<Longrightarrow> x = y" and "\<And>x. sort_keys (f x) \<noteq> JNull"
  shows "x = y"
  using assms by (cases x; cases y) (auto simp: jopt_def, metis)

lemma enum_inject:
  "agent_value a = agent_value a' \<Longrightarrow> a = a'"
  "run_mode_value m = run_mode_value m' \<Longrightarrow> m = m'"
  "bear_severity_value b = bear_severity_value b' \<Longrightarrow> b = b'"
  "cio_action_value c = cio_action_value c' \<Longrightarrow> c = c'"
  "sizing_mode_value z = sizing_mode_value z' \<Longrightarrow> z = z'"
  "horizon_days h = horizon_days h' \<Longrightarrow> h = h'"
  by (cases a; cases a'; simp) (cases m; cases m'; simp | cases b; cases b'; simp | cases c; cases c'; simp
      | cases z; cases z'; simp | cases h; cases h'; simp)+

lemma jweight_inject: "sort_keys (jweight w) = sort_keys (jweight w') \<Longrightarrow> w = w'"
  unfolding jweight_def
  by (drule obj_inject) (auto dest: enum_inject intro: agent_weight.equality)

lemma jopt_enum_inject:
  assumes "sort_keys (jopt (\<lambda>x. JStr (val x)) x) = sort_keys (jopt (\<lambda>x. JStr (val x)) y)"
    and "\<And>x y. val x = val y \<Longrightarrow> x = y"
  shows "x = y"
  by (rule opt_inject [OF assms(1)]) (auto dest: assms(2))

lemma jopt_base_inject:
  "sort_keys (jopt JNum x) = sort_keys (jopt JNum y) \<Longrightarrow> x = y"
  "sort_keys (jopt JStr a) = sort_keys (jopt JStr b) \<Longrightarrow> a = b"
  by (erule opt_inject; simp)+

lemma jdecision_inject:
  assumes "sort_keys (jdecision fmt d) = sort_keys (jdecision fmt d')" and "inj fmt"
  shows "d = d'"
proof (rule committee_decision.equality)
  note eq = obj_inject [OF assms(1) [unfolded jdecision_def], simplified]
  show "dec_run_id d = dec_run_id d'" "dec_security_id d = dec_security_id d'"
    "dec_entity_token d = dec_entity_token d'" "dec_as_of d = dec_as_of d'"
    "dec_horizon_days d = dec_horizon_days d'" "dec_pooled_p d = dec_pooled_p d'"
    "dec_dispersion d = dec_dispersion d'" "dec_target_weight d = dec_target_weight d'"
    using eq assms(2) by (auto dest: injD enum_inject(6))
  show "dec_agent_weights d = dec_agent_weights d'"
    by (rule list_inject [of jweight, OF _ jweight_inject]) (use eq in \<open>simp_all add: comp_def\<close>)
  show "dec_bear_severity d = dec_bear_severity d'"
    by (rule jopt_enum_inject [of bear_severity_value, OF _ enum_inject(3)]) (use eq in simp_all)
qed simp

lemma jdecision_record_inject:
  assumes "sort_keys (jdecision_record fmt r) = sort_keys (jdecision_record fmt r')" and "inj fmt"
  shows "r = r'"
proof (rule committee_decision_record.equality)
  have eq: "sort_keys (jdecision fmt (cdr_decision r)) = sort_keys (jdecision fmt (cdr_decision r'))"
    "sort_keys (jopt JNum (cdr_pooled_logit r)) = sort_keys (jopt JNum (cdr_pooled_logit r'))"
    "sort_keys (jopt (\<lambda>x. JStr (sizing_mode_value x)) (cdr_sizing_mode r)) =
       sort_keys (jopt (\<lambda>x. JStr (sizing_mode_value x)) (cdr_sizing_mode r'))"
    "sort_keys (jopt (\<lambda>x. JStr (cio_action_value x)) (cdr_cio_action r)) =
       sort_keys (jopt (\<lambda>x. JStr (cio_action_value x)) (cdr_cio_action r'))"
    "sort_keys (jopt JStr (cdr_rationale r)) = sort_keys (jopt JStr (cdr_rationale r'))"
    using obj_inject [OF assms(1) [unfolded jdecision_record_def]] by simp_all
  show "cdr_decision r = cdr_decision r'" by (rule jdecision_inject [OF eq(1) assms(2)])
  show "cdr_pooled_logit r = cdr_pooled_logit r'" by (rule jopt_base_inject(1) [OF eq(2)])
  show "cdr_sizing_mode r = cdr_sizing_mode r'" by (rule jopt_enum_inject [OF eq(3) enum_inject(5)])
  show "cdr_cio_action r = cdr_cio_action r'" by (rule jopt_enum_inject [OF eq(4) enum_inject(4)])
  show "cdr_rationale r = cdr_rationale r'" by (rule jopt_base_inject(2) [OF eq(5)])
qed simp

lemma jposition_inject: "sort_keys (jposition p) = sort_keys (jposition p') \<Longrightarrow> p = p'"
  unfolding jposition_def by (drule obj_inject) (auto intro: proposed_position.equality)

lemma jbook_inject:
  assumes "sort_keys (jbook fmt b) = sort_keys (jbook fmt b')" and "inj fmt"
  shows "b = b'"
proof (rule proposed_book.equality)
  note eq = obj_inject [OF assms(1) [unfolded jbook_def], simplified]
  show "pb_run_id b = pb_run_id b'" "pb_as_of b = pb_as_of b'"
    using eq assms(2) by (auto dest: injD)
  show "pb_positions b = pb_positions b'"
    by (rule list_inject [of jposition, OF _ jposition_inject]) (use eq in \<open>simp_all add: comp_def\<close>)
qed simp

lemma jcio_inject:
  assumes "sort_keys (jcio fmt d) = sort_keys (jcio fmt d')" and "inj fmt"
  shows "d = d'"
proof (rule cio_decision.equality)
  note eq = obj_inject [OF assms(1) [unfolded jcio_def], simplified]
  have name: "sort_keys (jcio_name x) = sort_keys (jcio_name y) \<Longrightarrow> x = y" for x y
    unfolding jcio_name_def
    by (drule obj_inject) (auto dest: enum_inject intro: cio_name_decision.equality)
  show "cd_decisions d = cd_decisions d'"
    by (rule list_inject [of jcio_name, OF _ name]) (use eq in \<open>simp_all add: comp_def\<close>)
  show "cd_rationale d = cd_rationale d'" "cd_run_id d = cd_run_id d'" "cd_as_of d = cd_as_of d'"
    "cd_prompt_version d = cd_prompt_version d'" "cd_model_served d = cd_model_served d'"
    using eq assms(2) by (auto dest: injD)
qed simp

lemma jsnapshot_inject:
  assumes "sort_keys (jsnapshot fmt s) = sort_keys (jsnapshot fmt s')" and "inj fmt"
  shows "s = s'"
proof (rule portfolio_snapshot.equality)
  have eq: "ps_run_id s = ps_run_id s'" "fmt (ps_as_of s) = fmt (ps_as_of s')"
    "sort_keys (jbook fmt (ps_book s)) = sort_keys (jbook fmt (ps_book s'))"
    "ps_cash_weight s = ps_cash_weight s'"
    "sort_keys (jopt (jcio fmt) (ps_cio s)) = sort_keys (jopt (jcio fmt) (ps_cio s'))"
    using obj_inject [OF assms(1) [unfolded jsnapshot_def]] by simp_all
  show "ps_run_id s = ps_run_id s'" "ps_cash_weight s = ps_cash_weight s'" by (fact eq)+
  show "ps_as_of s = ps_as_of s'" using eq(2) assms(2) by (rule injD [rotated])
  show "ps_book s = ps_book s'" by (rule jbook_inject [OF eq(3) assms(2)])
  show "ps_cio s = ps_cio s'"
    by (rule opt_inject [OF eq(5) jcio_inject [OF _ assms(2)]]) (auto simp: jcio_def)
qed simp

lemma jpayload_inject:
  assumes "sort_keys (jpayload fmt run ds snap) = sort_keys (jpayload fmt run' ds' snap')" and "inj fmt"
  shows "rr_run_id run = rr_run_id run'" and "rr_mode run = rr_mode run'"
    and "rr_as_of run = rr_as_of run'" and "rr_config_hash run = rr_config_hash run'"
    and "sort_key decision_key ds = sort_key decision_key ds'" and "snap = snap'"
proof -
  have eq: "sort_keys (jrun fmt run) = sort_keys (jrun fmt run')"
    "map (\<lambda>x. sort_keys (jdecision_record fmt x)) (sort_key decision_key ds) =
     map (\<lambda>x. sort_keys (jdecision_record fmt x)) (sort_key decision_key ds')"
    "sort_keys (jsnapshot fmt snap) = sort_keys (jsnapshot fmt snap')"
    using obj_inject [OF assms(1) [unfolded jpayload_def]] by (simp_all add: comp_def)
  note r = obj_inject [OF eq(1) [unfolded jrun_def], simplified]
  show "rr_run_id run = rr_run_id run'" "rr_mode run = rr_mode run'"
    "rr_as_of run = rr_as_of run'" "rr_config_hash run = rr_config_hash run'"
    using r assms(2) by (auto dest: injD enum_inject(2))
  show "sort_key decision_key ds = sort_key decision_key ds'"
    by (rule list_inject [OF eq(2)]) (rule jdecision_record_inject [OF _ assms(2)])
  show "snap = snap'" by (rule jsnapshot_inject [OF eq(3) assms(2)])
qed

section \<open>A concrete run\<close>

definition demo_lib :: stdlib where
  "demo_lib = \<lparr>sl_sha256 = (\<lambda>b. b), sl_float_repr = (\<lambda>_. ''0.0''), sl_isoformat = str_int\<rparr>"

definition demo_run :: "run_status \<Rightarrow> run_record" where
  "demo_run st = \<lparr>rr_run_id = ''r'', rr_mode = LIVE, rr_as_of = 5, rr_config_hash = ''c'', rr_status = st,
     rr_started_at = 6, rr_ended_at = None, rr_status_reason = None, rr_total_cost_usd = 0\<rparr>"

definition demo_record :: "int \<Rightarrow> committee_decision_record" where
  "demo_record i =
     \<lparr>cdr_decision = \<lparr>dec_run_id = ''r'', dec_security_id = i, dec_entity_token = ''CO_01'', dec_as_of = 5,
        dec_horizon_days = D21, dec_pooled_p = 0, dec_dispersion = 0, dec_agent_weights = [],
        dec_bear_severity = None, dec_target_weight = 0\<rparr>,
      cdr_pooled_logit = None, cdr_sizing_mode = Some RANK, cdr_cio_action = None, cdr_rationale = None\<rparr>"

definition demo_snapshot :: portfolio_snapshot where
  "demo_snapshot = \<lparr>ps_run_id = ''r'', ps_as_of = 5,
     ps_book = \<lparr>pb_run_id = ''r'', pb_as_of = 5, pb_positions = []\<rparr>, ps_cash_weight = 0, ps_cio = None\<rparr>"

lemma demo_float_repr: "float_repr_ok (sl_float_repr demo_lib) {0}"
  by (simp add: float_repr_ok_def demo_lib_def numchar_def digit_char_def)

lemma demo_key: "decision_key (demo_record i) = (i, 21)"
  by (simp add: decision_key_def demo_record_def)

lemma demo_fits: "fits (demo_run st) [demo_record i, demo_record j] demo_snapshot"
  by (simp add: fits_def demo_run_def demo_record_def demo_snapshot_def)

lemma demo_floats: "floats (jpayload fmt (demo_run st) [demo_record 1, demo_record 2] demo_snapshot) = {0}"
  "floats (jpayload fmt (demo_run st) [demo_record 2, demo_record 1] demo_snapshot) = {0}"
  by (auto simp: jpayload_def jrun_def demo_key jdecision_record_def jdecision_def jsnapshot_def jbook_def
      demo_record_def demo_snapshot_def jopt_def insort_key_def)

section \<open>Properties\<close>

lemma sort_key_mset_eq:
  assumes "mset xs = mset ys" and "inj_on f (set xs)"
  shows "sort_key f xs = sort_key f ys"
proof (rule properties_for_sort_key)
  show "mset (sort_key f ys) = mset xs" using assms(1) by simp
  show "sorted (map f (sort_key f ys))" by (rule sorted_sort_key)
  fix k assume "k \<in> set (sort_key f ys)"
  with assms(1) have k: "k \<in> set xs" by (metis set_mset_mset set_sort)
  have same: "filter (\<lambda>x. f k = f x) zs = replicate (count (mset zs) k) k" if "set zs = set xs" for zs
  proof -
    have "filter (\<lambda>x. f k = f x) zs = filter (\<lambda>x. k = x) zs"
      by (rule filter_cong) (use assms(2) k that in \<open>auto dest: inj_onD\<close>)
    also have "\<dots> = replicate (count (mset zs) k) k"
      by (induction zs) auto
    finally show ?thesis .
  qed
  have "set (sort_key f ys) = set xs" using assms(1) by (metis set_mset_mset set_sort)
  from same [OF this] same [of xs] assms(1)
  show "filter (\<lambda>x. f k = f x) (sort_key f ys) = filter (\<lambda>x. f k = f x) xs" by simp
qed

text \<open>
  C17: the hash is a function of the run's identity, the set of decisions and the portfolio only. The
  status, the times, the reason and the cost of the run do not enter, nor does the order in which the
  decisions are read back, as long as no security has two decisions for one horizon.
\<close>

theorem commitment_hash_stable:
  assumes "mset ds = mset ds'" and "inj_on decision_key (set ds)"
    and "rr_run_id run = rr_run_id run'" and "rr_mode run = rr_mode run'"
    and "rr_as_of run = rr_as_of run'" and "rr_config_hash run = rr_config_hash run'"
  shows "commitment_hash sl run ds snap = commitment_hash sl run' ds' snap"
proof -
  have "set ds = set ds'" using assms(1) by (rule mset_eq_setD)
  then have "fits run ds snap = fits run' ds' snap" using assms(3) by (simp add: fits_def)
  moreover have "jpayload fmt run ds snap = jpayload fmt run' ds' snap" for fmt
    using sort_key_mset_eq [OF assms(1,2)] assms(3-6) by (simp add: jpayload_def jrun_def)
  ultimately show ?thesis by (simp add: commitment_hash_eq)
qed

theorem commitment_hash_stable_witness:
  "commitment_hash demo_lib (demo_run COMMITTED) [demo_record 1, demo_record 2] demo_snapshot =
   commitment_hash demo_lib (demo_run EXECUTED) [demo_record 2, demo_record 1] demo_snapshot"
  by (rule commitment_hash_stable) (auto simp: demo_key demo_run_def)

text \<open>
  C18: the hash binds. Two runs with the same commitment hash have the same identity, the same
  decisions in canonical order and the same portfolio, unless the hash function collides on their two
  documents; instants are rendered injectively and repr distinguishes the floats that occur.
\<close>

theorem commitment_hash_binds:
  assumes "commitment_hash sl run ds snap = Inr h" and "commitment_hash sl run' ds' snap' = Inr h"
    and "\<And>b b'. commitment_bytes sl run ds snap = Inr b \<Longrightarrow> commitment_bytes sl run' ds' snap' = Inr b' \<Longrightarrow>
           sl_sha256 sl b = sl_sha256 sl b' \<Longrightarrow> b = b'"
    and "inj (sl_isoformat sl)"
    and "float_repr_ok (sl_float_repr sl)
           (floats (jpayload (sl_isoformat sl) run ds snap) \<union> floats (jpayload (sl_isoformat sl) run' ds' snap'))"
  shows "rr_run_id run = rr_run_id run' \<and> rr_mode run = rr_mode run' \<and> rr_as_of run = rr_as_of run' \<and>
    rr_config_hash run = rr_config_hash run' \<and> mset ds = mset ds' \<and>
    sort_key decision_key ds = sort_key decision_key ds' \<and> snap = snap'"
proof -
  let ?b = "\<lambda>run ds snap. dumps (sl_float_repr sl) (jpayload (sl_isoformat sl) run ds snap)"
  from assms(1,2) have f: "fits run ds snap" "fits run' ds' snap'"
    by (auto simp: commitment_hash_eq split: if_splits)
  with assms(1,2) have "sl_sha256 sl (?b run ds snap) = sl_sha256 sl (?b run' ds' snap')"
    by (simp add: commitment_hash_eq)
  with f assms(3) have "?b run ds snap = ?b run' ds' snap'"
    by (simp add: commitment_bytes_eq)
  from dumps_inject [OF this assms(5)] have "sort_keys (jpayload (sl_isoformat sl) run ds snap) =
     sort_keys (jpayload (sl_isoformat sl) run' ds' snap')" .
  note j = jpayload_inject [OF this assms(4)]
  from j(5) have "mset ds = mset ds'" by (metis mset_sort)
  with j show ?thesis by simp
qed

theorem commitment_hash_binds_witness:
  "mset [demo_record 1, demo_record 2] = mset [demo_record 2, demo_record 1]"
proof -
  obtain h where h: "commitment_hash demo_lib (demo_run COMMITTED) [demo_record 1, demo_record 2] demo_snapshot = Inr h"
    by (simp add: commitment_hash_eq demo_fits)
  then have h': "commitment_hash demo_lib (demo_run EXECUTED) [demo_record 2, demo_record 1] demo_snapshot = Inr h"
  proof -
    have "jpayload fmt (demo_run EXECUTED) [demo_record 2, demo_record 1] demo_snapshot =
        jpayload fmt (demo_run COMMITTED) [demo_record 1, demo_record 2] demo_snapshot" for fmt
      by (simp add: jpayload_def jrun_def demo_run_def demo_key)
    with h show ?thesis by (simp add: commitment_hash_eq demo_fits)
  qed
  have "inj (sl_isoformat demo_lib)" by (simp add: demo_lib_def inj_def)
  from commitment_hash_binds [OF h h' _ this] demo_float_repr
  show ?thesis by (simp add: demo_floats demo_lib_def)
qed

text \<open>
  A verification accepts exactly the rows that hash to the stored value, with the anchor, if there
  is one, naming the same hash; everything else is an integrity error.
\<close>

theorem verify_material_exact:
  "verify_material sl m =
     (if commitment_hash sl (cm_run m) (cm_decisions m) (cm_snapshot m) = Inr (cm_stored_sha256 m) \<and>
         opt_all (\<lambda>a. ca_sha256 a = cm_stored_sha256 m) (cm_anchor m)
      then Inr (cm_stored_sha256 m) else Inl CommitmentIntegrityError)"
  by (auto simp: verify_material_def verify_commitment_def opt_all_def split: sum.splits option.splits)

end
