(* ===== verification/Store.thy ===== *)
theory Store
  imports Tables Commitment
begin

text \<open>
  The run tables of the database and the statements of \<open>store/write.py\<close> and \<open>store/_material.py\<close>
  on them. Each table is the list of its rows; the primary and unique keys, the foreign keys and the
  conditional updates are those of \<open>store/_tables.py\<close>. A digest that only deduplicates equal rows is
  modelled by equality of the rows.
\<close>

section \<open>Rows\<close>

record decision_row =
  dr_run_id :: uuid
  dr_security_id :: int
  dr_horizon :: int
  dr_entity_token :: "string option"
  dr_pooled_p :: real
  dr_pooled_logit :: "real option"
  dr_dispersion :: real
  dr_sizing_mode :: "sizing_mode option"
  dr_bear_severity :: "bear_severity option"
  dr_weights :: "agent_weight list"
  dr_target_weight :: real
  dr_cio_action :: "cio_action option"
  dr_rationale :: "string option"

record halt_request =
  hq_run_id :: uuid
  hq_trigger :: kill_trigger
  hq_tau :: instant
  hq_status :: halt_request_status
  hq_requested_at :: instant
  hq_source_version :: string

record reset_row =
  rs_run_id :: uuid
  rs_reset_at :: instant
  rs_actor :: string
  rs_reason :: string
  rs_prior_status :: run_status
  rs_verdicts :: "verdict_record list"
  rs_decisions :: "decision_row list"
  rs_snapshots :: "portfolio_snapshot list"

record db =
  db_runs :: "run_record list"
  db_verdicts :: "verdict_record list"
  db_decisions :: "decision_row list"
  db_snapshots :: "portfolio_snapshot list"
  db_dlq :: "dlq_record list"
  db_events :: "kill_switch_event list"
  db_commitments :: "decision_commitment list"
  db_anchors :: "commitment_anchor list"
  db_resets :: "reset_row list"
  db_orders :: "execution_record list"
  db_halt_requests :: "halt_request list"

datatype store_error =
    CommitmentMismatchError | AnchorMismatchError | AnchorIncompleteError | ImmutableConflictError
  | ResetRefusedError | RunHaltedError | IntegrityError | NoResultFound | MultipleResultsFound
  | IntegrityFailure integrity_error

type_synonym 'a store_eff = "(db, store_error, 'a) eff"

definition has_run :: "db \<Rightarrow> uuid \<Rightarrow> bool" where
  "has_run d rid = has_key rr_run_id (db_runs d) rid"

definition query :: "(db \<Rightarrow> 'a) \<Rightarrow> 'a store_eff" where
  "query f d = (Inr (f d), d)"

section \<open>Runs\<close>

definition ADVANCED :: "run_status list" where
  "ADVANCED = [COMMITTED, ANCHORED, EXECUTED, SCORED]"

definition REGRESSIVE :: "run_status list" where
  "REGRESSIVE = [PENDING, PARTIAL, FAILED]"

definition HALTABLE :: "run_status list" where
  "HALTABLE = [COMMITTED, ANCHORED, EXECUTED]"

definition ACTIVE :: "run_status list" where
  "ACTIVE = [PENDING, INGEST_OK, FEATURES_OK, GATED, AGENTS_OK, COMMITTED, ANCHORED, EXECUTED, SCORED]"

definition upsert_blocked :: "run_record \<Rightarrow> run_record \<Rightarrow> bool" where
  "upsert_blocked stored new \<longleftrightarrow>
     rr_status stored \<in> set ADVANCED \<and> rr_status new \<in> set REGRESSIVE \<or> run_halted stored"

definition overwrite_run :: "run_record \<Rightarrow> run_record \<Rightarrow> run_record" where
  "overwrite_run new stored =
     stored\<lparr>rr_status := rr_status new, rr_ended_at := rr_ended_at new,
       rr_status_reason := rr_status_reason new, rr_total_cost_usd := rr_total_cost_usd new\<rparr>"

definition upsert_run :: "run_record \<Rightarrow> unit store_eff" where
  "upsert_run run d =
     (if has_run d (rr_run_id run)
      then (Inr (), d\<lparr>db_runs := update_where
              (\<lambda>r. rr_run_id r = rr_run_id run \<and> \<not> upsert_blocked r run) (overwrite_run run) (db_runs d)\<rparr>)
      else (Inr (), d\<lparr>db_runs := db_runs d @ [run]\<rparr>))"

definition insert_run :: "run_record \<Rightarrow> nat store_eff" where
  "insert_run run d =
     (case insert_new rr_run_id (db_runs d) [run] of (n, t) \<Rightarrow> (Inr n, d\<lparr>db_runs := t\<rparr>))"

definition load_run :: "db \<Rightarrow> uuid \<Rightarrow> run_record option" where
  "load_run d rid = row_of rr_run_id (db_runs d) rid"

section \<open>Step outputs\<close>

text \<open>
  The multi-row inserts. The foreign key to \<open>runs\<close> is checked on the table as it is afterwards.
\<close>

definition insert_rows ::
  "('r \<Rightarrow> 'k) \<Rightarrow> ('r \<Rightarrow> uuid) \<Rightarrow> (db \<Rightarrow> 'r list) \<Rightarrow> ('r list \<Rightarrow> db \<Rightarrow> db) \<Rightarrow> 'r list \<Rightarrow> nat store_eff" where
  "insert_rows key rid get put rows d =
     (case insert_new key (get d) rows of
        (n, t) \<Rightarrow> if list_all (\<lambda>r. has_run d (rid r)) t then (Inr n, put t d) else (Inl IntegrityError, d))"

definition insert_agent_verdicts :: "verdict_record list \<Rightarrow> nat store_eff" where
  "insert_agent_verdicts =
     insert_rows (\<lambda>r. (verdict_run_id (vr_verdict r), vr_security_id r, verdict_agent (vr_verdict r)))
       (\<lambda>r. verdict_run_id (vr_verdict r)) db_verdicts (\<lambda>t d. d\<lparr>db_verdicts := t\<rparr>)"

definition decision_row_of :: "committee_decision_record \<Rightarrow> decision_row" where
  "decision_row_of r =
     (let c = cdr_decision r
      in \<lparr>dr_run_id = dec_run_id c, dr_security_id = dec_security_id c,
          dr_horizon = horizon_days (dec_horizon_days c), dr_entity_token = Some (dec_entity_token c),
          dr_pooled_p = dec_pooled_p c, dr_pooled_logit = cdr_pooled_logit r,
          dr_dispersion = dec_dispersion c, dr_sizing_mode = cdr_sizing_mode r,
          dr_bear_severity = dec_bear_severity c, dr_weights = dec_agent_weights c,
          dr_target_weight = dec_target_weight c, dr_cio_action = cdr_cio_action r,
          dr_rationale = cdr_rationale r\<rparr>)"

definition decision_row_key :: "decision_row \<Rightarrow> uuid \<times> int \<times> int" where
  "decision_row_key r = (dr_run_id r, dr_security_id r, dr_horizon r)"

definition insert_committee_decisions :: "committee_decision_record list \<Rightarrow> nat store_eff" where
  "insert_committee_decisions rs =
     insert_rows decision_row_key dr_run_id db_decisions (\<lambda>t d. d\<lparr>db_decisions := t\<rparr>)
       (map decision_row_of rs)"

definition insert_portfolio_snapshot :: "portfolio_snapshot \<Rightarrow> nat store_eff" where
  "insert_portfolio_snapshot s =
     insert_rows ps_run_id ps_run_id db_snapshots (\<lambda>t d. d\<lparr>db_snapshots := t\<rparr>) [s]"

definition insert_dlq_records :: "dlq_record list \<Rightarrow> nat store_eff" where
  "insert_dlq_records = insert_rows (\<lambda>r. r) dlq_run_id db_dlq (\<lambda>t d. d\<lparr>db_dlq := t\<rparr>)"

definition insert_kill_switch_events :: "kill_switch_event list \<Rightarrow> nat store_eff" where
  "insert_kill_switch_events =
     insert_rows (\<lambda>e. e) ke_run_id db_events (\<lambda>t d. d\<lparr>db_events := t\<rparr>)"

definition load_kill_switch_events :: "db \<Rightarrow> uuid \<Rightarrow> kill_switch_event list" where
  "load_kill_switch_events d rid =
     sort_key ke_triggered_at (filter (\<lambda>e. ke_run_id e = rid) (db_events d))"

definition load_verdicts :: "db \<Rightarrow> uuid \<Rightarrow> verdict_record list" where
  "load_verdicts d rid =
     sort_key (\<lambda>r. agent_value (verdict_agent (vr_verdict r)))
       (filter (\<lambda>r. verdict_run_id (vr_verdict r) = rid) (db_verdicts d))"

definition load_snapshot :: "db \<Rightarrow> uuid \<Rightarrow> portfolio_snapshot option" where
  "load_snapshot d rid = row_of ps_run_id (db_snapshots d) rid"

definition load_book :: "db \<Rightarrow> uuid \<Rightarrow> proposed_book option" where
  "load_book d rid = map_option ps_book (load_snapshot d rid)"

section \<open>Commitments and anchors\<close>

definition load_commitment :: "db \<Rightarrow> uuid \<Rightarrow> decision_commitment option" where
  "load_commitment d rid = row_of dc_run_id (db_commitments d) rid"

definition load_commitment_hash :: "db \<Rightarrow> uuid \<Rightarrow> string option" where
  "load_commitment_hash d rid = map_option dc_sha256 (load_commitment d rid)"

definition load_committed_at :: "db \<Rightarrow> uuid \<Rightarrow> instant option" where
  "load_committed_at d rid = map_option dc_committed_at (load_commitment d rid)"

definition insert_commitment :: "decision_commitment \<Rightarrow> nat store_eff" where
  "insert_commitment c =
     bnd (insert_rows dc_run_id dc_run_id db_commitments (\<lambda>t d. d\<lparr>db_commitments := t\<rparr>) [c]) (\<lambda>n.
       if n \<noteq> 0 then ret n
       else bnd (query (\<lambda>d. load_commitment_hash d (dc_run_id c))) (\<lambda>stored.
              case stored of
                None \<Rightarrow> throw NoResultFound
              | Some h \<Rightarrow> if h \<noteq> dc_sha256 c then throw CommitmentMismatchError else ret n))"

definition coalesce :: "'a option \<Rightarrow> 'a option \<Rightarrow> 'a option" where
  "coalesce x y = (case x of None \<Rightarrow> y | Some _ \<Rightarrow> x)"

definition upgrade_anchor :: "commitment_anchor \<Rightarrow> commitment_anchor \<Rightarrow> commitment_anchor" where
  "upgrade_anchor new stored =
     stored\<lparr>ca_ots_proof := coalesce (ca_ots_proof new) (ca_ots_proof stored),
       ca_git_commit := coalesce (ca_git_commit new) (ca_git_commit stored),
       ca_verified_at := coalesce (ca_verified_at new) (ca_verified_at stored)\<rparr>"

definition upsert_anchor :: "commitment_anchor \<Rightarrow> unit store_eff" where
  "upsert_anchor a d =
     (case row_of ca_run_id (db_anchors d) (ca_run_id a) of
        None \<Rightarrow>
          if has_key (\<lambda>c. (dc_run_id c, dc_sha256 c)) (db_commitments d) (ca_run_id a, ca_sha256 a)
          then (Inr (), d\<lparr>db_anchors := db_anchors d @ [a]\<rparr>)
          else (Inl IntegrityError, d)
      | Some stored \<Rightarrow>
          if ca_sha256 stored = ca_sha256 a
          then (Inr (), d\<lparr>db_anchors := update_where (\<lambda>s. ca_run_id s = ca_run_id a) (upgrade_anchor a)
                                          (db_anchors d)\<rparr>)
          else (Inl AnchorMismatchError, d))"

definition load_anchor :: "db \<Rightarrow> uuid \<Rightarrow> commitment_anchor option" where
  "load_anchor d rid = row_of ca_run_id (db_anchors d) rid"

text \<open>A conditional status change; the result is whether a row was moved.\<close>

definition move_run :: "uuid \<Rightarrow> (run_status \<Rightarrow> bool) \<Rightarrow> (run_record \<Rightarrow> run_record) \<Rightarrow> bool store_eff" where
  "move_run rid from change d =
     (let p = (\<lambda>r. rr_run_id r = rid \<and> from (rr_status r))
      in (Inr (length (filter p (db_runs d)) = 1), d\<lparr>db_runs := update_where p change (db_runs d)\<rparr>))"

definition advance_to_executed :: "uuid \<Rightarrow> instant \<Rightarrow> bool store_eff" where
  "advance_to_executed rid ended =
     move_run rid (\<lambda>s. s = ANCHORED)
       (\<lambda>r. r\<lparr>rr_status := EXECUTED, rr_ended_at := Some ended, rr_status_reason := None\<rparr>)"

definition advance_to_anchored :: "commitment_anchor \<Rightarrow> bool store_eff" where
  "advance_to_anchored a =
     (if ca_ots_proof a = None \<or> ca_git_commit a = None then throw AnchorIncompleteError
      else bnd (upsert_anchor a) (\<lambda>_.
             move_run (ca_run_id a) (\<lambda>s. s = COMMITTED) (\<lambda>r. r\<lparr>rr_status := ANCHORED\<rparr>)))"

definition anchors_awaiting_confirmation :: "db \<Rightarrow> commitment_anchor list" where
  "anchors_awaiting_confirmation d =
     sort_key ca_anchored_at
       (filter (\<lambda>a. ca_verified_at a = None \<and> ca_ots_proof a \<noteq> None) (db_anchors d))"

section \<open>Halts\<close>

definition HALT_REQUEST_VERSION :: string where
  "HALT_REQUEST_VERSION = ''halt_request_v1''"

definition halt_request_key :: "halt_request \<Rightarrow> uuid \<times> kill_trigger" where
  "halt_request_key q = (hq_run_id q, hq_trigger q)"

text \<open>The columns that are compared: everything but the key and \<open>ingested_at\<close>.\<close>

definition halt_request_payload :: "halt_request \<Rightarrow> instant \<times> halt_request_status \<times> instant \<times> string" where
  "halt_request_payload q = (hq_tau q, hq_status q, hq_requested_at q, hq_source_version q)"

definition insert_halt_reference_requests :: "halt_request list \<Rightarrow> nat store_eff" where
  "insert_halt_reference_requests qs d =
     (case insert_immutable halt_request_key halt_request_payload (db_halt_requests d) qs of
        None \<Rightarrow> (Inl ImmutableConflictError, d)
      | Some (n, t) \<Rightarrow>
          if list_all (\<lambda>q. has_run d (hq_run_id q)) t then (Inr n, d\<lparr>db_halt_requests := t\<rparr>)
          else (Inl IntegrityError, d))"

definition halt_request_of :: "kill_switch_event \<Rightarrow> halt_request" where
  "halt_request_of e =
     \<lparr>hq_run_id = ke_run_id e, hq_trigger = ke_trigger e, hq_tau = ke_triggered_at e,
      hq_status = SYMBOLS_PENDING, hq_requested_at = ke_triggered_at e,
      hq_source_version = HALT_REQUEST_VERSION\<rparr>"

definition record_halt :: "kill_switch_event \<Rightarrow> bool store_eff" where
  "record_halt e =
     bnd (insert_kill_switch_events [e]) (\<lambda>_.
     bnd (insert_halt_reference_requests [halt_request_of e]) (\<lambda>_.
     move_run (ke_run_id e) (\<lambda>s. s \<in> set HALTABLE)
       (\<lambda>r. r\<lparr>rr_status := PARTIAL, rr_status_reason := Some (halt_reason (ke_trigger e)),
              rr_ended_at := Some (ke_triggered_at e)\<rparr>)))"

section \<open>Claims and resets\<close>

definition same_job :: "run_mode \<Rightarrow> instant \<Rightarrow> string \<Rightarrow> run_record \<Rightarrow> bool" where
  "same_job mode as_of cfg r \<longleftrightarrow> rr_mode r = mode \<and> rr_as_of r = as_of \<and> rr_config_hash r = cfg"

definition claim_run ::
  "run_mode \<Rightarrow> instant \<Rightarrow> string \<Rightarrow> uuid \<Rightarrow> instant \<Rightarrow> bool \<Rightarrow> (run_record \<times> bool) store_eff" where
  "claim_run mode as_of cfg rid started fresh =
     bnd (query (\<lambda>d. sort_key (\<lambda>r. - rr_started_at r) (filter (same_job mode as_of cfg) (db_runs d)))) (\<lambda>runs.
       case find (\<lambda>r. rr_status r \<in> set ACTIVE) runs of
         Some r \<Rightarrow> ret (r, False)
       | None \<Rightarrow>
           if \<not> fresh \<and> list_ex (\<lambda>r. startswith (case rr_status_reason r of None \<Rightarrow> [] | Some s \<Rightarrow> s)
                                      HALT_REASON_PREFIX) runs
           then throw RunHaltedError
           else let run = \<lparr>rr_run_id = rid, rr_mode = mode, rr_as_of = as_of, rr_config_hash = cfg,
                    rr_status = PENDING, rr_started_at = started, rr_ended_at = None,
                    rr_status_reason = None, rr_total_cost_usd = 0\<rparr>
                in bnd (insert_run run) (\<lambda>_. ret (run, True)))"

definition list_runs :: "db \<Rightarrow> run_mode \<Rightarrow> run_status list \<Rightarrow> run_record list" where
  "list_runs d mode statuses =
     sort_key (\<lambda>r. (rr_as_of r, rr_started_at r))
       (filter (\<lambda>r. rr_mode r = mode \<and> rr_status r \<in> set statuses) (db_runs d))"

text \<open>The evidence that makes a run immutable.\<close>

definition has_evidence :: "db \<Rightarrow> uuid \<Rightarrow> bool" where
  "has_evidence d rid \<longleftrightarrow>
     has_key dc_run_id (db_commitments d) rid \<or> has_key ca_run_id (db_anchors d) rid \<or>
     has_key er_run_id (db_orders d) rid \<or> has_key ke_run_id (db_events d) rid"

definition cleared_rows :: "db \<Rightarrow> uuid \<Rightarrow> verdict_record list \<times> decision_row list \<times> portfolio_snapshot list" where
  "cleared_rows d rid =
     (filter (\<lambda>r. verdict_run_id (vr_verdict r) = rid) (db_verdicts d),
      filter (\<lambda>r. dr_run_id r = rid) (db_decisions d),
      filter (\<lambda>s. ps_run_id s = rid) (db_snapshots d))"

definition reset_run :: "uuid \<Rightarrow> string \<Rightarrow> string \<Rightarrow> instant \<Rightarrow> (nat \<times> nat \<times> nat) store_eff" where
  "reset_run rid actor reason now d =
     (case load_run d rid of
        None \<Rightarrow> (Inl ResetRefusedError, d)
      | Some row \<Rightarrow>
          if has_evidence d rid then (Inl ResetRefusedError, d)
          else case cleared_rows d rid of (vs, cs, ss) \<Rightarrow>
            (Inr (length vs, length cs, length ss),
             d\<lparr>db_resets := db_resets d @
                 [\<lparr>rs_run_id = rid, rs_reset_at = now, rs_actor = actor, rs_reason = reason,
                   rs_prior_status = rr_status row, rs_verdicts = vs, rs_decisions = cs, rs_snapshots = ss\<rparr>],
               db_verdicts := filter (\<lambda>r. verdict_run_id (vr_verdict r) \<noteq> rid) (db_verdicts d),
               db_decisions := filter (\<lambda>r. dr_run_id r \<noteq> rid) (db_decisions d),
               db_snapshots := filter (\<lambda>s. ps_run_id s \<noteq> rid) (db_snapshots d),
               db_runs := update_where (\<lambda>r. rr_run_id r = rid)
                 (\<lambda>r. r\<lparr>rr_status := PENDING, rr_status_reason := None, rr_ended_at := None\<rparr>)
                 (db_runs d)\<rparr>))"

section \<open>Orders\<close>

definition load_open_executions :: "db \<Rightarrow> uuid \<Rightarrow> execution_record list" where
  "load_open_executions d rid =
     sort_key er_submitted_at
       (filter (\<lambda>r. er_run_id r = rid \<and> er_status r \<notin> TERMINAL_ORDER_STATUSES) (db_orders d))"

definition run_ids_with_open_orders :: "db \<Rightarrow> uuid list" where
  "run_ids_with_open_orders d =
     sort (remdups (map er_run_id (filter (\<lambda>r. er_status r \<notin> TERMINAL_ORDER_STATUSES) (db_orders d))))"

definition overwrite_order :: "execution_record \<Rightarrow> execution_record \<Rightarrow> execution_record" where
  "overwrite_order new stored =
     stored\<lparr>er_filled_qty := er_filled_qty new, er_status := er_status new,
       er_fill_price := er_fill_price new, er_slippage_bps := er_slippage_bps new,
       er_filled_at := er_filled_at new, er_submitted_at := er_submitted_at new\<rparr>"

definition upsert_execution_record :: "execution_record \<Rightarrow> unit store_eff" where
  "upsert_execution_record r d =
     (if has_key er_broker_order_id (db_orders d) (er_broker_order_id r)
      then (Inr (), d\<lparr>db_orders := update_where (\<lambda>s. er_broker_order_id s = er_broker_order_id r)
                                    (overwrite_order r) (db_orders d)\<rparr>)
      else if \<not> has_run d (er_run_id r) \<or> has_key er_client_order_id (db_orders d) (er_client_order_id r)
      then (Inl IntegrityError, d)
      else (Inr (), d\<lparr>db_orders := db_orders d @ [r]\<rparr>))"

definition upsert_execution_records :: "execution_record list \<Rightarrow> unit store_eff" where
  "upsert_execution_records = for_each upsert_execution_record"

definition load_execution_record :: "db \<Rightarrow> string \<Rightarrow> execution_record option" where
  "load_execution_record d cid = row_of er_client_order_id (db_orders d) cid"

section \<open>The committed material read back\<close>

definition horizon_of :: "int \<Rightarrow> horizon option" where
  "horizon_of n = find (\<lambda>h. horizon_days h = n) all_horizons"

definition valid_decision_record :: "committee_decision_record \<Rightarrow> bool" where
  "valid_decision_record r \<longleftrightarrow>
     valid_committee_decision (cdr_decision r) \<and> opt_all (\<lambda>s. length s \<le> 4000) (cdr_rationale r)"

definition decision_from_row :: "run_record \<Rightarrow> decision_row \<Rightarrow> integrity_error + committee_decision_record" where
  "decision_from_row run r =
     (case dr_entity_token r of
        None \<Rightarrow> Inl (MaterialDefectError DECISION_ENTITY_TOKEN_MISSING)
      | Some token \<Rightarrow>
          (case horizon_of (dr_horizon r) of
             None \<Rightarrow> Inl (MaterialDefectError DECISION_ROW_INVALID)
           | Some h \<Rightarrow>
               let c = \<lparr>cdr_decision =
                     \<lparr>dec_run_id = rr_run_id run, dec_security_id = dr_security_id r, dec_entity_token = token,
                      dec_as_of = rr_as_of run, dec_horizon_days = h, dec_pooled_p = dr_pooled_p r,
                      dec_dispersion = dr_dispersion r, dec_agent_weights = dr_weights r,
                      dec_bear_severity = dr_bear_severity r, dec_target_weight = dr_target_weight r\<rparr>,
                     cdr_pooled_logit = dr_pooled_logit r, cdr_sizing_mode = dr_sizing_mode r,
                     cdr_cio_action = dr_cio_action r, cdr_rationale = dr_rationale r\<rparr>
               in if valid_decision_record c then Inr c else Inl (MaterialDefectError DECISION_ROW_INVALID)))"

definition decisions_from_rows ::
  "run_record \<Rightarrow> decision_row list \<Rightarrow> integrity_error + committee_decision_record list" where
  "decisions_from_rows run rows = mapr (decision_from_row run) rows"

definition decision_rows :: "db \<Rightarrow> uuid \<Rightarrow> decision_row list" where
  "decision_rows d rid =
     sort_key (\<lambda>r. (dr_security_id r, dr_horizon r)) (filter (\<lambda>r. dr_run_id r = rid) (db_decisions d))"

definition load_decisions :: "db \<Rightarrow> run_record \<Rightarrow> integrity_error + committee_decision_record list" where
  "load_decisions d run = decisions_from_rows run (decision_rows d (rr_run_id run))"

definition load_commitment_material :: "db \<Rightarrow> uuid \<Rightarrow> integrity_error + commitment_material option" where
  "load_commitment_material d rid =
     (case (load_run d rid, load_commitment d rid) of
        (Some run, Some commitment) \<Rightarrow>
          (case load_snapshot d rid of
             None \<Rightarrow> Inl CommitmentIntegrityError
           | Some snapshot \<Rightarrow>
               if \<not> valid_snapshot snapshot then Inl CommitmentIntegrityError
               else bindr (load_decisions d run) (\<lambda>decisions.
                 Inr (Some \<lparr>cm_run = run, cm_decisions = decisions, cm_snapshot = snapshot,
                   cm_stored_sha256 = dc_sha256 commitment, cm_committed_at = dc_committed_at commitment,
                   cm_anchor = load_anchor d rid\<rparr>)))
      | _ \<Rightarrow> Inr None)"

end
