(* ===== verification/Sink.thy ===== *)
theory Sink
  imports Store Executor
begin

text \<open>
  The only writer of run outputs, \<open>orchestration/sink.py\<close>: every method is one transaction on the
  store. What the database keeps whatever is called in whatever order is stated as a relation
  \<open>evolves\<close> between the states before and after, and as invariants of the reachable databases.
\<close>

section \<open>The methods\<close>

definition flush_body :: "step_artifacts \<Rightarrow> unit store_eff" where
  "flush_body s =
     (bnd (upsert_run (sa_run s)) (\<lambda>_.
      bnd (insert_agent_verdicts (sa_verdicts s)) (\<lambda>_.
      bnd (insert_committee_decisions (sa_decisions s)) (\<lambda>_.
      bnd (case sa_portfolio s of None \<Rightarrow> ret 0 | Some p \<Rightarrow> insert_portfolio_snapshot p) (\<lambda>_.
      bnd (insert_dlq_records (sa_dlq s)) (\<lambda>_.
      bnd (insert_kill_switch_events (sa_kill_switch s)) (\<lambda>_.
      case sa_commitment s of None \<Rightarrow> ret () | Some c \<Rightarrow> bnd (insert_commitment c) (\<lambda>_. ret ()))))))))"

definition flush_step :: "step_artifacts \<Rightarrow> unit store_eff" where
  "flush_step s = transaction (flush_body s)"

definition sink_record_dlq :: "dlq_record list \<Rightarrow> nat store_eff" where
  "sink_record_dlq rs = transaction (insert_dlq_records rs)"

definition sink_record_halt :: "kill_switch_event \<Rightarrow> bool store_eff" where
  "sink_record_halt e = transaction (record_halt e)"

definition sink_record_anchor :: "commitment_anchor \<Rightarrow> unit store_eff" where
  "sink_record_anchor a = transaction (upsert_anchor a)"

definition sink_mark_anchored :: "commitment_anchor \<Rightarrow> bool store_eff" where
  "sink_mark_anchored a = transaction (advance_to_anchored a)"

definition sink_claim_run ::
  "run_mode \<Rightarrow> instant \<Rightarrow> string \<Rightarrow> uuid \<Rightarrow> instant \<Rightarrow> bool \<Rightarrow> (run_record \<times> bool) store_eff" where
  "sink_claim_run mode as_of cfg rid started fresh = transaction (claim_run mode as_of cfg rid started fresh)"

text \<open>\<open>got\<close>: whether the advisory lock of the run was free.\<close>

definition sink_reset_run ::
  "bool \<Rightarrow> uuid \<Rightarrow> string \<Rightarrow> string \<Rightarrow> instant \<Rightarrow> (nat \<times> nat \<times> nat) store_eff" where
  "sink_reset_run got rid actor reason now =
     (if \<not> got then throw ResetRefusedError else transaction (reset_run rid actor reason now))"

definition sink_record_executions :: "execution_record list \<Rightarrow> unit store_eff" where
  "sink_record_executions rs = transaction (upsert_execution_records rs)"

definition sink_mark_executed :: "uuid \<Rightarrow> instant \<Rightarrow> bool store_eff" where
  "sink_mark_executed rid ended = transaction (advance_to_executed rid ended)"

datatype sink_call =
    Flush step_artifacts
  | RecordDlq "dlq_record list"
  | RecordHalt kill_switch_event
  | RecordAnchor commitment_anchor
  | MarkAnchored commitment_anchor
  | ClaimRun run_mode instant string uuid instant bool
  | ResetRun bool uuid string string instant
  | RecordExecutions "execution_record list"
  | MarkExecuted uuid instant

fun after_call :: "sink_call \<Rightarrow> db \<Rightarrow> db" where
  "after_call (Flush s) d = snd (flush_step s d)"
| "after_call (RecordDlq rs) d = snd (sink_record_dlq rs d)"
| "after_call (RecordHalt e) d = snd (sink_record_halt e d)"
| "after_call (RecordAnchor a) d = snd (sink_record_anchor a d)"
| "after_call (MarkAnchored a) d = snd (sink_mark_anchored a d)"
| "after_call (ClaimRun m t c r s f) d = snd (sink_claim_run m t c r s f d)"
| "after_call (ResetRun g r a w t) d = snd (sink_reset_run g r a w t d)"
| "after_call (RecordExecutions rs) d = snd (sink_record_executions rs d)"
| "after_call (MarkExecuted r t) d = snd (sink_mark_executed r t d)"

section \<open>Well-formed databases\<close>

definition verdict_key :: "verdict_record \<Rightarrow> uuid \<times> int \<times> agent_name" where
  "verdict_key r = (verdict_run_id (vr_verdict r), vr_security_id r, verdict_agent (vr_verdict r))"

definition db_keys :: "db \<Rightarrow> bool" where
  "db_keys d \<longleftrightarrow>
     keyed rr_run_id (db_runs d) \<and> keyed verdict_key (db_verdicts d) \<and>
     keyed decision_row_key (db_decisions d) \<and> keyed ps_run_id (db_snapshots d) \<and>
     keyed (\<lambda>r. r) (db_dlq d) \<and> keyed (\<lambda>e. e) (db_events d) \<and> keyed dc_run_id (db_commitments d) \<and>
     keyed ca_run_id (db_anchors d) \<and> keyed er_broker_order_id (db_orders d) \<and>
     keyed er_client_order_id (db_orders d) \<and> keyed halt_request_key (db_halt_requests d)"

definition db_fks :: "db \<Rightarrow> bool" where
  "db_fks d \<longleftrightarrow>
     (\<forall>c \<in> set (db_commitments d). has_run d (dc_run_id c)) \<and>
     (\<forall>e \<in> set (db_events d). has_run d (ke_run_id e)) \<and>
     (\<forall>r \<in> set (db_orders d). has_run d (er_run_id r)) \<and>
     (\<forall>a \<in> set (db_anchors d). \<exists>c \<in> set (db_commitments d).
        dc_run_id c = ca_run_id a \<and> dc_sha256 c = ca_sha256 a)"

definition db_wf :: "db \<Rightarrow> bool" where
  "db_wf d \<longleftrightarrow> db_keys d \<and> db_fks d"

section \<open>How a database may change\<close>

definition same_job_as :: "run_record \<Rightarrow> run_record \<Rightarrow> bool" where
  "same_job_as r s \<longleftrightarrow>
     rr_run_id s = rr_run_id r \<and> rr_mode s = rr_mode r \<and> rr_as_of s = rr_as_of r \<and>
     rr_config_hash s = rr_config_hash r \<and> rr_started_at s = rr_started_at r"

definition same_order :: "execution_record \<Rightarrow> execution_record \<Rightarrow> bool" where
  "same_order r s \<longleftrightarrow>
     s = r\<lparr>er_filled_qty := er_filled_qty s, er_status := er_status s, er_fill_price := er_fill_price s,
           er_slippage_bps := er_slippage_bps s, er_filled_at := er_filled_at s,
           er_submitted_at := er_submitted_at s\<rparr>"

definition upgraded :: "commitment_anchor \<Rightarrow> commitment_anchor \<Rightarrow> bool" where
  "upgraded a b \<longleftrightarrow>
     ca_run_id b = ca_run_id a \<and> ca_sha256 b = ca_sha256 a \<and> ca_anchored_at b = ca_anchored_at a \<and>
     (ca_ots_proof a \<noteq> None \<longrightarrow> ca_ots_proof b \<noteq> None) \<and>
     (ca_git_commit a \<noteq> None \<longrightarrow> ca_git_commit b \<noteq> None) \<and>
     (ca_verified_at a \<noteq> None \<longrightarrow> ca_verified_at b \<noteq> None)"

text \<open>A run keeps its identity; once advanced it stays advanced or is halted; a halt is final.\<close>

definition run_moves :: "run_record \<Rightarrow> run_record \<Rightarrow> bool" where
  "run_moves r s \<longleftrightarrow>
     same_job_as r s \<and>
     (rr_status r \<in> set ADVANCED \<longrightarrow> rr_status s \<in> set ADVANCED \<or> run_halted s) \<and>
     (run_halted r \<longrightarrow> s = r)"

definition evolves :: "db \<Rightarrow> db \<Rightarrow> bool" where
  "evolves d d' \<longleftrightarrow>
     (\<forall>r \<in> set (db_runs d). \<exists>s \<in> set (db_runs d'). run_moves r s) \<and>
     set (db_commitments d) \<subseteq> set (db_commitments d') \<and> set (db_events d) \<subseteq> set (db_events d') \<and>
     set (db_dlq d) \<subseteq> set (db_dlq d') \<and> set (db_resets d) \<subseteq> set (db_resets d') \<and>
     set (db_halt_requests d) \<subseteq> set (db_halt_requests d') \<and>
     (\<forall>a \<in> set (db_anchors d). \<exists>b \<in> set (db_anchors d'). upgraded a b) \<and>
     (\<forall>r \<in> set (db_orders d). \<exists>s \<in> set (db_orders d'). same_order r s)"

lemma run_moves_refl [simp]: "run_moves r r"
  by (simp add: run_moves_def same_job_as_def)

lemma same_order_refl [simp]: "same_order r r"
  by (simp add: same_order_def)

lemma upgraded_refl [simp]: "upgraded a a"
  by (simp add: upgraded_def)

lemma run_moves_trans: "run_moves r s \<Longrightarrow> run_moves s t \<Longrightarrow> run_moves r t"
  unfolding run_moves_def same_job_as_def by (metis (no_types))

lemma same_order_trans: "same_order r s \<Longrightarrow> same_order s t \<Longrightarrow> same_order r t"
  unfolding same_order_def by (cases r; cases s; cases t; simp)

lemma upgraded_trans: "upgraded a b \<Longrightarrow> upgraded b c \<Longrightarrow> upgraded a c"
  by (auto simp: upgraded_def)

lemma evolves_refl [simp]: "evolves d d"
  unfolding evolves_def by (auto intro: bexI [of _ "_"] run_moves_refl same_order_refl upgraded_refl)

lemma evolves_trans:
  assumes "evolves d e" and "evolves e f"
  shows "evolves d f"
proof -
  have "\<exists>s \<in> set (db_runs f). run_moves r s" if "r \<in> set (db_runs d)" for r
    using assms that unfolding evolves_def by (meson run_moves_trans)
  moreover have "\<exists>b \<in> set (db_anchors f). upgraded a b" if "a \<in> set (db_anchors d)" for a
    using assms that unfolding evolves_def by (meson upgraded_trans)
  moreover have "\<exists>s \<in> set (db_orders f). same_order r s" if "r \<in> set (db_orders d)" for r
    using assms that unfolding evolves_def by (meson same_order_trans)
  ultimately show ?thesis using assms unfolding evolves_def by auto
qed

text \<open>
  An operation is sound if from a well-formed database it only evolves it and keeps it well-formed,
  when it succeeds.
\<close>

definition sound :: "'a store_eff \<Rightarrow> bool" where
  "sound m \<longleftrightarrow> (\<forall>d x d'. m d = (Inr x, d') \<longrightarrow> db_wf d \<longrightarrow> db_wf d' \<and> evolves d d')"

lemma soundI: "(\<And>d x d'. m d = (Inr x, d') \<Longrightarrow> db_wf d \<Longrightarrow> db_wf d' \<and> evolves d d') \<Longrightarrow> sound m"
  unfolding sound_def by blast

lemma sound_ret: "sound (ret x)" and sound_throw: "sound (throw e)" and sound_query: "sound (query f)"
  by (auto simp: sound_def query_def)

lemma sound_bnd:
  assumes "sound m" and "\<And>x. sound (f x)"
  shows "sound (bnd m f)"
proof (rule soundI)
  fix d x d'
  assume run: "bnd m f d = (Inr x, d')" and wf: "db_wf d"
  then obtain y e where "m d = (Inr y, e)" "f y e = (Inr x, d')"
    by (auto simp: bnd_def split: prod.splits sum.splits)
  with assms wf show "db_wf d' \<and> evolves d d'"
    unfolding sound_def by (meson evolves_trans)
qed

lemma sound_transaction: "sound m \<Longrightarrow> sound (transaction m)"
  by (simp add: sound_def transaction_Inr)

lemma sound_if: "sound m \<Longrightarrow> sound n \<Longrightarrow> sound (if b then m else n)"
  by simp

lemma sound_for_each: "(\<And>x. sound (f x)) \<Longrightarrow> sound (for_each f xs)"
  by (induction xs) (auto intro: sound_ret sound_bnd simp del: ret_apply)

lemma sound_after: "sound m \<Longrightarrow> db_wf d \<Longrightarrow> db_wf (snd (transaction m d)) \<and> evolves d (snd (transaction m d))"
  unfolding sound_def transaction_def by (auto split: prod.splits sum.splits)

section \<open>The statements are sound\<close>

lemma evolves_runs:
  assumes "\<And>r. r \<in> set (db_runs d) \<Longrightarrow> \<exists>s \<in> set (db_runs d'). run_moves r s"
    and "db_anchors d' = db_anchors d" and "db_orders d' = db_orders d"
    and "set (db_commitments d) \<subseteq> set (db_commitments d')" and "set (db_events d) \<subseteq> set (db_events d')"
    and "set (db_dlq d) \<subseteq> set (db_dlq d')" and "set (db_resets d) \<subseteq> set (db_resets d')"
    and "set (db_halt_requests d) \<subseteq> set (db_halt_requests d')"
  shows "evolves d d'"
  using assms unfolding evolves_def by (auto intro: upgraded_refl same_order_refl)

lemma evolves_same_runs:
  assumes "db_runs d' = db_runs d" and "db_anchors d' = db_anchors d" and "db_orders d' = db_orders d"
    and "set (db_commitments d) \<subseteq> set (db_commitments d')" and "set (db_events d) \<subseteq> set (db_events d')"
    and "set (db_dlq d) \<subseteq> set (db_dlq d')" and "set (db_resets d) \<subseteq> set (db_resets d')"
    and "set (db_halt_requests d) \<subseteq> set (db_halt_requests d')"
  shows "evolves d d'"
proof (rule evolves_runs [OF _ assms(2-8)])
  show "\<exists>s \<in> set (db_runs d'). run_moves r s" if "r \<in> set (db_runs d)" for r
    using that assms(1) run_moves_refl by metis
qed

lemma halted_not_advanced: "run_halted r \<Longrightarrow> rr_status r \<notin> set ADVANCED"
  by (simp add: run_halted_def ADVANCED_def)

lemma sound_update_runs:
  assumes "\<And>r. p r \<Longrightarrow> run_moves r (f r)"
  shows "sound (\<lambda>d. (Inr (g d), d\<lparr>db_runs := update_where p f (db_runs d)\<rparr>))"
proof (rule soundI)
  fix d x d'
  assume "(Inr (g d), d\<lparr>db_runs := update_where p f (db_runs d)\<rparr>) = (Inr x, d')" and wf: "db_wf d"
  then have d': "d' = d\<lparr>db_runs := update_where p f (db_runs d)\<rparr>" by simp
  let ?h = "\<lambda>r. if p r then f r else r"
  have key: "map rr_run_id (update_where p f (db_runs d)) = map rr_run_id (db_runs d)"
    using assms by (auto simp: update_where_def run_moves_def same_job_as_def)
  then have run: "has_run d' rid = has_run d rid" for rid by (simp add: has_run_def has_key_def d')
  have "keyed rr_run_id (db_runs d')" using wf key by (simp add: d' db_wf_def db_keys_def keyed_def)
  then have "db_wf d'" using wf run by (auto simp: db_wf_def db_keys_def db_fks_def d')
  moreover have "evolves d d'"
  proof (rule evolves_runs)
    fix r assume "r \<in> set (db_runs d)"
    then have "?h r \<in> set (db_runs d')" by (simp add: d' update_where_def)
    moreover have "run_moves r (?h r)" using assms by simp
    ultimately show "\<exists>s \<in> set (db_runs d'). run_moves r s" by blast
  qed (simp_all add: d')
  ultimately show "db_wf d' \<and> evolves d d'" by simp
qed

lemma upsert_moves: "rr_run_id r = rr_run_id run \<Longrightarrow> \<not> upsert_blocked r run \<Longrightarrow>
    rr_status run \<in> set ADVANCED \<union> set REGRESSIVE \<or> rr_status r \<notin> set ADVANCED \<Longrightarrow>
    run_moves r (overwrite_run run r)"
  by (auto simp: run_moves_def same_job_as_def overwrite_run_def upsert_blocked_def)

lemma db_wf_add_run:
  assumes "db_wf d" and "\<not> has_run d (rr_run_id run)"
  shows "db_wf (d\<lparr>db_runs := db_runs d @ [run]\<rparr>) \<and> evolves d (d\<lparr>db_runs := db_runs d @ [run]\<rparr>)"
proof -
  let ?e = "d\<lparr>db_runs := db_runs d @ [run]\<rparr>"
  have run: "has_run d rid \<Longrightarrow> has_run ?e rid" for rid by (simp add: has_run_def)
  have "keyed rr_run_id (db_runs ?e)"
    using assms by (auto simp: db_wf_def db_keys_def keyed_def has_run_def has_key_def)
  then have "db_wf ?e" using assms(1) run by (auto simp: db_wf_def db_keys_def db_fks_def)
  moreover have "evolves d ?e"
    by (rule evolves_runs) (auto intro: run_moves_refl)
  ultimately show ?thesis by simp
qed

text \<open>Statuses before the commitment are never written over an advanced run by the pipeline.\<close>

definition flushable :: "run_record \<Rightarrow> bool" where
  "flushable r \<longleftrightarrow> rr_status r \<in> set ADVANCED \<union> set REGRESSIVE"

lemma sound_upsert_run: "flushable run \<Longrightarrow> sound (upsert_run run)"
proof -
  assume fl: "flushable run"
  let ?upd = "\<lambda>d. (Inr (), d\<lparr>db_runs := update_where
      (\<lambda>r. rr_run_id r = rr_run_id run \<and> \<not> upsert_blocked r run) (overwrite_run run) (db_runs d)\<rparr>)"
  have upd: "sound ?upd"
  proof (rule sound_update_runs)
    fix r assume "rr_run_id r = rr_run_id run \<and> \<not> upsert_blocked r run"
    with fl show "run_moves r (overwrite_run run r)"
      unfolding flushable_def by (intro upsert_moves) blast+
  qed
  show ?thesis
  proof (rule soundI)
    fix d x d'
    assume run: "upsert_run run d = (Inr x, d')" and wf: "db_wf d"
    show "db_wf d' \<and> evolves d d'"
    proof (cases "has_run d (rr_run_id run)")
      case True
      with run have "?upd d = (Inr x, d')" by (simp add: upsert_run_def)
      from upd [unfolded sound_def, rule_format, OF this wf] show ?thesis .
    next
      case False
      with run db_wf_add_run [OF wf False] show ?thesis by (auto simp: upsert_run_def)
    qed
  qed
qed

lemma sound_insert_rows:
  assumes "\<And>d. db_wf d \<Longrightarrow> keyed key (get d)"
    and "\<And>d t. db_wf d \<Longrightarrow> keyed key t \<Longrightarrow> set (get d) \<subseteq> set t \<Longrightarrow> list_all (\<lambda>r. has_run d (rid r)) t \<Longrightarrow>
           db_wf (put t d) \<and> evolves d (put t d)"
  shows "sound (insert_rows key rid get put rows)"
proof (rule soundI)
  fix d x d'
  assume run: "insert_rows key rid get put rows d = (Inr x, d')" and wf: "db_wf d"
  obtain n t where ins: "insert_new key (get d) rows = (n, t)" by fastforce
  with run have t: "list_all (\<lambda>r. has_run d (rid r)) t" and d': "d' = put t d"
    by (auto simp: insert_rows_def split: if_splits)
  have "keyed key t" by (rule insert_new_keyed [OF ins assms(1) [OF wf]])
  moreover have "set (get d) \<subseteq> set t" using insert_new_prefix [OF ins] by auto
  ultimately show "db_wf d' \<and> evolves d d'" unfolding d' using assms(2) [OF wf] t by blast
qed

lemma sound_insert_agent_verdicts: "sound (insert_agent_verdicts vs)"
  unfolding insert_agent_verdicts_def verdict_key_def [symmetric]
  by (rule sound_insert_rows)
    (auto simp: db_wf_def db_keys_def db_fks_def has_run_def intro!: evolves_same_runs)

lemma sound_insert_committee_decisions: "sound (insert_committee_decisions ds)"
  unfolding insert_committee_decisions_def
  by (rule sound_insert_rows)
    (auto simp: db_wf_def db_keys_def db_fks_def has_run_def intro!: evolves_same_runs)

lemma sound_insert_portfolio_snapshot: "sound (insert_portfolio_snapshot s)"
  unfolding insert_portfolio_snapshot_def
  by (rule sound_insert_rows)
    (auto simp: db_wf_def db_keys_def db_fks_def has_run_def intro!: evolves_same_runs)

lemma sound_insert_dlq_records: "sound (insert_dlq_records rs)"
  unfolding insert_dlq_records_def
  by (rule sound_insert_rows)
    (auto simp: db_wf_def db_keys_def db_fks_def has_run_def intro!: evolves_same_runs)

lemma sound_insert_kill_switch_events: "sound (insert_kill_switch_events es)"
  unfolding insert_kill_switch_events_def
  by (rule sound_insert_rows)
    (auto simp: db_wf_def db_keys_def db_fks_def has_run_def list_all_iff intro!: evolves_same_runs)

lemma sound_insert_commitment: "sound (insert_commitment c)"
proof -
  have "sound (insert_rows dc_run_id dc_run_id db_commitments (\<lambda>t d. d\<lparr>db_commitments := t\<rparr>) [c])"
    by (rule sound_insert_rows)
      (auto simp: db_wf_def db_keys_def db_fks_def has_run_def list_all_iff intro!: evolves_same_runs, blast)
  then show ?thesis
    unfolding insert_commitment_def
    by (intro sound_bnd sound_if sound_query)
      (auto simp del: ret_apply throw_apply intro: sound_ret sound_throw split: option.split)
qed

lemma upgraded_upgrade: "ca_run_id b = ca_run_id a \<Longrightarrow> ca_sha256 b = ca_sha256 a \<Longrightarrow> upgraded b (upgrade_anchor a b)"
  by (auto simp: upgraded_def upgrade_anchor_def coalesce_def split: option.splits)

lemma sound_upsert_anchor: "sound (upsert_anchor a)"
proof (rule soundI)
  fix d x d'
  assume run: "upsert_anchor a d = (Inr x, d')" and wf: "db_wf d"
  show "db_wf d' \<and> evolves d d'"
  proof (cases "row_of ca_run_id (db_anchors d) (ca_run_id a)")
    case None
    with run have c: "has_key (\<lambda>c. (dc_run_id c, dc_sha256 c)) (db_commitments d) (ca_run_id a, ca_sha256 a)"
      and d': "d' = d\<lparr>db_anchors := db_anchors d @ [a]\<rparr>"
      by (auto simp: upsert_anchor_def split: if_splits)
    from None have "keyed ca_run_id (db_anchors d')"
      using wf by (auto simp: row_of_None d' db_wf_def db_keys_def keyed_def has_key_def)
    with wf c have "db_wf d'"
      by (auto simp: db_wf_def db_keys_def db_fks_def has_run_def d' has_key_iff)
    moreover have "evolves d d'"
      unfolding evolves_def d' using run_moves_refl same_order_refl upgraded_refl by fastforce
    ultimately show ?thesis by simp
  next
    case (Some stored)
    let ?p = "\<lambda>s. ca_run_id s = ca_run_id a" and ?f = "upgrade_anchor a"
    from Some run have sha: "ca_sha256 stored = ca_sha256 a"
      and d': "d' = d\<lparr>db_anchors := update_where ?p ?f (db_anchors d)\<rparr>"
      by (auto simp: upsert_anchor_def split: if_splits)
    from wf have k: "keyed ca_run_id (db_anchors d)" by (simp add: db_wf_def db_keys_def)
    have id: "ca_run_id (?f s) = ca_run_id s" "ca_sha256 (?f s) = ca_sha256 s" for s
      by (simp_all add: upgrade_anchor_def)
    have up: "upgraded s (if ?p s then ?f s else s)" if "s \<in> set (db_anchors d)" for s
    proof (cases "?p s")
      case True
      with row_of_SomeD [OF Some] that k have "s = stored" by (auto intro: keyed_unique)
      with sha True show ?thesis by (simp add: upgraded_upgrade)
    qed simp
    have "keyed ca_run_id (db_anchors d')"
      unfolding d' using k id keyed_update_where [of ca_run_id ?f ?p "db_anchors d"] by simp
    moreover have "\<exists>c \<in> set (db_commitments d'). dc_run_id c = ca_run_id b \<and> dc_sha256 c = ca_sha256 b"
      if "b \<in> set (db_anchors d')" for b
    proof -
      from that obtain s where s: "s \<in> set (db_anchors d)" "b = (if ?p s then ?f s else s)"
        by (auto simp: d' set_update_where)
      then have "ca_run_id b = ca_run_id s" "ca_sha256 b = ca_sha256 s" by (auto simp: id)
      with wf s(1) show ?thesis by (simp add: db_wf_def db_fks_def d')
    qed
    ultimately have "db_wf d'"
      using wf by (simp add: db_wf_def db_keys_def db_fks_def has_run_def d')
    moreover have "evolves d d'"
    proof -
      have "\<exists>b \<in> set (db_anchors d'). upgraded s b" if "s \<in> set (db_anchors d)" for s
      proof (rule bexI)
        show "upgraded s (if ?p s then ?f s else s)" by (rule up [OF that])
        show "(if ?p s then ?f s else s) \<in> set (db_anchors d')"
          using in_update_where [OF that, of ?p ?f] by (simp add: d')
      qed
      then show ?thesis
        unfolding evolves_def by (simp add: d') (meson run_moves_refl same_order_refl)
    qed
    ultimately show ?thesis by simp
  qed
qed

lemma sound_move_run:
  assumes "\<And>r. from (rr_status r) \<Longrightarrow> run_moves r (f r)"
  shows "sound (move_run rid from f)"
  unfolding move_run_def [abs_def] Let_def by (rule sound_update_runs) (use assms in auto)

lemma sound_advance_to_executed: "sound (advance_to_executed rid t)"
  unfolding advance_to_executed_def
  by (rule sound_move_run) (auto simp: run_moves_def same_job_as_def ADVANCED_def run_halted_def)

lemma sound_advance_to_anchored: "sound (advance_to_anchored a)"
  unfolding advance_to_anchored_def
  by (intro sound_if sound_bnd sound_throw sound_upsert_anchor sound_move_run)
    (auto simp: run_moves_def same_job_as_def ADVANCED_def run_halted_def)

lemma sound_halt_requests: "sound (insert_halt_reference_requests qs)"
proof (rule soundI)
  fix d x d'
  assume run: "insert_halt_reference_requests qs d = (Inr x, d')" and wf: "db_wf d"
  then obtain n t where imm: "insert_immutable halt_request_key halt_request_payload (db_halt_requests d) qs = Some (n, t)"
    and d': "d' = d\<lparr>db_halt_requests := t\<rparr>"
    by (auto simp: insert_halt_reference_requests_def split: option.splits if_splits)
  note ins = insert_immutable_SomeD(1) [OF imm]
  from wf have "keyed halt_request_key t"
    by (intro insert_new_keyed [OF ins]) (simp add: db_wf_def db_keys_def)
  with wf have "db_wf d'" by (simp add: db_wf_def db_keys_def db_fks_def has_run_def d')
  moreover have "evolves d d'"
    by (rule evolves_same_runs) (use insert_new_prefix [OF ins] in \<open>auto simp: d'\<close>)
  ultimately show "db_wf d' \<and> evolves d d'" by simp
qed

lemma halt_reason_halts:
  "run_halted (r\<lparr>rr_status := PARTIAL, rr_status_reason := Some (halt_reason t), rr_ended_at := e\<rparr>)"
  by (simp add: run_halted_def halt_reason_def)

lemma sound_record_halt: "sound (record_halt e)"
  unfolding record_halt_def
  by (intro sound_bnd sound_insert_kill_switch_events sound_halt_requests sound_move_run)
    (auto simp: run_moves_def same_job_as_def HALTABLE_def halt_reason_halts, auto simp: run_halted_def)

lemma sound_insert_run: "sound (insert_run run)"
proof (rule soundI)
  fix d x d'
  assume "insert_run run d = (Inr x, d')" and wf: "db_wf d"
  then show "db_wf d' \<and> evolves d d'"
    using db_wf_add_run [OF wf, of run]
    by (cases "has_run d (rr_run_id run)") (auto simp: insert_run_def has_run_def split: if_splits)
qed

lemma sound_claim_run: "sound (claim_run mode as_of cfg rid started fresh)"
  unfolding claim_run_def Let_def
  by (intro sound_bnd sound_query)
    (auto simp del: ret_apply throw_apply intro: sound_ret sound_throw sound_bnd sound_insert_run split: option.split)

lemma same_order_overwrite: "same_order s (overwrite_order r s)"
  by (simp add: same_order_def overwrite_order_def)

lemma sound_upsert_execution_record: "sound (upsert_execution_record r)"
proof (rule soundI)
  fix d x d'
  assume run: "upsert_execution_record r d = (Inr x, d')" and wf: "db_wf d"
  let ?p = "\<lambda>s. er_broker_order_id s = er_broker_order_id r" and ?f = "overwrite_order r"
  show "db_wf d' \<and> evolves d d'"
  proof (cases "has_key er_broker_order_id (db_orders d) (er_broker_order_id r)")
    case True
    with run have d': "d' = d\<lparr>db_orders := update_where ?p ?f (db_orders d)\<rparr>"
      by (simp add: upsert_execution_record_def)
    have id: "er_run_id (?f s) = er_run_id s" "er_broker_order_id (?f s) = er_broker_order_id s"
      "er_client_order_id (?f s) = er_client_order_id s" for s
      by (simp_all add: overwrite_order_def)
    have "keyed er_broker_order_id (db_orders d')" "keyed er_client_order_id (db_orders d')"
      using wf id keyed_update_where [of er_broker_order_id ?f ?p "db_orders d"]
        keyed_update_where [of er_client_order_id ?f ?p "db_orders d"]
      by (simp_all add: d' db_wf_def db_keys_def)
    moreover have "\<forall>s \<in> set (db_orders d'). has_run d' (er_run_id s)"
      using wf id by (auto simp: d' set_update_where db_wf_def db_fks_def has_run_def)
    ultimately have "db_wf d'"
      using wf by (simp add: db_wf_def db_keys_def db_fks_def has_run_def d')
    moreover have "evolves d d'"
    proof -
      have "\<exists>t \<in> set (db_orders d'). same_order s t" if "s \<in> set (db_orders d)" for s
      proof (rule bexI)
        show "same_order s (if ?p s then ?f s else s)" by (simp add: same_order_overwrite)
        show "(if ?p s then ?f s else s) \<in> set (db_orders d')"
          using in_update_where [OF that, of ?p ?f] by (simp add: d')
      qed
      then show ?thesis
        unfolding evolves_def by (simp add: d') (meson run_moves_refl upgraded_refl)
    qed
    ultimately show ?thesis by simp
  next
    case False
    with run have new: "has_run d (er_run_id r)" "\<not> has_key er_client_order_id (db_orders d) (er_client_order_id r)"
      and d': "d' = d\<lparr>db_orders := db_orders d @ [r]\<rparr>"
      by (auto simp: upsert_execution_record_def split: if_splits)
    have "keyed er_broker_order_id (db_orders d')" "keyed er_client_order_id (db_orders d')"
      using wf False new(2) by (auto simp: d' db_wf_def db_keys_def keyed_def has_key_def)
    with wf new(1) have "db_wf d'"
      by (auto simp: db_wf_def db_keys_def db_fks_def has_run_def d')
    moreover have "evolves d d'"
      unfolding evolves_def d' using run_moves_refl same_order_refl upgraded_refl by fastforce
    ultimately show ?thesis by simp
  qed
qed

lemma sound_upsert_execution_records: "sound (upsert_execution_records rs)"
  unfolding upsert_execution_records_def by (rule sound_for_each) (rule sound_upsert_execution_record)

lemma sound_flush_body:
  assumes "flushable (sa_run s)"
  shows "sound (flush_body s)"
  unfolding flush_body_def
  by (intro sound_bnd sound_upsert_run assms sound_insert_agent_verdicts sound_insert_committee_decisions
      sound_insert_dlq_records sound_insert_kill_switch_events)
    (auto simp del: ret_apply split: option.split
      intro: sound_ret sound_insert_portfolio_snapshot sound_bnd sound_insert_commitment)

section \<open>Statuses and their evidence\<close>

definition anchored_in :: "db \<Rightarrow> uuid \<Rightarrow> bool" where
  "anchored_in d rid \<longleftrightarrow>
     (\<exists>a \<in> set (db_anchors d). ca_run_id a = rid \<and> ca_ots_proof a \<noteq> None \<and> ca_git_commit a \<noteq> None)"

definition evidenced :: "db \<Rightarrow> run_record \<Rightarrow> bool" where
  "evidenced d r \<longleftrightarrow>
     (rr_status r \<in> set ADVANCED \<longrightarrow> has_key dc_run_id (db_commitments d) (rr_run_id r)) \<and>
     (run_halted r \<longrightarrow> has_key ke_run_id (db_events d) (rr_run_id r)) \<and>
     (rr_status r = ANCHORED \<or> rr_status r = EXECUTED \<longrightarrow> anchored_in d (rr_run_id r))"

definition db_inv :: "db \<Rightarrow> bool" where
  "db_inv d \<longleftrightarrow> db_wf d \<and> (\<forall>r \<in> set (db_runs d). evidenced d r)"

lemma evidenced_evolves: "evolves d d' \<Longrightarrow> evidenced d r \<Longrightarrow> evidenced d' r"
proof -
  assume ev: "evolves d d'" and r: "evidenced d r"
  have c: "has_key dc_run_id (db_commitments d) k \<Longrightarrow> has_key dc_run_id (db_commitments d') k"
    and e: "has_key ke_run_id (db_events d) k \<Longrightarrow> has_key ke_run_id (db_events d') k" for k
    using ev unfolding evolves_def has_key_iff by blast+
  have "anchored_in d k \<Longrightarrow> anchored_in d' k" for k
    using ev unfolding evolves_def anchored_in_def upgraded_def by metis
  with c e r show "evidenced d' r" by (simp add: evidenced_def)
qed

lemma evidenced_plain: "rr_status r \<notin> set ADVANCED \<Longrightarrow> \<not> run_halted r \<Longrightarrow> evidenced d r"
  by (auto simp: evidenced_def ADVANCED_def)

text \<open>
  The steps the pipeline hands over: a committed run with its commitment, or a run that did not get
  there; a halt is recorded by its own call only.
\<close>

definition pipeline_step :: "step_artifacts \<Rightarrow> bool" where
  "pipeline_step s \<longleftrightarrow>
     valid_step_artifacts s \<and>
     (rr_status (sa_run s) = COMMITTED \<and> sa_commitment s \<noteq> None \<or>
      rr_status (sa_run s) \<in> set REGRESSIVE \<and> \<not> run_halted (sa_run s))"

fun pipeline_call :: "sink_call \<Rightarrow> bool" where
  "pipeline_call (Flush s) = pipeline_step s"
| "pipeline_call _ = True"

definition empty_db :: db where
  "empty_db = \<lparr>db_runs = [], db_verdicts = [], db_decisions = [], db_snapshots = [], db_dlq = [],
     db_events = [], db_commitments = [], db_anchors = [], db_resets = [], db_orders = [],
     db_halt_requests = []\<rparr>"

inductive reachable :: "db \<Rightarrow> bool" where
  start: "reachable empty_db"
| call: "reachable d \<Longrightarrow> pipeline_call c \<Longrightarrow> reachable (after_call c d)"

inductive_cases reachableE: "reachable d"

text \<open>The multi-row inserts leave the runs alone.\<close>

definition same_runs :: "run_record list \<Rightarrow> db \<Rightarrow> bool" where
  "same_runs R d \<longleftrightarrow> db_runs d = R"

lemma keeps_insert_rows:
  "(\<And>t d. db_runs (put t d) = db_runs d) \<Longrightarrow> keeps (same_runs R) (insert_rows key rid get put rows)"
  by (rule keepsI) (auto simp: insert_rows_def same_runs_def split: prod.splits)

lemma keeps_query: "keeps P (query f)"
  by (simp add: keeps_def query_def)

lemma keeps_insert_commitment: "keeps (same_runs R) (insert_commitment c)"
  unfolding insert_commitment_def
  by (intro keeps_bnd keeps_insert_rows keeps_if keeps_query) (auto split: option.split)

lemma keeps_outputs:
  "keeps (same_runs R)
     (bnd (insert_agent_verdicts (sa_verdicts s)) (\<lambda>_.
      bnd (insert_committee_decisions (sa_decisions s)) (\<lambda>_.
      bnd (case sa_portfolio s of None \<Rightarrow> ret 0 | Some p \<Rightarrow> insert_portfolio_snapshot p) (\<lambda>_.
      bnd (insert_dlq_records (sa_dlq s)) (\<lambda>_.
      bnd (insert_kill_switch_events (sa_kill_switch s)) (\<lambda>_.
      case sa_commitment s of None \<Rightarrow> ret () | Some c \<Rightarrow> bnd (insert_commitment c) (\<lambda>_. ret ())))))))"
  unfolding insert_agent_verdicts_def insert_committee_decisions_def insert_portfolio_snapshot_def
    insert_dlq_records_def insert_kill_switch_events_def
  by (intro keeps_bnd keeps_insert_rows)
    (auto split: option.split simp del: ret_apply
      intro!: keeps_ret keeps_bnd keeps_insert_rows keeps_insert_commitment)

lemma insert_commitment_has:
  assumes "insert_commitment c d = (Inr n, d')"
  shows "has_key dc_run_id (db_commitments d') (dc_run_id c)"
proof -
  from assms obtain m e where ins: "insert_rows dc_run_id dc_run_id db_commitments (\<lambda>t d. d\<lparr>db_commitments := t\<rparr>) [c] d = (Inr m, e)"
    and rest: "db_commitments d' = db_commitments e"
    by (auto simp: insert_commitment_def bnd_def query_def split: prod.splits sum.splits if_splits option.splits)
  from ins have "has_key dc_run_id (db_commitments e) (dc_run_id c)"
    by (auto simp: insert_rows_def split: if_splits)
  with rest show ?thesis by simp
qed

lemma flush_commits:
  assumes "flush_step s d = (Inr x, d')" and "sa_commitment s = Some c"
  shows "has_key dc_run_id (db_commitments d') (dc_run_id c)"
  using assms insert_commitment_has
  by (auto simp: flush_step_def flush_body_def transaction_Inr bnd_def split: prod.splits sum.splits)

lemma flush_runs:
  assumes "flush_step s d = (Inr x, d')"
  shows "db_runs d' = db_runs (snd (upsert_run (sa_run s) d))"
proof -
  obtain y e where up: "upsert_run (sa_run s) d = (Inr y, e)"
    by (cases "has_run d (rr_run_id (sa_run s))") (simp_all add: upsert_run_def)
  from assms up have "(bnd (insert_agent_verdicts (sa_verdicts s)) (\<lambda>_.
      bnd (insert_committee_decisions (sa_decisions s)) (\<lambda>_.
      bnd (case sa_portfolio s of None \<Rightarrow> ret 0 | Some p \<Rightarrow> insert_portfolio_snapshot p) (\<lambda>_.
      bnd (insert_dlq_records (sa_dlq s)) (\<lambda>_.
      bnd (insert_kill_switch_events (sa_kill_switch s)) (\<lambda>_.
      case sa_commitment s of None \<Rightarrow> ret () | Some c \<Rightarrow> bnd (insert_commitment c) (\<lambda>_. ret ()))))))) e = (Inr x, d')"
    by (simp add: flush_step_def flush_body_def transaction_Inr bnd_Inr [where m = "upsert_run (sa_run s)", OF up])
  from keepsE [OF keeps_outputs _ this, of "db_runs e"] up show ?thesis by (simp add: same_runs_def)
qed

lemma inv_of_rows:
  assumes "db_inv d" and "db_wf d'" and "evolves d d'"
    and "\<And>r. r \<in> set (db_runs d') \<Longrightarrow> r \<in> set (db_runs d) \<or> evidenced d' r"
  shows "db_inv d'"
  using assms evidenced_evolves unfolding db_inv_def by blast

text \<open>Each call keeps the invariant and evolves the database.\<close>

definition good :: "db \<Rightarrow> db \<Rightarrow> bool" where
  "good d d' \<longleftrightarrow> db_inv d' \<and> evolves d d'"

lemma good_refl: "db_inv d \<Longrightarrow> good d d"
  by (simp add: good_def)

lemma good_transaction:
  assumes "sound m" and "db_inv d"
    and "\<And>x d' r. m d = (Inr x, d') \<Longrightarrow> db_wf d' \<Longrightarrow> evolves d d' \<Longrightarrow> r \<in> set (db_runs d') \<Longrightarrow>
           r \<in> set (db_runs d) \<or> evidenced d' r"
  shows "good d (snd (transaction m d))"
proof (cases "m d")
  case (Pair o1 d')
  show ?thesis
  proof (cases o1)
    case (Inl e)
    with Pair assms(2) show ?thesis by (simp add: transaction_def good_refl)
  next
    case (Inr x)
    with Pair assms(1,2) have "db_wf d'" "evolves d d'"
      unfolding sound_def db_inv_def by blast+
    with inv_of_rows [OF assms(2) this] assms(3) Pair Inr show ?thesis
      by (simp add: transaction_def good_def)
  qed
qed

lemma pipeline_step_cases:
  assumes "pipeline_step s"
  obtains (committed) c where "rr_status (sa_run s) = COMMITTED" and "sa_commitment s = Some c"
      and "dc_run_id c = rr_run_id (sa_run s)"
  | (open_run) "rr_status (sa_run s) \<notin> set ADVANCED" and "\<not> run_halted (sa_run s)"
  using assms
  by (auto simp: pipeline_step_def valid_step_artifacts_def opt_all_def ADVANCED_def REGRESSIVE_def Let_def
      split: option.splits)

lemma good_flush:
  assumes "db_inv d" and "pipeline_step s"
  shows "good d (snd (flush_step s d))"
proof -
  have fl: "flushable (sa_run s)"
    using assms(2) by (auto simp: pipeline_step_def flushable_def ADVANCED_def)
  show ?thesis
    unfolding flush_step_def
  proof (rule good_transaction [OF sound_flush_body [OF fl] assms(1)])
    fix x d' r
    assume "flush_body s d = (Inr x, d')" and r: "r \<in> set (db_runs d')"
    then have run: "flush_step s d = (Inr x, d')" by (simp add: flush_step_def transaction_Inr)
    have new: "evidenced d' q" if "rr_run_id q = rr_run_id (sa_run s)" "rr_status q = rr_status (sa_run s)"
      "rr_status_reason q = rr_status_reason (sa_run s)" for q
    proof (cases rule: pipeline_step_cases [OF assms(2)])
      case (1 c)
      with flush_commits [OF run, of c] that show ?thesis
        by (auto simp: evidenced_def run_halted_def)
    next
      case 2
      with that show ?thesis by (intro evidenced_plain) (auto simp: run_halted_def)
    qed
    from r have "r \<in> set (db_runs (snd (upsert_run (sa_run s) d)))" by (simp add: flush_runs [OF run])
    then show "r \<in> set (db_runs d) \<or> evidenced d' r"
      by (cases "has_run d (rr_run_id (sa_run s))")
        (auto simp: upsert_run_def set_update_where overwrite_run_def intro!: new)
  qed
qed

lemma good_outputs:
  assumes "sound m" and "keeps (same_runs (db_runs d)) m" and "db_inv d"
  shows "good d (snd (transaction m d))"
proof (rule good_transaction [OF assms(1,3)])
  fix x d' r
  assume "m d = (Inr x, d')" and "r \<in> set (db_runs d')"
  with keepsE [OF assms(2), of d "Inr x" d'] show "r \<in> set (db_runs d) \<or> evidenced d' r"
    by (simp add: same_runs_def)
qed

lemma good_record_halt:
  assumes "db_inv d"
  shows "good d (snd (sink_record_halt e d))"
  unfolding sink_record_halt_def
proof (rule good_transaction [OF sound_record_halt assms])
  fix x d' r
  assume run: "record_halt e d = (Inr x, d')" and r: "r \<in> set (db_runs d')"
  let ?f = "\<lambda>r. r\<lparr>rr_status := PARTIAL, rr_status_reason := Some (halt_reason (ke_trigger e)),
              rr_ended_at := Some (ke_triggered_at e)\<rparr>"
  from run obtain n d1 k d2 where
    one: "insert_kill_switch_events [e] d = (Inr n, d1)" and
    two: "insert_halt_reference_requests [halt_request_of e] d1 = (Inr k, d2)" and
    d': "d' = d2\<lparr>db_runs := update_where (\<lambda>r. rr_run_id r = ke_run_id e \<and> rr_status r \<in> set HALTABLE) ?f (db_runs d2)\<rparr>"
    by (auto simp: record_halt_def bnd_def move_run_def Let_def split: prod.splits sum.splits)
  from one have ev: "has_key ke_run_id (db_events d1) (ke_run_id e)" and r1: "db_runs d1 = db_runs d"
    by (auto simp: insert_kill_switch_events_def insert_rows_def has_key_iff split: if_splits)
  from two have r2: "db_runs d2 = db_runs d1" and e2: "db_events d2 = db_events d1"
    by (auto simp: insert_halt_reference_requests_def split: option.splits if_splits)
  from r r1 r2 consider "r \<in> set (db_runs d)"
    | q where "r = ?f q" "rr_run_id q = ke_run_id e" by (auto simp: d' set_update_where split: if_splits)
  then show "r \<in> set (db_runs d) \<or> evidenced d' r"
  proof cases
    case (2 q)
    with ev e2 have "evidenced d' r" by (simp add: evidenced_def d' ADVANCED_def)
    then show ?thesis ..
  qed simp
qed

lemma upsert_anchor_complete:
  assumes "upsert_anchor a d = (Inr x, d')" and "ca_ots_proof a \<noteq> None" and "ca_git_commit a \<noteq> None"
  shows "anchored_in d' (ca_run_id a)" and "db_runs d' = db_runs d"
proof -
  show "db_runs d' = db_runs d"
    using assms(1) by (auto simp: upsert_anchor_def split: option.splits if_splits)
  show "anchored_in d' (ca_run_id a)"
  proof (cases "row_of ca_run_id (db_anchors d) (ca_run_id a)")
    case None
    with assms show ?thesis
      by (auto simp: upsert_anchor_def anchored_in_def split: if_splits)
  next
    case (Some b)
    note b = row_of_SomeD [OF Some]
    from Some assms(1) have "db_anchors d' = update_where (\<lambda>s. ca_run_id s = ca_run_id a) (upgrade_anchor a) (db_anchors d)"
      by (auto simp: upsert_anchor_def split: if_splits)
    with in_update_where [of b "db_anchors d" "\<lambda>s. ca_run_id s = ca_run_id a" "upgrade_anchor a"] b
    have "upgrade_anchor a b \<in> set (db_anchors d')" by simp
    moreover have "ca_run_id (upgrade_anchor a b) = ca_run_id a" "ca_ots_proof (upgrade_anchor a b) \<noteq> None"
      "ca_git_commit (upgrade_anchor a b) \<noteq> None"
      using assms(2,3) b by (auto simp: upgrade_anchor_def coalesce_def)
    ultimately show ?thesis unfolding anchored_in_def by blast
  qed
qed

lemma good_mark_anchored:
  assumes "db_inv d"
  shows "good d (snd (sink_mark_anchored a d))"
  unfolding sink_mark_anchored_def
proof (rule good_transaction [OF sound_advance_to_anchored assms])
  fix x d' r
  assume run: "advance_to_anchored a d = (Inr x, d')" and r: "r \<in> set (db_runs d')" and ev: "evolves d d'"
  let ?f = "\<lambda>r. r\<lparr>rr_status := ANCHORED\<rparr>"
  from run have full: "ca_ots_proof a \<noteq> None" "ca_git_commit a \<noteq> None"
    by (auto simp: advance_to_anchored_def split: if_splits)
  with run obtain y d1 where one: "upsert_anchor a d = (Inr y, d1)"
    and d': "d' = d1\<lparr>db_runs := update_where (\<lambda>r. rr_run_id r = ca_run_id a \<and> rr_status r = COMMITTED) ?f (db_runs d1)\<rparr>"
    by (auto simp: advance_to_anchored_def bnd_def move_run_def Let_def split: prod.splits sum.splits)
  note up = upsert_anchor_complete [OF one full]
  from r up(2) consider "r \<in> set (db_runs d)"
    | q where "r = ?f q" "q \<in> set (db_runs d)" "rr_run_id q = ca_run_id a" "rr_status q = COMMITTED"
    by (auto simp: d' set_update_where split: if_splits)
  then show "r \<in> set (db_runs d) \<or> evidenced d' r"
  proof cases
    case (2 q)
    from 2(2) assms have "evidenced d q" by (simp add: db_inv_def)
    with evidenced_evolves [OF ev] have "evidenced d' q" .
    moreover have "anchored_in d' (ca_run_id a)" using up(1) by (simp add: anchored_in_def d')
    ultimately have "evidenced d' r"
      using 2 by (auto simp: evidenced_def ADVANCED_def run_halted_def)
    then show ?thesis ..
  qed simp
qed

lemma good_mark_executed:
  assumes "db_inv d"
  shows "good d (snd (sink_mark_executed rid t d))"
  unfolding sink_mark_executed_def
proof (rule good_transaction [OF sound_advance_to_executed assms])
  fix x d' r
  assume run: "advance_to_executed rid t d = (Inr x, d')" and r: "r \<in> set (db_runs d')" and ev: "evolves d d'"
  let ?f = "\<lambda>r. r\<lparr>rr_status := EXECUTED, rr_ended_at := Some t, rr_status_reason := None\<rparr>"
  from run r consider "r \<in> set (db_runs d)"
    | q where "r = ?f q" "q \<in> set (db_runs d)" "rr_status q = ANCHORED"
    by (auto simp: advance_to_executed_def move_run_def Let_def set_update_where split: if_splits)
  then show "r \<in> set (db_runs d) \<or> evidenced d' r"
  proof cases
    case (2 q)
    from 2(2) assms have "evidenced d q" by (simp add: db_inv_def)
    with evidenced_evolves [OF ev] have "evidenced d' q" .
    with 2 have "evidenced d' r" by (auto simp: evidenced_def ADVANCED_def run_halted_def)
    then show ?thesis ..
  qed simp
qed

lemma good_claim_run:
  assumes "db_inv d"
  shows "good d (snd (sink_claim_run mode as_of cfg rid started fresh d))"
  unfolding sink_claim_run_def
proof (rule good_transaction [OF sound_claim_run assms])
  fix x d' r
  assume "claim_run mode as_of cfg rid started fresh d = (Inr x, d')" and "r \<in> set (db_runs d')"
  then have "r \<in> set (db_runs d) \<or> rr_status r = PENDING"
    by (auto simp: claim_run_def bnd_def query_def insert_run_def Let_def split: option.splits if_splits prod.splits sum.splits)
  then show "r \<in> set (db_runs d) \<or> evidenced d' r"
    by (auto simp: evidenced_def ADVANCED_def run_halted_def)
qed

lemma good_reset_run:
  assumes inv: "db_inv d"
  shows "good d (snd (sink_reset_run got rid actor reason now d))"
proof (cases "got \<and> load_run d rid \<noteq> None \<and> \<not> has_evidence d rid")
  case False
  then have "snd (sink_reset_run got rid actor reason now d) = d"
    by (auto simp: sink_reset_run_def transaction_def reset_run_def split: option.splits)
  with inv show ?thesis by (simp add: good_refl)
next
  case True
  then obtain row where row: "load_run d rid = Some row" by auto
  let ?f = "\<lambda>r. r\<lparr>rr_status := PENDING, rr_status_reason := None, rr_ended_at := None\<rparr>"
  let ?p = "\<lambda>r. rr_run_id r = rid"
  define d' where "d' = snd (sink_reset_run got rid actor reason now d)"
  from True row obtain rs where d': "d' = d\<lparr>db_resets := db_resets d @ [rs],
      db_verdicts := filter (\<lambda>r. verdict_run_id (vr_verdict r) \<noteq> rid) (db_verdicts d),
      db_decisions := filter (\<lambda>r. dr_run_id r \<noteq> rid) (db_decisions d),
      db_snapshots := filter (\<lambda>s. ps_run_id s \<noteq> rid) (db_snapshots d),
      db_runs := update_where ?p ?f (db_runs d)\<rparr>"
    by (auto simp: d'_def sink_reset_run_def transaction_def reset_run_def cleared_rows_def)
  have plain: "rr_status r \<notin> set ADVANCED \<and> \<not> run_halted r" if "r \<in> set (db_runs d)" "rr_run_id r = rid" for r
    using inv that True by (auto simp: db_inv_def evidenced_def has_evidence_def)
  have key: "has_run d' k = has_run d k" for k
    unfolding has_run_def d' using has_key_update_where [of rr_run_id ?f ?p "db_runs d" k] by simp
  have "keyed rr_run_id (update_where ?p ?f (db_runs d)) = keyed rr_run_id (db_runs d)"
    by (rule keyed_update_where) simp
  moreover have "keyed k (filter q tbl)" if "keyed k tbl" for k :: "'r \<Rightarrow> 'k" and q tbl
    using that unfolding keyed_def by (induction tbl) auto
  ultimately have "db_wf d'"
    using inv key by (auto simp: db_inv_def db_wf_def db_keys_def db_fks_def d' keyed_def distinct_map_filter)
  moreover have "evolves d d'"
  proof (rule evolves_runs)
    fix r assume r: "r \<in> set (db_runs d)"
    show "\<exists>s \<in> set (db_runs d'). run_moves r s"
    proof (rule bexI)
      show "run_moves r (if ?p r then ?f r else r)"
        using plain [OF r] by (auto simp: run_moves_def same_job_as_def)
      show "(if ?p r then ?f r else r) \<in> set (db_runs d')"
        using in_update_where [OF r, of ?p ?f] by (simp add: d')
    qed
  qed (simp_all add: d' subset_insertI)
  moreover have "r \<in> set (db_runs d) \<or> evidenced d' r" if "r \<in> set (db_runs d')" for r
    using that by (auto simp: d' set_update_where evidenced_def ADVANCED_def run_halted_def)
  ultimately show ?thesis
    unfolding good_def using inv_of_rows [OF inv] d'_def by blast
qed

lemma good_call:
  assumes "db_inv d" and "pipeline_call c"
  shows "good d (after_call c d)"
proof (cases c)
  case (RecordDlq rs)
  have "keeps (same_runs (db_runs d)) (insert_dlq_records rs)"
    unfolding insert_dlq_records_def by (rule keeps_insert_rows) simp
  from good_outputs [OF sound_insert_dlq_records this assms(1)] RecordDlq show ?thesis
    by (simp add: sink_record_dlq_def)
next
  case (RecordAnchor a)
  have "keeps (same_runs (db_runs d)) (upsert_anchor a)"
    by (rule keepsI) (auto simp: upsert_anchor_def same_runs_def split: option.split)
  from good_outputs [OF sound_upsert_anchor this assms(1)] RecordAnchor show ?thesis
    by (simp add: sink_record_anchor_def)
next
  case (RecordExecutions rs)
  have "keeps (same_runs (db_runs d)) (upsert_execution_records rs)"
    unfolding upsert_execution_records_def
    by (rule keeps_for_each, rule keepsI) (auto simp: upsert_execution_record_def same_runs_def)
  from good_outputs [OF sound_upsert_execution_records this assms(1)] RecordExecutions show ?thesis
    by (simp add: sink_record_executions_def)
qed (use assms good_flush good_record_halt good_mark_anchored good_claim_run good_reset_run
    good_mark_executed in simp_all)

lemma inv_empty: "db_inv empty_db"
  by (simp add: db_inv_def db_wf_def db_keys_def db_fks_def empty_db_def keyed_def)

lemma reachable_inv: "reachable d \<Longrightarrow> db_inv d"
  by (induction rule: reachable.induct) (use inv_empty good_call in \<open>auto simp: good_def\<close>)

lemma reachable_fold: "reachable d \<Longrightarrow> list_all pipeline_call cs \<Longrightarrow> reachable (fold after_call cs d)"
  by (induction cs arbitrary: d) (auto intro: reachable.call)

lemma evolves_fold: "reachable d \<Longrightarrow> list_all pipeline_call cs \<Longrightarrow> evolves d (fold after_call cs d)"
proof (induction cs arbitrary: d)
  case (Cons c cs)
  then have "reachable (after_call c d)" by (auto intro: reachable.call)
  with Cons have "evolves (after_call c d) (fold after_call cs (after_call c d))" by simp
  moreover have "evolves d (after_call c d)"
    using Cons.prems reachable_inv good_call by (auto simp: good_def)
  ultimately show ?case by (auto intro: evolves_trans)
qed simp

section \<open>The sink as the executor's recorder\<close>

definition put_executions :: "execution_record list \<Rightarrow> db \<Rightarrow> db option" where
  "put_executions rs d = (case sink_record_executions rs d of (Inl _, _) \<Rightarrow> None | (Inr _, d') \<Rightarrow> Some d')"

lemma put_executions_after: "put_executions rs d = Some d' \<Longrightarrow> d' = after_call (RecordExecutions rs) d"
  by (auto simp: put_executions_def split: prod.splits sum.splits)

interpretation recorder: execution_recorder put_executions load_execution_record db_inv
proof
  fix d rs d' cid r
  assume inv: "db_inv d" and put: "put_executions rs d = Some d'"
  then have good: "good d d'" using good_call [of d "RecordExecutions rs"] put_executions_after by simp
  then show inv': "db_inv d'" by (simp add: good_def)
  assume "load_execution_record d cid = Some r"
  then have r: "r \<in> set (db_orders d)" "er_client_order_id r = cid"
    using row_of_SomeD [of er_client_order_id "db_orders d" cid r] unfolding load_execution_record_def by blast+
  with good obtain s where s: "s \<in> set (db_orders d')" "same_order r s"
    unfolding good_def evolves_def by blast
  from s(2) have "er_client_order_id s = er_client_order_id r" "er_reference_price s = er_reference_price r"
    "er_reference_source s = er_reference_source r"
    unfolding same_order_def by (cases r; cases s; simp)+
  moreover have "keyed er_client_order_id (db_orders d')"
    using inv' by (simp add: db_inv_def db_wf_def db_keys_def)
  ultimately show "\<exists>r'. load_execution_record d' cid = Some r' \<and>
      er_reference_price r' = er_reference_price r \<and> er_reference_source r' = er_reference_source r"
    using s(1) r(2) by (auto simp: load_execution_record_def keyed_row_of)
qed

section \<open>A concrete history\<close>

definition hx :: string where
  "hx = replicate 64 CHR ''a''"

definition sink_run :: "run_status \<Rightarrow> run_record" where
  "sink_run st = (demo_run st)\<lparr>rr_config_hash := hx\<rparr>"

definition sink_step :: step_artifacts where
  "sink_step = \<lparr>sa_run = sink_run COMMITTED, sa_verdicts = [], sa_decisions = [demo_record 1],
     sa_portfolio = Some demo_snapshot,
     sa_commitment = Some \<lparr>dc_run_id = ''r'', dc_sha256 = hx, dc_committed_at = 7\<rparr>,
     sa_dlq = [], sa_kill_switch = []\<rparr>"

definition sink_anchor :: commitment_anchor where
  "sink_anchor = \<lparr>ca_run_id = ''r'', ca_sha256 = hx, ca_ots_proof = Some ''p'', ca_git_commit = Some ''g'',
     ca_anchored_at = 8, ca_verified_at = None\<rparr>"

definition sink_event :: "instant \<Rightarrow> kill_switch_event" where
  "sink_event t = \<lparr>ke_run_id = ''r'', ke_triggered_at = t, ke_trigger = MANUAL, ke_daily_loss = None,
     ke_peak_drawdown = None, ke_cancelled_order_ids = [], ke_flattened = False\<rparr>"

definition history :: "sink_call list" where
  "history = [ClaimRun LIVE 5 hx ''r'' 6 False, Flush sink_step, MarkAnchored sink_anchor]"

definition anchored_db :: db where
  "anchored_db = empty_db\<lparr>db_runs := [sink_run ANCHORED], db_decisions := [decision_row_of (demo_record 1)],
     db_snapshots := [demo_snapshot],
     db_commitments := [\<lparr>dc_run_id = ''r'', dc_sha256 = hx, dc_committed_at = 7\<rparr>],
     db_anchors := [sink_anchor]\<rparr>"

lemma history_ok: "list_all pipeline_call history"
  by (simp add: history_def pipeline_step_def valid_step_artifacts_def sink_step_def sink_run_def
      demo_run_def demo_record_def demo_snapshot_def)

lemma history_db: "fold after_call history empty_db = anchored_db"
  by (simp add: history_def anchored_db_def empty_db_def sink_claim_run_def claim_run_def bnd_def query_def
      insert_run_def flush_step_def flush_body_def upsert_run_def has_run_def insert_agent_verdicts_def
      insert_rows_def insert_committee_decisions_def insert_portfolio_snapshot_def insert_dlq_records_def
      insert_kill_switch_events_def insert_commitment_def sink_mark_anchored_def advance_to_anchored_def
      upsert_anchor_def row_of_def move_run_def transaction_def update_where_def upsert_blocked_def
      run_halted_def overwrite_run_def sink_step_def sink_run_def demo_run_def sink_anchor_def
      demo_record_def demo_snapshot_def decision_row_of_def ADVANCED_def REGRESSIVE_def Let_def)

lemma anchored_reachable: "reachable anchored_db"
  using reachable_fold [OF reachable.start history_ok] by (simp add: history_db)

text \<open>The same database after a manual halt.\<close>

definition halted_run :: run_record where
  "halted_run = (sink_run PARTIAL)\<lparr>rr_status_reason := Some (halt_reason MANUAL), rr_ended_at := Some 9\<rparr>"

definition halted_db :: db where
  "halted_db = anchored_db\<lparr>db_runs := [halted_run], db_events := [sink_event 9],
     db_halt_requests := [halt_request_of (sink_event 9)]\<rparr>"

lemma halted_demo: "after_call (RecordHalt (sink_event 9)) anchored_db = halted_db"
  by (simp add: halted_db_def halted_run_def anchored_db_def empty_db_def sink_record_halt_def record_halt_def
      bnd_def transaction_def insert_kill_switch_events_def insert_rows_def insert_halt_reference_requests_def
      insert_immutable_def has_run_def row_of_def halt_request_of_def halt_request_key_def move_run_def
      update_where_def sink_run_def demo_run_def sink_event_def HALTABLE_def Let_def)

lemma halted_reachable: "reachable halted_db"
  unfolding halted_demo [symmetric] by (rule reachable.call [OF anchored_reachable]) simp

section \<open>Evidence of a status\<close>

lemma reachable_evidence:
  assumes "reachable d" and "r \<in> set (db_runs d)"
  shows "(rr_status r \<in> set ADVANCED \<longrightarrow> load_commitment_hash d (rr_run_id r) \<noteq> None) \<and>
    (rr_status r = ANCHORED \<or> rr_status r = EXECUTED \<longrightarrow>
       (\<exists>a. load_anchor d (rr_run_id r) = Some a \<and>
            load_commitment_hash d (rr_run_id r) = Some (ca_sha256 a) \<and>
            ca_ots_proof a \<noteq> None \<and> ca_git_commit a \<noteq> None)) \<and>
    (run_halted r \<longrightarrow> ks_halted (ks_from_events (load_kill_switch_events d (rr_run_id r))))"
proof -
  from reachable_inv [OF assms(1)] have wf: "db_wf d" and ev: "evidenced d r"
    using assms(2) by (auto simp: db_inv_def)
  from wf have k: "keyed ca_run_id (db_anchors d)" "keyed dc_run_id (db_commitments d)"
    by (auto simp: db_wf_def db_keys_def)
  have com: "load_commitment_hash d (rr_run_id r) \<noteq> None" if "rr_status r \<in> set ADVANCED"
    using ev that row_of_None [of dc_run_id "db_commitments d" "rr_run_id r"]
    by (simp add: evidenced_def load_commitment_hash_def load_commitment_def)
  have anc: "\<exists>a. load_anchor d (rr_run_id r) = Some a \<and>
            load_commitment_hash d (rr_run_id r) = Some (ca_sha256 a) \<and>
            ca_ots_proof a \<noteq> None \<and> ca_git_commit a \<noteq> None"
    if "rr_status r = ANCHORED \<or> rr_status r = EXECUTED"
  proof -
    from ev that obtain a where a: "a \<in> set (db_anchors d)" "ca_run_id a = rr_run_id r"
      "ca_ots_proof a \<noteq> None" "ca_git_commit a \<noteq> None"
      unfolding evidenced_def anchored_in_def by metis
    with wf obtain c where c: "c \<in> set (db_commitments d)" "dc_run_id c = ca_run_id a" "dc_sha256 c = ca_sha256 a"
      unfolding db_wf_def db_fks_def by blast
    from a k have "load_anchor d (rr_run_id r) = Some a" by (simp add: load_anchor_def keyed_row_of)
    moreover from a c k have "load_commitment d (rr_run_id r) = Some c"
      by (simp add: load_commitment_def keyed_row_of)
    ultimately show ?thesis using a c by (simp add: load_commitment_hash_def)
  qed
  have halt: "ks_halted (ks_from_events (load_kill_switch_events d (rr_run_id r)))" if "run_halted r"
  proof -
    from ev that have "has_key ke_run_id (db_events d) (rr_run_id r)" by (simp add: evidenced_def)
    then have "filter (\<lambda>e. ke_run_id e = rr_run_id r) (db_events d) \<noteq> []"
      by (auto simp: has_key_iff filter_empty_conv)
    then have "load_kill_switch_events d (rr_run_id r) \<noteq> []"
      unfolding load_kill_switch_events_def by (metis length_0_conv length_sort)
    then show ?thesis by (simp add: ks_from_events_halted)
  qed
  show ?thesis using com anc halt by blast
qed

section \<open>Properties\<close>



text \<open>
  C10: every status has its evidence. In a reachable database a run that is committed or later has its
  commitment row, one that is anchored or executed has the anchor of that very hash with both proofs,
  and one that reads as halted has a halt event on record.
\<close>

theorem status_has_evidence:
  assumes "reachable d" and "r \<in> set (db_runs d)"
  shows "(rr_status r \<in> set ADVANCED \<longrightarrow> load_commitment_hash d (rr_run_id r) \<noteq> None) \<and>
    (rr_status r = ANCHORED \<or> rr_status r = EXECUTED \<longrightarrow>
       (\<exists>a. load_anchor d (rr_run_id r) = Some a \<and>
            load_commitment_hash d (rr_run_id r) = Some (ca_sha256 a) \<and>
            ca_ots_proof a \<noteq> None \<and> ca_git_commit a \<noteq> None)) \<and>
    (run_halted r \<longrightarrow> ks_halted (ks_from_events (load_kill_switch_events d (rr_run_id r))))"
  using assms by (rule reachable_evidence)

theorem status_has_evidence_witness:
  "load_commitment_hash anchored_db ''r'' \<noteq> None \<and>
    (\<exists>a. load_anchor anchored_db ''r'' = Some a \<and> load_commitment_hash anchored_db ''r'' = Some (ca_sha256 a) \<and>
       ca_ots_proof a \<noteq> None \<and> ca_git_commit a \<noteq> None)"
  using status_has_evidence [OF anchored_reachable, of "sink_run ANCHORED"]
  by (simp add: anchored_db_def sink_run_def demo_run_def ADVANCED_def)

text \<open>
  C11: a halt is final. Once a run of a reachable database reads as halted by the kill switch, no
  sequence of calls changes a field of it.
\<close>

theorem halted_run_is_final:
  assumes "reachable d" and "list_all pipeline_call cs" and "r \<in> set (db_runs d)" and "run_halted r"
  shows "r \<in> set (db_runs (fold after_call cs d))"
  using evolves_fold [OF assms(1,2)] assms(3,4) unfolding evolves_def run_moves_def by metis

theorem halted_run_is_final_witness:
  "halted_run \<in> set (db_runs (fold after_call [Flush sink_step, ResetRun True ''r'' ''ops'' ''redo'' 11] halted_db))"
  by (rule halted_run_is_final [OF halted_reachable])
    (use history_ok in \<open>simp_all add: history_def halted_db_def halted_run_def run_halted_def halt_reason_def
       sink_run_def demo_run_def\<close>)

text \<open>
  C14: a second halt of a run with the same trigger at another time is refused, and nothing of it is
  stored, not even the event. (The halt controller means every halt to be recorded.)
\<close>

theorem second_halt_is_lost:
  assumes "reachable d" and "has_run d (ke_run_id e)" and "q \<in> set (db_halt_requests d)"
    and "hq_run_id q = ke_run_id e" and "hq_trigger q = ke_trigger e" and "hq_tau q \<noteq> ke_triggered_at e"
  shows "sink_record_halt e d = (Inl ImmutableConflictError, d)"
proof -
  have wf: "db_wf d" using reachable_inv [OF assms(1)] by (simp add: db_inv_def)
  have "insert_immutable halt_request_key halt_request_payload (db_halt_requests d) [halt_request_of e] = None"
    by (rule insert_immutable_conflict [of _ _ q "halt_request_of e"])
      (use wf assms(3-6) in \<open>auto simp: db_wf_def db_keys_def halt_request_key_def halt_request_payload_def halt_request_of_def\<close>)
  then have lost: "insert_halt_reference_requests [halt_request_of e] (d\<lparr>db_events := t\<rparr>) =
      (Inl ImmutableConflictError, d\<lparr>db_events := t\<rparr>)" for t
    by (simp add: insert_halt_reference_requests_def)
  obtain n t where ins: "insert_new (\<lambda>e. e) (db_events d) [e] = (n, t)" by fastforce
  have "list_all (\<lambda>r. has_run d (ke_run_id r)) t"
    using insert_new_prefix [OF ins] wf assms(2) by (auto simp: db_wf_def db_fks_def list_all_iff)
  then have "insert_kill_switch_events [e] d = (Inr n, d\<lparr>db_events := t\<rparr>)"
    using ins by (simp add: insert_kill_switch_events_def insert_rows_def del: insert_new.simps)
  with lost show ?thesis
    by (simp add: sink_record_halt_def record_halt_def transaction_def bnd_def)
qed

theorem second_halt_is_lost_witness:
  "sink_record_halt (sink_event 12) halted_db = (Inl ImmutableConflictError, halted_db)"
  by (rule second_halt_is_lost [OF halted_reachable, of _ "halt_request_of (sink_event 9)"])
    (simp_all add: halted_db_def halted_run_def halt_request_of_def sink_event_def has_run_def sink_run_def demo_run_def)





text \<open>
  C15: however often an order is replayed or refreshed in the store, the executor prices its leg against
  the reference price and source of the record it found first.
\<close>

theorem executor_reference_is_first:
  assumes "reachable d" and "put_all put_executions rss d = Some d'"
    and "load_execution_record d cid = Some r"
    and "ex_find_execution ex cid = (\<lambda>d. (Inr (load_execution_record d cid), d))"
  shows "ref_get ex lookup cid (d', l) = (Inr (er_reference_price r, er_reference_source r), (d', l))"
  by (rule recorder.ref_get_first [OF reachable_inv [OF assms(1)] assms(2-4)])

definition demo_fill :: "real \<Rightarrow> real \<Rightarrow> execution_record" where
  "demo_fill filled price = \<lparr>er_run_id = ''r'', er_security_id = 1, er_client_order_id = ''c'',
     er_broker_order_id = ''b'', er_kind = LIMIT, er_side = BUY, er_qty = 10, er_filled_qty = filled,
     er_limit_price = Some 101, er_decision_price = 100, er_reference_price = price,
     er_reference_source = IEX_MID, er_fill_price = None, er_slippage_bps = None, er_status = OPEN,
     er_submitted_at = 9, er_filled_at = None\<rparr>"

definition db_finder :: "db executor" where
  "db_finder = \<lparr>ex_gw = \<lparr>gw_find_by_client_id = (\<lambda>_. ret None), gw_get_order = (\<lambda>_. throw BrokerError),
       gw_submit_limit = (\<lambda>_ _ _ _ _. throw BrokerError), gw_submit_market = (\<lambda>_ _ _ _. throw BrokerError),
       gw_cancel_order = (\<lambda>_. ret ()), gw_open_orders = ret [], gw_positions = ret [],
       gw_close_position = (\<lambda>_. ret ()), gw_account_equity = ret (Fin 1, Fin 1), gw_equity_history = ret []\<rparr>,
     ex_switch = (\<lambda>_. None), ex_record_executions = (\<lambda>_. ret ()),
     ex_find_execution = (\<lambda>cid d. (Inr (load_execution_record d cid), d)),
     ex_clock = ret 0, ex_sleep = (\<lambda>_. ret ()), ex_collar_bps = 0, ex_limit_wait = 0,
     ex_poll_seconds = 1, ex_poll_attempts = 1\<rparr>"

theorem executor_reference_is_first_witness:
  "\<forall>l. ref_get db_finder (ret (55, SIP_LAST)) ''c''
      (after_call (RecordExecutions [demo_fill 4 77]) (after_call (RecordExecutions [demo_fill 0 100]) anchored_db), l) =
   (Inr (100, IEX_MID),
     (after_call (RecordExecutions [demo_fill 4 77]) (after_call (RecordExecutions [demo_fill 0 100]) anchored_db), l))"
proof -
  let ?d = "after_call (RecordExecutions [demo_fill 0 100]) anchored_db"
  have d: "?d = anchored_db\<lparr>db_orders := [demo_fill 0 100]\<rparr>"
    by (simp add: sink_record_executions_def upsert_execution_records_def upsert_execution_record_def
        transaction_def bnd_def has_run_def anchored_db_def empty_db_def sink_run_def demo_run_def demo_fill_def)
  have reach: "reachable ?d" by (rule reachable.call [OF anchored_reachable]) simp
  have put: "put_all put_executions [[demo_fill 4 77]] ?d = Some (after_call (RecordExecutions [demo_fill 4 77]) ?d)"
    unfolding d by (simp add: put_executions_def sink_record_executions_def upsert_execution_records_def upsert_execution_record_def
        transaction_def bnd_def demo_fill_def)
  have "load_execution_record ?d ''c'' = Some (demo_fill 0 100)"
    unfolding d by (simp add: load_execution_record_def row_of_def demo_fill_def)
  from executor_reference_is_first [OF reach put this, of db_finder] show ?thesis
    by (simp add: db_finder_def demo_fill_def)
qed




end
