(* ===== verification/Executor_Safety.thy ===== *)
theory Executor_Safety
  imports Executor
begin

text \<open>
  What the executor may send to the broker. The broker's world is extended with the list of calls
  made on it, newest first; every call is logged together with its reply and, for a submission, the
  state of the kill switch at that instant. The safety of a trace is a predicate on that list, and
  every run of \<open>execute_book\<close> from an empty list leaves a safe one, whatever the broker, the
  recorder, the reference source and the gate do.
\<close>

section \<open>Recording the calls\<close>

datatype call =
    CFind string "broker_order option"
  | CGet string broker_order
  | CCancel string
  | CLimit string string order_side real real kill_switch
  | CMarket string string order_side real kill_switch
  | CPlaced string broker_order

definition traced_gateway :: "('w \<Rightarrow> kill_switch) \<Rightarrow> 'w gateway \<Rightarrow> ('w \<times> call list) gateway" where
  "traced_gateway sw gw =
     \<lparr>gw_find_by_client_id = (\<lambda>cid. logged (\<lambda>_. []) (\<lambda>x. [CFind cid x]) (gw_find_by_client_id gw cid)),
      gw_get_order = (\<lambda>bid. logged (\<lambda>_. []) (\<lambda>x. [CGet bid x]) (gw_get_order gw bid)),
      gw_submit_limit = (\<lambda>cid sy side q p.
        logged (\<lambda>w. [CLimit cid sy side q p (sw w)]) (\<lambda>x. [CPlaced cid x])
          (gw_submit_limit gw cid sy side q p)),
      gw_submit_market = (\<lambda>cid sy side q.
        logged (\<lambda>w. [CMarket cid sy side q (sw w)]) (\<lambda>x. [CPlaced cid x])
          (gw_submit_market gw cid sy side q)),
      gw_cancel_order = (\<lambda>bid. logged (\<lambda>_. [CCancel bid]) (\<lambda>_. []) (gw_cancel_order gw bid)),
      gw_open_orders = unlogged (gw_open_orders gw),
      gw_positions = unlogged (gw_positions gw),
      gw_close_position = (\<lambda>s. unlogged (gw_close_position gw s)),
      gw_account_equity = unlogged (gw_account_equity gw),
      gw_equity_history = unlogged (gw_equity_history gw)\<rparr>"

definition traced :: "'w executor \<Rightarrow> ('w \<times> call list) executor" where
  "traced ex =
     \<lparr>ex_gw = traced_gateway (ex_switch ex) (ex_gw ex), ex_switch = (\<lambda>s. ex_switch ex (fst s)),
      ex_record_executions = (\<lambda>rs. unlogged (ex_record_executions ex rs)),
      ex_find_execution = (\<lambda>cid. unlogged (ex_find_execution ex cid)),
      ex_clock = unlogged (ex_clock ex), ex_sleep = (\<lambda>d. unlogged (ex_sleep ex d)),
      ex_collar_bps = ex_collar_bps ex, ex_limit_wait = ex_limit_wait ex,
      ex_poll_seconds = ex_poll_seconds ex, ex_poll_attempts = ex_poll_attempts ex\<rparr>"

lemma traced_simps [simp]:
  "ex_switch (traced ex) s = ex_switch ex (fst s)"
  "ex_record_executions (traced ex) rs = unlogged (ex_record_executions ex rs)"
  "ex_find_execution (traced ex) cid = unlogged (ex_find_execution ex cid)"
  "ex_clock (traced ex) = unlogged (ex_clock ex)"
  "ex_sleep (traced ex) d = unlogged (ex_sleep ex d)"
  "ex_collar_bps (traced ex) = ex_collar_bps ex"
  "ex_poll_seconds (traced ex) = ex_poll_seconds ex"
  "ex_poll_attempts (traced ex) = ex_poll_attempts ex"
  "ex_gw (traced ex) = traced_gateway (ex_switch ex) (ex_gw ex)"
  by (simp_all add: traced_def)

lemma traced_gateway_simps [simp]:
  "gw_find_by_client_id (traced_gateway sw gw) cid =
     logged (\<lambda>_. []) (\<lambda>x. [CFind cid x]) (gw_find_by_client_id gw cid)"
  "gw_get_order (traced_gateway sw gw) bid =
     logged (\<lambda>_. []) (\<lambda>x. [CGet bid x]) (gw_get_order gw bid)"
  "gw_submit_limit (traced_gateway sw gw) cid sy side q p =
     logged (\<lambda>w. [CLimit cid sy side q p (sw w)]) (\<lambda>x. [CPlaced cid x])
       (gw_submit_limit gw cid sy side q p)"
  "gw_submit_market (traced_gateway sw gw) cid sy side q =
     logged (\<lambda>w. [CMarket cid sy side q (sw w)]) (\<lambda>x. [CPlaced cid x])
       (gw_submit_market gw cid sy side q)"
  "gw_cancel_order (traced_gateway sw gw) bid =
     logged (\<lambda>_. [CCancel bid]) (\<lambda>_. []) (gw_cancel_order gw bid)"
  by (simp_all add: traced_gateway_def)

section \<open>Safe traces\<close>

fun submits :: "string \<Rightarrow> call \<Rightarrow> bool" where
  "submits cid (CLimit c _ _ _ _ _) = (c = cid)"
| "submits cid (CMarket c _ _ _ _) = (c = cid)"
| "submits cid _ = False"

definition submitted :: "call list \<Rightarrow> string \<Rightarrow> bool" where
  "submitted tr cid \<longleftrightarrow> list_ex (submits cid) tr"

text \<open>
  The broker's statements about the order with a client id: found under the id, answered to a
  submission with the id, or re-read by the broker's own id of an order seen before.
\<close>

inductive sees :: "call list \<Rightarrow> string \<Rightarrow> broker_order \<Rightarrow> bool" for tr cid where
  found: "CFind cid (Some w) \<in> set tr \<Longrightarrow> sees tr cid w"
| placed: "CPlaced cid w \<in> set tr \<Longrightarrow> sees tr cid w"
| reread: "sees tr cid w \<Longrightarrow> CGet (bo_broker_order_id w) w' \<in> set tr \<Longrightarrow> sees tr cid w'"

lemma sees_mono: "sees tr cid w \<Longrightarrow> set tr \<subseteq> set tr' \<Longrightarrow> sees tr' cid w"
proof (induction rule: sees.induct)
  case (reread w w')
  then show ?case by (meson sees.reread subsetD)
qed (auto intro: sees.found sees.placed)

text \<open>A limit order that has ended for good, not by rejection, and not above its target.\<close>

definition settled :: "exec_target \<Rightarrow> broker_order \<Rightarrow> bool" where
  "settled t w \<longleftrightarrow> terminal (bo_status w) \<and> bo_status w \<noteq> REJECTED \<and>
     bo_filled_qty w \<le> fl_val (tg_qty t) + EPS"

definition residual_of :: "exec_target \<Rightarrow> broker_order \<Rightarrow> real" where
  "residual_of t w = round6 (fl_val (tg_qty t) - bo_filled_qty w)"

fun call_ok :: "exec_target list \<Rightarrow> real \<Rightarrow> call list \<Rightarrow> call \<Rightarrow> bool" where
  "call_ok T bps tr (CLimit cid sy side q p ks) \<longleftrightarrow>
     ks_allows ks side \<and> \<not> submitted tr cid \<and> CFind cid None \<in> set tr \<and>
     (\<exists>t \<in> set T. cid = lim_id_of t \<and> sy = tg_symbol t \<and> side = tg_side t \<and>
        q = fl_val (tg_qty t) \<and> (\<exists>ref. p = collar_price side ref bps))"
| "call_ok T bps tr (CMarket cid sy side q ks) \<longleftrightarrow>
     ks_allows ks side \<and> \<not> submitted tr cid \<and> CFind cid None \<in> set tr \<and>
     (\<exists>t \<in> set T. cid = mkt_id_of t \<and> sy = tg_symbol t \<and> side = tg_side t \<and>
        (\<exists>w. sees tr (lim_id_of t) w \<and> settled t w \<and> q = residual_of t w \<and> 0 < q))"
| "call_ok T bps tr _ = True"

primrec safe :: "exec_target list \<Rightarrow> real \<Rightarrow> call list \<Rightarrow> bool" where
  "safe T bps [] = True"
| "safe T bps (c # tr) = (call_ok T bps tr c \<and> safe T bps tr)"

lemma submitted_append [simp]: "submitted (xs @ ys) cid \<longleftrightarrow> submitted xs cid \<or> submitted ys cid"
  by (simp add: submitted_def)

lemma submitted_simps [simp]:
  "\<not> submitted [] cid"
  "submitted (CFind c x # tr) cid = submitted tr cid"
  "submitted (CGet c w # tr) cid = submitted tr cid"
  "submitted (CCancel c # tr) cid = submitted tr cid"
  "submitted (CPlaced c w # tr) cid = submitted tr cid"
  "submitted (CLimit c sy side q p ks # tr) cid \<longleftrightarrow> c = cid \<or> submitted tr cid"
  "submitted (CMarket c sy side q ks # tr) cid \<longleftrightarrow> c = cid \<or> submitted tr cid"
  by (simp_all add: submitted_def)

fun quiet :: "call \<Rightarrow> bool" where
  "quiet (CLimit _ _ _ _ _ _) = False"
| "quiet (CMarket _ _ _ _ _) = False"
| "quiet _ = True"

lemma quiet_submits: "quiet c \<Longrightarrow> \<not> submits cid c"
  by (cases c) auto

lemma quiet_call_ok: "quiet c \<Longrightarrow> call_ok T bps tr c"
  by (cases c) auto

lemma quiet_submitted: "list_all quiet new \<Longrightarrow> \<not> submitted new cid"
  by (induction new) (auto simp: submitted_def quiet_submits)

lemma quiet_safe: "list_all quiet new \<Longrightarrow> safe T bps (new @ tr) = safe T bps tr"
  by (induction new) (auto simp: quiet_call_ok)

section \<open>The invariant of a leg\<close>

definition leg_ok :: "call list \<Rightarrow> leg \<Rightarrow> bool" where
  "leg_ok tr l \<longleftrightarrow>
     lg_lim_id l = lim_id_of (lg_target l) \<and> lg_mkt_id l = mkt_id_of (lg_target l) \<and>
     (\<forall>w. lg_lim l = Some w \<longrightarrow> sees tr (lg_lim_id l) w) \<and>
     (lg_lim l = None \<longrightarrow> CFind (lg_lim_id l) None \<in> set tr) \<and>
     (live l \<and> lg_lim l = None \<longrightarrow> \<not> submitted tr (lg_lim_id l)) \<and>
     (live l \<and> lg_mkt l = None \<longrightarrow> \<not> submitted tr (lg_mkt_id l)) \<and>
     (lg_residual_pending l \<longrightarrow>
        (\<exists>w. lg_lim l = Some w \<and> settled (lg_target l) w \<and>
             lg_residual l = residual_of (lg_target l) w \<and> 0 < lg_residual l))"

text \<open>The part of a leg the invariant reads.\<close>

definition core :: "leg \<Rightarrow> leg" where
  "core l = l\<lparr>lg_fresh_ref := None, lg_records := [], lg_price := None\<rparr>"

lemma core_upd [simp]:
  "core (l\<lparr>lg_fresh_ref := a\<rparr>) = core l"
  "core (l\<lparr>lg_records := b\<rparr>) = core l"
  "core (l\<lparr>lg_price := c\<rparr>) = core l"
  by (simp_all add: core_def)

lemma core_eqD:
  assumes "core l = core k"
  shows "lg_target l = lg_target k" and "lg_lim_id l = lg_lim_id k" and "lg_mkt_id l = lg_mkt_id k"
    and "lg_lim l = lg_lim k" and "lg_mkt l = lg_mkt k" and "lg_error l = lg_error k"
    and "lg_residual l = lg_residual k" and "lg_residual_pending l = lg_residual_pending k"
    and "lg_open l = lg_open k"
  using assms by (cases l; cases k; simp add: core_def)+

lemma leg_ok_core: "core l = core k \<Longrightarrow> leg_ok tr l = leg_ok tr k"
  using core_eqD [of l k] by (simp add: leg_ok_def live_def)

lemma leg_ok_upd [simp]:
  "leg_ok tr (l\<lparr>lg_fresh_ref := a\<rparr>) = leg_ok tr l"
  "leg_ok tr (l\<lparr>lg_records := b\<rparr>) = leg_ok tr l"
  "leg_ok tr (l\<lparr>lg_price := c\<rparr>) = leg_ok tr l"
  "leg_ok tr (l\<lparr>lg_blocked := d\<rparr>) = leg_ok tr l"
  by (simp_all add: leg_ok_def live_def)

lemma leg_ok_mono:
  assumes "leg_ok tr l" and "set tr \<subseteq> set tr'"
    and "submitted tr' (lg_lim_id l) \<Longrightarrow> submitted tr (lg_lim_id l)"
    and "submitted tr' (lg_mkt_id l) \<Longrightarrow> submitted tr (lg_mkt_id l)"
  shows "leg_ok tr' l"
  using assms unfolding leg_ok_def by (auto intro: sees_mono)

lemma leg_ok_error: "leg_ok tr l \<Longrightarrow> leg_ok tr (l\<lparr>lg_error := Some e\<rparr>)"
  by (auto simp: leg_ok_def live_def)

section \<open>Triples\<close>

definition grows :: "exec_target \<Rightarrow> call list \<Rightarrow> call list \<Rightarrow> bool" where
  "grows t tr tr' \<longleftrightarrow>
     (\<exists>new. tr' = new @ tr \<and>
        (\<forall>cid. submitted new cid \<longrightarrow> cid = lim_id_of t \<or> cid = mkt_id_of t))"

lemma grows_refl [simp]: "grows t tr tr"
  by (simp add: grows_def)

lemma grows_trans: "grows t a b \<Longrightarrow> grows t b c \<Longrightarrow> grows t a c"
  unfolding grows_def by (elim exE conjE) (auto simp del: append_assoc simp: append_assoc [symmetric])

text \<open>
  A step keeps a leg in order, whatever it returns: started on a safe trace and an orderly leg of
  the book it leaves a safe trace and an orderly leg, marked by the error if it raised. \<open>P\<close> and
  \<open>Q\<close> are what else is known before and after.
\<close>

definition triple ::
  "exec_target list \<Rightarrow> real \<Rightarrow> ('w \<Rightarrow> call list \<Rightarrow> leg \<Rightarrow> bool) \<Rightarrow> ('w \<times> call list, 'a) leg_eff
   \<Rightarrow> ('a \<Rightarrow> 'w \<Rightarrow> call list \<Rightarrow> leg \<Rightarrow> bool) \<Rightarrow> bool" where
  "triple T bps P m Q \<longleftrightarrow>
     (\<forall>w tr l r w' tr' l'.
        m ((w, tr), l) = (r, ((w', tr'), l')) \<longrightarrow> safe T bps tr \<longrightarrow> leg_ok tr l \<longrightarrow>
        lg_target l \<in> set T \<longrightarrow> P w tr l \<longrightarrow>
        safe T bps tr' \<and> lg_target l' = lg_target l \<and> grows (lg_target l) tr tr' \<and>
        (case r of Inl e \<Rightarrow> leg_ok tr' (l'\<lparr>lg_error := Some e\<rparr>)
                 | Inr x \<Rightarrow> leg_ok tr' l' \<and> Q x w' tr' l'))"

lemma tripleD:
  assumes "triple T bps P m Q" and "m ((w, tr), l) = (r, ((w', tr'), l'))"
    and "safe T bps tr" and "leg_ok tr l" and "lg_target l \<in> set T" and "P w tr l"
  shows "safe T bps tr'" and "lg_target l' = lg_target l" and "grows (lg_target l) tr tr'"
    and "r = Inl e \<Longrightarrow> leg_ok tr' (l'\<lparr>lg_error := Some e\<rparr>)"
    and "r = Inr x \<Longrightarrow> leg_ok tr' l' \<and> Q x w' tr' l'"
  using assms unfolding triple_def by fastforce+

lemma triple_bnd:
  assumes m: "triple T bps P m Q" and f: "\<And>x. triple T bps (Q x) (f x) R"
  shows "triple T bps P (bnd m f) R"
  unfolding triple_def
proof (intro allI impI)
  fix w tr l r w' tr' l'
  assume run: "bnd m f ((w, tr), l) = (r, ((w', tr'), l'))"
    and pre: "safe T bps tr" "leg_ok tr l" "lg_target l \<in> set T" "P w tr l"
  obtain r1 w1 tr1 l1 where one: "m ((w, tr), l) = (r1, ((w1, tr1), l1))"
    by (metis prod.collapse)
  note d = tripleD [OF m one pre]
  show "safe T bps tr' \<and> lg_target l' = lg_target l \<and> grows (lg_target l) tr tr' \<and>
        (case r of Inl e \<Rightarrow> leg_ok tr' (l'\<lparr>lg_error := Some e\<rparr>)
                 | Inr x \<Rightarrow> leg_ok tr' l' \<and> R x w' tr' l')"
  proof (cases r1)
    case (Inl e)
    with one run have "r = Inl e" and "w' = w1" and "tr' = tr1" and "l' = l1"
      by (simp_all add: bnd_def)
    with d(1-3) d(4) [OF Inl] show ?thesis by simp
  next
    case (Inr x)
    with one run have two: "f x ((w1, tr1), l1) = (r, ((w', tr'), l'))"
      by (simp add: bnd_def)
    from d(5) [OF Inr] have ok: "leg_ok tr1 l1" "Q x w1 tr1 l1" by simp_all
    from d(2) pre(3) have mem: "lg_target l1 \<in> set T" by simp
    note e = tripleD [OF f two d(1) ok(1) mem ok(2)]
    from e(2) d(2) have "lg_target l' = lg_target l" by simp
    moreover have "grows (lg_target l) tr tr'"
      using d(3) e(3) d(2) by (metis grows_trans)
    ultimately show ?thesis using e(1,4,5) by (cases r) auto
  qed
qed

lemma triple_weaken:
  assumes "triple T bps P m Q" and "\<And>w tr l. P' w tr l \<Longrightarrow> leg_ok tr l \<Longrightarrow> P w tr l"
    and "\<And>x w tr l. Q x w tr l \<Longrightarrow> leg_ok tr l \<Longrightarrow> Q' x w tr l"
  shows "triple T bps P' m Q'"
  unfolding triple_def
proof (intro allI impI)
  fix w tr l r w' tr' l'
  assume run: "m ((w, tr), l) = (r, ((w', tr'), l'))"
    and pre: "safe T bps tr" "leg_ok tr l" "lg_target l \<in> set T" "P' w tr l"
  note d = tripleD [OF assms(1) run pre(1-3) assms(2) [OF pre(4,2)]]
  show "safe T bps tr' \<and> lg_target l' = lg_target l \<and> grows (lg_target l) tr tr' \<and>
        (case r of Inl e \<Rightarrow> leg_ok tr' (l'\<lparr>lg_error := Some e\<rparr>)
                 | Inr x \<Rightarrow> leg_ok tr' l' \<and> Q' x w' tr' l')"
    using d assms(3) by (cases r) auto
qed

lemma triple_ret: "(\<And>w tr l. P w tr l \<Longrightarrow> leg_ok tr l \<Longrightarrow> Q x w tr l) \<Longrightarrow> triple T bps P (ret x) Q"
  by (simp add: triple_def)

lemma triple_throw: "triple T bps P (throw e) Q"
  by (auto simp: triple_def leg_ok_error)

lemma triple_get_leg: "triple T bps P get_leg (\<lambda>x w tr l. x = l \<and> P w tr l)"
  by (simp add: triple_def get_leg_def)

lemma triple_set_leg:
  assumes "\<And>w tr l. P w tr l \<Longrightarrow> leg_ok tr l \<Longrightarrow>
             leg_ok tr (f l) \<and> lg_target (f l) = lg_target l \<and> Q w tr (f l)"
  shows "triple T bps P (set_leg f) (\<lambda>_. Q)"
  using assms by (simp add: triple_def set_leg_def)

lemma triple_allows_now:
  "triple T bps P (allows_now (traced ex) side)
     (\<lambda>ok w tr l. ok = ks_allows (ex_switch ex w) side \<and> P w tr l)"
  by (simp add: triple_def allows_now_def)

lemma triple_unlogged:
  "triple T bps (\<lambda>_. P) (on_world (unlogged m)) (\<lambda>_ _. P)"
  unfolding triple_def on_world_def unlogged_def
  by (auto split: prod.splits sum.splits simp: leg_ok_error)

text \<open>Calls that submit nothing.\<close>

lemma quiet_grows: "list_all quiet new \<Longrightarrow> grows t tr (new @ tr)"
  by (auto simp: grows_def quiet_submitted)

lemma quiet_leg_ok: "list_all quiet new \<Longrightarrow> leg_ok tr l \<Longrightarrow> leg_ok (new @ tr) l"
  by (erule leg_ok_mono) (auto simp: quiet_submitted)

lemma triple_quiet:
  assumes quiet: "\<And>w tr r w' tr'. m (w, tr) = (r, (w', tr')) \<Longrightarrow>
        \<exists>new. tr' = new @ tr \<and> list_all quiet new"
    and Q: "\<And>w tr x w' tr' l. P w tr l \<Longrightarrow> m (w, tr) = (Inr x, (w', tr')) \<Longrightarrow>
        set tr \<subseteq> set tr' \<Longrightarrow> Q x w' tr' l"
  shows "triple T bps P (on_world m) Q"
  unfolding triple_def
proof (intro allI impI)
  fix w tr l r w' tr' l'
  assume "on_world m ((w, tr), l) = (r, ((w', tr'), l'))"
    and pre: "safe T bps tr" "leg_ok tr l" "lg_target l \<in> set T" "P w tr l"
  then have run: "m (w, tr) = (r, (w', tr'))" and l': "l' = l"
    by (auto simp: on_world_def split: prod.splits)
  from quiet [OF run] obtain new where new: "tr' = new @ tr" "list_all quiet new" by blast
  have "r = Inr x \<Longrightarrow> Q x w' tr' l" for x
    using Q [OF pre(4)] run by (simp add: new)
  with new pre quiet_leg_ok [OF new(2) pre(2)]
  show "safe T bps tr' \<and> lg_target l' = lg_target l \<and> grows (lg_target l) tr tr' \<and>
      (case r of Inl e \<Rightarrow> leg_ok tr' (l'\<lparr>lg_error := Some e\<rparr>) | Inr x \<Rightarrow> leg_ok tr' l' \<and> Q x w' tr' l')"
    by (cases r) (auto simp: l' quiet_safe quiet_grows leg_ok_error)
qed

section \<open>The steps of a leg\<close>

lemma lim_id_neq_mkt_id [simp]: "lim_id_of t \<noteq> mkt_id_of t'" "mkt_id_of t' \<noteq> lim_id_of t"
proof -
  have "last (lim_id_of t) \<noteq> last (mkt_id_of t')"
    by (simp add: lim_id_of_def mkt_id_of_def client_order_id_def)
  then show "lim_id_of t \<noteq> mkt_id_of t'" and "mkt_id_of t' \<noteq> lim_id_of t" by auto
qed

text \<open>What a step knows about its leg, and keeps as long as the trace only grows.\<close>

definition known :: "leg \<Rightarrow> call set \<Rightarrow> call list \<Rightarrow> leg \<Rightarrow> bool" where
  "known k S tr l \<longleftrightarrow> core l = core k \<and> S \<subseteq> set tr"

lemma triple_ref_get:
  "triple T bps (\<lambda>_. known k S) (ref_get (traced ex) (unlogged m) cid) (\<lambda>_ _. known k S)"
proof -
  have look: "triple T bps (\<lambda>_. known k S)
      (bnd (on_world (unlogged m)) (\<lambda>p. bnd (set_leg (\<lambda>l. l\<lparr>lg_fresh_ref := Some p\<rparr>)) (\<lambda>_. ret p)))
      (\<lambda>_ _. known k S)"
    by (rule triple_bnd [OF triple_unlogged], rule triple_bnd [OF triple_set_leg [where Q = "\<lambda>_. known k S"]])
      (auto simp: known_def intro: triple_ret)
  have memo: "triple T bps (\<lambda>_. known k S)
      (bnd get_leg (\<lambda>l. case lg_fresh_ref l of Some p \<Rightarrow> ret p
         | None \<Rightarrow> bnd (on_world (unlogged m))
             (\<lambda>p. bnd (set_leg (\<lambda>l. l\<lparr>lg_fresh_ref := Some p\<rparr>)) (\<lambda>_. ret p))))
      (\<lambda>_ _. known k S)"
    by (rule triple_bnd [OF triple_get_leg])
      (auto split: option.split intro: triple_ret triple_weaken [OF look])
  show ?thesis
    unfolding ref_get_def traced_simps
    by (rule triple_bnd [OF triple_unlogged]) (auto split: option.split intro: triple_ret memo)
qed

lemma triple_leg_note:
  "triple T bps (\<lambda>_. known k S) (leg_note (traced ex) (unlogged m) w) (\<lambda>_ _. known k S)"
proof -
  have keep: "triple T bps (\<lambda>_. known k S)
      (bnd (on_world (unlogged n)) (\<lambda>_. set_leg (\<lambda>l. l\<lparr>lg_records := lg_records l @ rs\<rparr>)))
      (\<lambda>_ _. known k S)" for n rs
    by (rule triple_bnd [OF triple_unlogged], rule triple_set_leg) (auto simp: known_def)
  show ?thesis
    unfolding leg_note_def traced_simps Let_def
    apply (rule triple_bnd [OF triple_get_leg])
    apply (rule triple_bnd [where Q = "\<lambda>_ _. known k S"])
     apply (rule triple_weaken [OF triple_ref_get])
      apply auto[2]
    apply (simp add: triple_throw keep)
    done
qed

text \<open>So a step of this kind keeps every property of the part of the leg the invariant reads.\<close>

lemma triple_known_keeps:
  assumes m: "\<And>k. triple T bps (\<lambda>_. known k {}) m (\<lambda>_ _. known k {})"
    and R: "\<And>l k. core l = core k \<Longrightarrow> R l \<Longrightarrow> R k"
  shows "triple T bps (\<lambda>_ _. R) m (\<lambda>_ _ _. R)"
  unfolding triple_def
proof (intro allI impI)
  fix w tr l r w' tr' l'
  assume run: "m ((w, tr), l) = (r, ((w', tr'), l'))"
    and pre: "safe T bps tr" "leg_ok tr l" "lg_target l \<in> set T" "R l"
  have "known l {} tr l" by (simp add: known_def)
  note d = tripleD [OF m run pre(1-3) this]
  have "r = Inr x \<Longrightarrow> leg_ok tr' l' \<and> R l'" for x
    using d(5) R [of l l'] pre(4) by (auto simp: known_def)
  with d(1-4) show "safe T bps tr' \<and> lg_target l' = lg_target l \<and> grows (lg_target l) tr tr' \<and>
      (case r of Inl e \<Rightarrow> leg_ok tr' (l'\<lparr>lg_error := Some e\<rparr>) | Inr x \<Rightarrow> leg_ok tr' l' \<and> R l')"
    by (cases r) auto
qed

lemma triple_resolve_reference:
  "triple T bps (\<lambda>_. known k S) (resolve_reference (traced ex) (unlogged m)) (\<lambda>_ _. known k S)"
  unfolding resolve_reference_def
  apply (rule triple_bnd [OF triple_get_leg])
  apply (rule triple_bnd [where Q = "\<lambda>_ _. known k S"])
   apply (rule triple_weaken [OF triple_ref_get])
    apply auto[2]
  apply (rule triple_set_leg)
  apply (auto simp: known_def)
  done

text \<open>One submission, however it goes: the call, and then only questions and answers.\<close>

lemma submit_once_traced:
  assumes "submit_once (traced ex) cid (logged (\<lambda>w. [c w]) (\<lambda>x. [CPlaced cid x]) m) (w, tr) = (r, (w', tr'))"
  obtains new where "tr' = new @ c w # tr" and "list_all quiet new"
    and "\<And>x. r = Inr x \<Longrightarrow> sees tr' cid x"
proof -
  obtain r1 w1 where m: "m w = (r1, w1)" by (metis prod.collapse)
  show thesis
  proof (cases r1)
    case (Inr x)
    with m assms have "r = Inr x" "tr' = [CPlaced cid x] @ c w # tr"
      by (simp_all add: submit_once_def catch_def logged_def)
    then show thesis by (intro that [of "[CPlaced cid x]"]) (auto intro: sees.placed)
  next
    case (Inl e)
    show thesis
    proof (cases "is_broker_error e")
      case False
      with Inl m assms have "r = Inl e" "tr' = [] @ c w # tr"
        by (simp_all add: submit_once_def catch_def logged_def)
      then show thesis by (intro that [of "[]"]) auto
    next
      case True
      obtain r2 w2 where f: "gw_find_by_client_id (ex_gw ex) cid w1 = (r2, w2)"
        by (metis prod.collapse)
      show thesis
      proof (cases r2)
        case (Inl e2)
        with f True \<open>r1 = Inl e\<close> m assms have "r = Inl e2" "tr' = [] @ c w # tr"
          by (simp_all add: submit_once_def catch_def logged_def bnd_def)
        then show thesis by (intro that [of "[]"]) auto
      next
        case (Inr fnd)
        with f True \<open>r1 = Inl e\<close> m assms
        have "tr' = [CFind cid fnd] @ c w # tr" "r = (case fnd of None \<Rightarrow> Inl e | Some x \<Rightarrow> Inr x)"
          by (auto simp: submit_once_def catch_def logged_def bnd_def split: option.splits)
        then show thesis
          by (intro that [of "[CFind cid fnd]"]) (auto intro: sees.found split: option.splits)
      qed
    qed
  qed
qed

text \<open>Submitting and taking the answer into the leg is one step of the invariant.\<close>

lemma triple_submit:
  assumes ok: "\<And>w tr l. P w tr l \<Longrightarrow> leg_ok tr l \<Longrightarrow> lg_target l \<in> set T \<Longrightarrow>
        call_ok T bps tr (c w) \<and> (cid = lim_id_of (lg_target l) \<or> cid = mkt_id_of (lg_target l))"
    and c: "\<And>w cid'. submits cid' (c w) = (cid' = cid)"
    and err: "\<And>w tr l tr' e. P w tr l \<Longrightarrow> leg_ok tr l \<Longrightarrow> set tr \<subseteq> set tr' \<Longrightarrow>
        (\<And>cid'. submitted tr' cid' \<Longrightarrow> cid' = cid \<or> submitted tr cid') \<Longrightarrow>
        leg_ok tr' (l\<lparr>lg_error := Some e\<rparr>)"
    and upd: "\<And>w tr l tr' x. P w tr l \<Longrightarrow> leg_ok tr l \<Longrightarrow> set tr \<subseteq> set tr' \<Longrightarrow>
        (\<And>cid'. submitted tr' cid' \<Longrightarrow> cid' = cid \<or> submitted tr cid') \<Longrightarrow>
        sees tr' cid x \<Longrightarrow> leg_ok tr' (f x l) \<and> lg_target (f x l) = lg_target l \<and> Q tr' (f x l)"
  shows "triple T bps P
     (bnd (on_world (submit_once (traced ex) cid (logged (\<lambda>w. [c w]) (\<lambda>x. [CPlaced cid x]) m)))
        (\<lambda>x. bnd (set_leg (f x)) (\<lambda>_. ret x)))
     (\<lambda>_ _. Q)"
  unfolding triple_def
proof (intro allI impI)
  fix w tr l r w' tr' l'
  assume run: "bnd (on_world (submit_once (traced ex) cid
        (logged (\<lambda>w. [c w]) (\<lambda>x. [CPlaced cid x]) m))) (\<lambda>x. bnd (set_leg (f x)) (\<lambda>_. ret x)) ((w, tr), l)
      = (r, ((w', tr'), l'))"
    and pre: "safe T bps tr" "leg_ok tr l" "lg_target l \<in> set T" "P w tr l"
  obtain r1 w1 tr1 where s: "submit_once (traced ex) cid
      (logged (\<lambda>w. [c w]) (\<lambda>x. [CPlaced cid x]) m) (w, tr) = (r1, (w1, tr1))"
    by (metis prod.collapse)
  from submit_once_traced [OF s] obtain new where new: "tr1 = new @ c w # tr" "list_all quiet new"
    and see: "\<And>x. r1 = Inr x \<Longrightarrow> sees tr1 cid x" by blast
  from s run have out: "tr' = tr1" "r1 = Inl e \<Longrightarrow> r = Inl e \<and> l' = l"
      "r1 = Inr x \<Longrightarrow> r = Inr x \<and> l' = f x l" for e x
    by (auto simp: bnd_def on_world_def set_leg_def split: sum.splits)
  have sub: "submitted tr' cid' \<Longrightarrow> cid' = cid \<or> submitted tr cid'" for cid'
    using new c [of cid' w] quiet_submitted [OF new(2)] by (auto simp: out(1) submitted_def)
  have sup: "set tr \<subseteq> set tr'" by (auto simp: out(1) new)
  have "safe T bps tr'"
    using ok [OF pre(4,2,3)] pre(1) by (simp add: out(1) new quiet_safe)
  moreover have "grows (lg_target l) tr tr'"
    unfolding grows_def out(1) new(1)
    using ok [OF pre(4,2,3)] c quiet_submitted [OF new(2)]
    by (intro exI [of _ "new @ [c w]"]) (auto simp: submitted_def)
  ultimately show "safe T bps tr' \<and> lg_target l' = lg_target l \<and> grows (lg_target l) tr tr' \<and>
        (case r of Inl e \<Rightarrow> leg_ok tr' (l'\<lparr>lg_error := Some e\<rparr>)
                 | Inr x \<Rightarrow> leg_ok tr' l' \<and> Q tr' l')"
    using out(2,3) see err [OF pre(4,2) sup sub] upd [OF pre(4,2) sup sub]
    by (cases r1) (auto simp: out(1))
qed

lemma triple_then_note:
  assumes "triple T bps P (bnd m (\<lambda>x. bnd (set_leg (f x)) (\<lambda>_. ret x))) (\<lambda>_ _ _. R)"
    and "\<And>l k. core l = core k \<Longrightarrow> R l \<Longrightarrow> R k"
  shows "triple T bps P
    (bnd m (\<lambda>x. bnd (set_leg (f x)) (\<lambda>_. leg_note (traced ex) (unlogged n) x))) (\<lambda>_ _ _. R)"
proof -
  have "triple T bps P (bnd (bnd m (\<lambda>x. bnd (set_leg (f x)) (\<lambda>_. ret x)))
      (\<lambda>x. leg_note (traced ex) (unlogged n) x)) (\<lambda>_ _ _. R)"
    by (rule triple_bnd [OF assms(1)]) (rule triple_known_keeps [OF triple_leg_note assms(2)])
  then show ?thesis by (simp add: bnd_assoc bnd_ret)
qed

definition to_open :: "leg \<Rightarrow> bool" where
  "to_open l \<longleftrightarrow> live l \<and> lg_lim l = None \<and> lg_mkt l = None"

lemma leg_okD:
  assumes "leg_ok tr l"
  shows "lg_lim_id l = lim_id_of (lg_target l)" and "lg_mkt_id l = mkt_id_of (lg_target l)"
    and "lg_lim l = Some w \<Longrightarrow> sees tr (lim_id_of (lg_target l)) w"
    and "lg_lim l = None \<Longrightarrow> CFind (lim_id_of (lg_target l)) None \<in> set tr"
    and "live l \<Longrightarrow> lg_lim l = None \<Longrightarrow> \<not> submitted tr (lim_id_of (lg_target l))"
    and "live l \<Longrightarrow> lg_mkt l = None \<Longrightarrow> \<not> submitted tr (mkt_id_of (lg_target l))"
    and "lg_residual_pending l \<Longrightarrow> \<exists>w. lg_lim l = Some w \<and> settled (lg_target l) w \<and>
           lg_residual l = residual_of (lg_target l) w \<and> 0 < lg_residual l"
  using assms by (auto simp: leg_ok_def)

lemma leg_ok_err_mono:
  assumes "leg_ok tr l" and "set tr \<subseteq> set tr'"
  shows "leg_ok tr' (l\<lparr>lg_error := Some e\<rparr>)"
  using assms unfolding leg_ok_def by (auto simp: live_def intro: sees_mono)

lemma triple_submit_limit:
  "triple T (ex_collar_bps ex) (\<lambda>_ _ l. to_open l)
     (submit_limit (traced ex) (unlogged m)) (\<lambda>_ _ _ l. lg_mkt l = None)"
proof -
  have send: "triple T (ex_collar_bps ex)
      (\<lambda>w tr l. to_open l \<and> l = k \<and> ks_allows (ex_switch ex w) (tg_side (lg_target k)))
      (bnd (on_world (submit_once (traced ex) (lg_lim_id k)
          (logged (\<lambda>w. [CLimit (lg_lim_id k) (tg_symbol (lg_target k)) (tg_side (lg_target k))
              (fl_val (tg_qty (lg_target k)))
              (collar_price (tg_side (lg_target k)) p (ex_collar_bps ex)) (ex_switch ex w)])
            (\<lambda>x. [CPlaced (lg_lim_id k) x]) n)))
        (\<lambda>w. bnd (set_leg (\<lambda>l. l\<lparr>lg_lim := Some w\<rparr>)) (\<lambda>_. ret w)))
      (\<lambda>_ _ _ l. lg_mkt l = None)" for k p and n :: "('a, exn, broker_order) eff"
  proof (rule triple_submit, goal_cases)
    case (1 w tr l)
    then show ?case using leg_okD [of tr l] by (auto simp: to_open_def)
  next
    case 2
    show ?case by auto
  next
    case 3
    then show ?case by (auto intro: leg_ok_err_mono)
  next
    case (4 w tr l tr' x)
    from 4(1) 4(4) [of "mkt_id_of (lg_target l)"] leg_okD [OF 4(2)] have "\<not> submitted tr' (mkt_id_of (lg_target l))"
      by (auto simp: to_open_def)
    with 4 leg_okD [OF 4(2)] show ?case by (auto simp: leg_ok_def to_open_def)
  qed
  have step: "triple T (ex_collar_bps ex)
      (\<lambda>w tr l. to_open l \<and> l = k \<and> ks_allows (ex_switch ex w) (tg_side (lg_target k)))
      (bnd (on_world (submit_once (traced ex) (lg_lim_id k)
          (logged (\<lambda>w. [CLimit (lg_lim_id k) (tg_symbol (lg_target k)) (tg_side (lg_target k))
              (fl_val (tg_qty (lg_target k)))
              (collar_price (tg_side (lg_target k)) p (ex_collar_bps ex)) (ex_switch ex w)])
            (\<lambda>x. [CPlaced (lg_lim_id k) x]) n)))
        (\<lambda>w. bnd (set_leg (\<lambda>l. l\<lparr>lg_lim := Some w\<rparr>)) (\<lambda>_. leg_note (traced ex) (unlogged m) w)))
      (\<lambda>_ _ _ l. lg_mkt l = None)" for k p and n :: "('a, exn, broker_order) eff"
    by (rule triple_then_note [OF send]) (auto dest: core_eqD)
  show ?thesis
    unfolding submit_limit_def Let_def
    apply (rule triple_bnd [OF triple_get_leg])
    apply (rule triple_bnd [OF triple_allows_now])
    apply (auto simp: to_open_def split: option.split intro!: triple_throw triple_set_leg)
    apply (rule triple_weaken [OF step])
     apply (auto simp: to_open_def)
    done
qed

lemma triple_cancel_limit:
  "triple T bps (\<lambda>_ _ l. lg_mkt l = None) (cancel_limit (traced ex)) (\<lambda>_ _ _ l. lg_mkt l = None)"
proof -
  have read: "triple T bps (\<lambda>_ _ l. l = k \<and> lg_mkt k = None)
      (on_world (logged (\<lambda>_. []) (\<lambda>x. [CGet b x]) n))
      (\<lambda>x _ tr l. l = k \<and> lg_mkt k = None \<and> CGet b x \<in> set tr)"
    for k b and n :: "('a, exn, broker_order) eff"
    by (rule triple_quiet) (auto simp: logged_def split: prod.splits sum.splits)
  have upd: "triple T bps (\<lambda>_ tr l. l = k \<and> lg_mkt k = None \<and> CGet (bo_broker_order_id lm) x \<in> set tr)
      (set_leg (\<lambda>l. l\<lparr>lg_lim := Some x\<rparr>)) (\<lambda>_ _ _ l. lg_mkt l = None)"
    if "lg_lim k = Some lm" "\<not> terminal (bo_status lm)" for k lm x
    using that
    by (intro triple_set_leg) (auto simp: leg_ok_def live_def settled_def intro: sees.reread)
  have cancel: "triple T bps (\<lambda>_ _ l. lg_mkt l = None)
      (on_world (catch (logged (\<lambda>_. [CCancel b]) (\<lambda>_. []) n)
         (\<lambda>e. if e = OrderNotCancelableError then ret () else throw e)))
      (\<lambda>_ _ _ l. lg_mkt l = None)" for b and n :: "('a, exn, unit) eff"
    by (rule triple_quiet) (auto simp: logged_def catch_def split: prod.splits sum.splits if_splits)
  have inner: "triple T bps (\<lambda>_ _ l. l = k \<and> lg_mkt k = None)
      (bnd (on_world (gw_get_order (ex_gw (traced ex)) (bo_broker_order_id lm))) (\<lambda>now.
         bnd (set_leg (\<lambda>l. l\<lparr>lg_lim := Some now\<rparr>)) (\<lambda>_.
           if terminal (bo_status now) then ret ()
           else on_world (catch (gw_cancel_order (ex_gw (traced ex)) (bo_broker_order_id now))
                  (\<lambda>e. if e = OrderNotCancelableError then ret () else throw e)))))
      (\<lambda>_ _ _ l. lg_mkt l = None)" if "lg_lim k = Some lm" "\<not> terminal (bo_status lm)" for k lm
    unfolding traced_simps traced_gateway_simps
  proof (rule triple_bnd [OF read triple_bnd [OF upd [OF that]]])
    fix x :: broker_order
    show "triple T bps (\<lambda>_ _ l. lg_mkt l = None) (if terminal (bo_status x) then ret ()
           else on_world (catch (logged (\<lambda>_. [CCancel (bo_broker_order_id x)]) (\<lambda>_. [])
                (gw_cancel_order (ex_gw ex) (bo_broker_order_id x)))
                  (\<lambda>e. if e = OrderNotCancelableError then ret () else throw e)))
        (\<lambda>_ _ _ l. lg_mkt l = None)"
      by (cases "terminal (bo_status x)") (simp_all only: if_True if_False cancel, simp add: triple_def)
  qed
  show ?thesis
    unfolding cancel_limit_def
  proof (rule triple_bnd [OF triple_get_leg])
    fix k :: leg
    show "triple T bps (\<lambda>_ _ l. k = l \<and> lg_mkt l = None)
      (case lg_lim k of None \<Rightarrow> ret () | Some lm \<Rightarrow> if terminal (bo_status lm) then ret () else
         bnd (on_world (gw_get_order (ex_gw (traced ex)) (bo_broker_order_id lm))) (\<lambda>now.
         bnd (set_leg (\<lambda>l. l\<lparr>lg_lim := Some now\<rparr>)) (\<lambda>_.
           if terminal (bo_status now) then ret ()
           else on_world (catch (gw_cancel_order (ex_gw (traced ex)) (bo_broker_order_id now))
                  (\<lambda>e. if e = OrderNotCancelableError then ret () else throw e)))))
      (\<lambda>_ _ _ l. lg_mkt l = None)"
    proof (cases "lg_lim k")
      case None
      then show ?thesis by (auto simp: triple_def)
    next
      case (Some lm)
      show ?thesis
      proof (cases "terminal (bo_status lm)")
        case True
        with Some show ?thesis by (simp add: triple_def)
      next
        case False
        with Some show ?thesis
          by (simp only: option.case if_False) (rule triple_weaken [OF inner [OF Some False]], auto)
      qed
    qed
  qed
qed

lemma triple_guard_overfill:
  "triple T bps (\<lambda>_. P) (guard_overfill t q) (\<lambda>_ _ tr l. P tr l \<and> q \<le> fl_val (tg_qty t) + EPS)"
  by (auto simp: guard_overfill_def intro: triple_throw triple_ret)

lemma triple_close_limit:
  "triple T bps (\<lambda>_ _ l. lg_mkt l = None) (close_limit (traced ex) (unlogged m))
     (\<lambda>_ _ _ l. lg_mkt l = None)"
proof -
  have fin: "triple T bps (\<lambda>_ tr l. known k {} tr l)
     (set_leg (\<lambda>l. l\<lparr>lg_residual := residual_of (lg_target k) lm,
                    lg_residual_pending := 0 < residual_of (lg_target k) lm\<rparr>))
     (\<lambda>_ _ _ l. lg_mkt l = None)"
    if "lg_mkt k = None" and "lg_lim k = Some lm" and "settled (lg_target k) lm" for k lm
  proof (rule triple_set_leg, goal_cases)
    case (1 w tr l)
    then have "core l = core k" by (simp add: known_def)
    note c = core_eqD [OF this]
    from 1(2) that show ?case by (auto simp: leg_ok_def live_def c)
  qed
  have guard: "triple T bps (\<lambda>_. known k {}) (guard_overfill t q)
      (\<lambda>_ _ tr l. known k {} tr l \<and> q \<le> fl_val (tg_qty t) + EPS)" for k t q
    by (rule triple_guard_overfill)
  have tail: "triple T bps (\<lambda>_ tr l. known k {} tr l \<and> bo_filled_qty lm \<le> fl_val (tg_qty (lg_target k)) + EPS)
     (if bo_status lm = REJECTED then ret () else
      set_leg (\<lambda>l. l\<lparr>lg_residual := residual_of (lg_target k) lm,
                    lg_residual_pending := 0 < residual_of (lg_target k) lm\<rparr>))
     (\<lambda>_ _ _ l. lg_mkt l = None)"
    if "lg_mkt k = None" and "lg_lim k = Some lm" and "terminal (bo_status lm)" for k lm
  proof (cases "bo_status lm = REJECTED")
    case True
    then show ?thesis using that(1) by (auto simp: known_def triple_def dest: core_eqD)
  next
    case False
    have "triple T bps (\<lambda>_ tr l. known k {} tr l \<and> bo_filled_qty lm \<le> fl_val (tg_qty (lg_target k)) + EPS)
     (set_leg (\<lambda>l. l\<lparr>lg_residual := residual_of (lg_target k) lm,
                    lg_residual_pending := 0 < residual_of (lg_target k) lm\<rparr>)) (\<lambda>_ _ _ l. lg_mkt l = None)"
    proof (cases "settled (lg_target k) lm")
      case True
      show ?thesis by (rule triple_weaken [OF fin [OF that(1,2) True]]) auto
    next
      case notset: False
      have "\<not> bo_filled_qty lm \<le> fl_val (tg_qty (lg_target k)) + EPS"
        using notset False that(3) by (simp add: settled_def)
      then show ?thesis by (simp add: triple_def)
    qed
    with False show ?thesis by simp
  qed
  have all: "triple T bps (\<lambda>_. known k {})
     (bnd (leg_note (traced ex) (unlogged m) lm) (\<lambda>_.
        if \<not> terminal (bo_status lm) then throw CancelNotConfirmedError
        else bnd (guard_overfill (lg_target k) (bo_filled_qty lm)) (\<lambda>_.
          if bo_status lm = REJECTED then ret () else
          set_leg (\<lambda>l. l\<lparr>lg_residual := residual_of (lg_target k) lm,
                    lg_residual_pending := 0 < residual_of (lg_target k) lm\<rparr>))))
     (\<lambda>_ _ _ l. lg_mkt l = None)" if "lg_mkt k = None" and "lg_lim k = Some lm" for k lm
  proof (rule triple_bnd [OF triple_leg_note], cases "terminal (bo_status lm)")
    case True
    show "triple T bps (\<lambda>_. known k {})
       (if \<not> terminal (bo_status lm) then throw CancelNotConfirmedError
        else bnd (guard_overfill (lg_target k) (bo_filled_qty lm)) (\<lambda>_.
          if bo_status lm = REJECTED then ret () else
          set_leg (\<lambda>l. l\<lparr>lg_residual := residual_of (lg_target k) lm,
                    lg_residual_pending := 0 < residual_of (lg_target k) lm\<rparr>)))
       (\<lambda>_ _ _ l. lg_mkt l = None)"
      apply (simp only: True not_True_eq_False if_False)
      apply (rule triple_bnd [OF guard])
      apply (rule tail [OF that True])
      done
  next
    case False
    then show "triple T bps (\<lambda>_. known k {})
       (if \<not> terminal (bo_status lm) then throw CancelNotConfirmedError
        else bnd (guard_overfill (lg_target k) (bo_filled_qty lm)) (\<lambda>_.
          if bo_status lm = REJECTED then ret () else
          set_leg (\<lambda>l. l\<lparr>lg_residual := residual_of (lg_target k) lm,
                    lg_residual_pending := 0 < residual_of (lg_target k) lm\<rparr>)))
       (\<lambda>_ _ _ l. lg_mkt l = None)"
      by (simp add: triple_throw)
  qed
  show ?thesis
    unfolding close_limit_def Let_def residual_of_def [symmetric]
  proof (rule triple_bnd [OF triple_get_leg])
    fix k :: leg
    let ?body = "\<lambda>lm. bnd (leg_note (traced ex) (unlogged m) lm) (\<lambda>_.
        if \<not> terminal (bo_status lm) then throw CancelNotConfirmedError
        else bnd (guard_overfill (lg_target k) (bo_filled_qty lm)) (\<lambda>_.
          if bo_status lm = REJECTED then ret () else
          set_leg (\<lambda>l. l\<lparr>lg_residual := residual_of (lg_target k) lm,
                    lg_residual_pending := 0 < residual_of (lg_target k) lm\<rparr>)))"
    show "triple T bps (\<lambda>_ _ l. k = l \<and> lg_mkt l = None)
      (case lg_lim k of None \<Rightarrow> ret () | Some lm \<Rightarrow> ?body lm) (\<lambda>_ _ _ l. lg_mkt l = None)"
    proof (cases "lg_lim k")
      case None
      then show ?thesis by (auto simp: triple_def)
    next
      case (Some lm)
      show ?thesis
      proof (cases "lg_mkt k = None")
        case True
        show ?thesis
          unfolding Some option.case
          by (rule triple_weaken [OF all [OF True Some]]) (auto simp: known_def)
      next
        case False
        then show ?thesis by (auto simp: triple_def)
      qed
    qed
  qed
qed

definition to_market :: "leg \<Rightarrow> bool" where
  "to_market l \<longleftrightarrow> live l \<and> lg_residual_pending l \<and> lg_mkt l = None"

lemma triple_submit_market:
  "triple T bps (\<lambda>_ _ l. to_market l) (submit_market (traced ex) (unlogged m)) (\<lambda>_ _ _ _. True)"
proof -
  let ?pre = "\<lambda>k tr l. l = k \<and> to_market k \<and> CFind (mkt_id_of (lg_target k)) None \<in> set tr"
  have send: "triple T bps
      (\<lambda>w tr l. ks_allows (ex_switch ex w) (tg_side (lg_target k)) \<and> ?pre k tr l)
      (bnd (on_world (submit_once (traced ex) (lg_mkt_id k)
          (logged (\<lambda>w. [CMarket (lg_mkt_id k) (tg_symbol (lg_target k)) (tg_side (lg_target k))
              (lg_residual k) (ex_switch ex w)])
            (\<lambda>x. [CPlaced (lg_mkt_id k) x]) n)))
        (\<lambda>w. bnd (set_leg (\<lambda>l. l\<lparr>lg_mkt := Some w\<rparr>)) (\<lambda>_. ret w)))
      (\<lambda>_ _ _ _. True)" for k and n :: "('a, exn, broker_order) eff"
  proof (rule triple_submit, goal_cases)
    case (1 w tr l)
    note d = leg_okD [OF 1(2)]
    from 1(1) d(7) obtain lm where lm: "lg_lim l = Some lm" "settled (lg_target l) lm"
      "lg_residual l = residual_of (lg_target l) lm" "0 < lg_residual l"
      by (auto simp: to_market_def)
    from 1 lm d show ?case by (auto simp: to_market_def)
  next
    case 2
    show ?case by auto
  next
    case 3
    then show ?case by (auto intro: leg_ok_err_mono)
  next
    case (4 w tr l tr' x)
    note d = leg_okD [OF 4(2)]
    from 4(1) d(7) obtain lm where lm: "lg_lim l = Some lm" "settled (lg_target l) lm"
      "lg_residual l = residual_of (lg_target l) lm" "0 < lg_residual l"
      by (auto simp: to_market_def)
    with d(3) 4(3) have "sees tr' (lim_id_of (lg_target l)) lm" by (blast intro: sees_mono)
    with 4(1) lm d(1,2) show ?case by (auto simp: leg_ok_def to_market_def live_def)
  qed
  have find: "triple T bps (\<lambda>_ _ l. k = l \<and> to_market l)
      (on_world (gw_find_by_client_id (ex_gw (traced ex)) (lg_mkt_id k)))
      (\<lambda>x _ tr l. l = k \<and> to_market k \<and> CFind (lg_mkt_id k) x \<in> set tr)" for k
    by (rule triple_quiet) (auto simp: logged_def split: prod.splits sum.splits)
  have fresh: "triple T bps (\<lambda>_. ?pre k)
      (bnd (allows_now (traced ex) (tg_side (lg_target k))) (\<lambda>ok.
         if \<not> ok then set_leg (\<lambda>l. l\<lparr>lg_blocked := True\<rparr>)
         else bnd (on_world (submit_once (traced ex) (lg_mkt_id k)
                     (gw_submit_market (ex_gw (traced ex)) (lg_mkt_id k) (tg_symbol (lg_target k))
                        (tg_side (lg_target k)) (lg_residual k))))
                (\<lambda>w. bnd (set_leg (\<lambda>l. l\<lparr>lg_mkt := Some w\<rparr>))
                   (\<lambda>_. leg_note (traced ex) (unlogged m) w))))
      (\<lambda>_ _ _ _. True)" for k
    unfolding traced_simps(9) traced_gateway_simps
  proof (rule triple_bnd [OF triple_allows_now])
    fix ok
    let ?send = "bnd (on_world (submit_once (traced ex) (lg_mkt_id k)
          (logged (\<lambda>w. [CMarket (lg_mkt_id k) (tg_symbol (lg_target k)) (tg_side (lg_target k))
              (lg_residual k) (ex_switch ex w)])
            (\<lambda>x. [CPlaced (lg_mkt_id k) x])
            (gw_submit_market (ex_gw ex) (lg_mkt_id k) (tg_symbol (lg_target k))
               (tg_side (lg_target k)) (lg_residual k)))))
        (\<lambda>w. bnd (set_leg (\<lambda>l. l\<lparr>lg_mkt := Some w\<rparr>))
           (\<lambda>_. leg_note (traced ex) (unlogged m) w))"
    show "triple T bps (\<lambda>w tr l. ok = ks_allows (ex_switch ex w) (tg_side (lg_target k)) \<and> ?pre k tr l)
      (if \<not> ok then set_leg (\<lambda>l. l\<lparr>lg_blocked := True\<rparr>) else ?send) (\<lambda>_ _ _ _. True)"
    proof (cases ok)
      case True
      have "triple T bps (\<lambda>w tr l. ks_allows (ex_switch ex w) (tg_side (lg_target k)) \<and> ?pre k tr l)
        ?send (\<lambda>_ _ _ _. True)"
        by (rule triple_then_note [OF send]) auto
      then show ?thesis
        apply (simp only: True not_True_eq_False if_False)
        apply (erule triple_weaken)
         apply auto
        done
    next
      case False
      then show ?thesis by (auto intro!: triple_set_leg)
    qed
  qed
  show ?thesis
    unfolding submit_market_def Let_def
  proof (rule triple_bnd [OF triple_get_leg], rule triple_bnd [OF find])
    fix k :: leg and found
    let ?fresh = "bnd (allows_now (traced ex) (tg_side (lg_target k))) (\<lambda>ok.
         if \<not> ok then set_leg (\<lambda>l. l\<lparr>lg_blocked := True\<rparr>)
         else bnd (on_world (submit_once (traced ex) (lg_mkt_id k)
                     (gw_submit_market (ex_gw (traced ex)) (lg_mkt_id k) (tg_symbol (lg_target k))
                        (tg_side (lg_target k)) (lg_residual k))))
                (\<lambda>w. bnd (set_leg (\<lambda>l. l\<lparr>lg_mkt := Some w\<rparr>))
                   (\<lambda>_. leg_note (traced ex) (unlogged m) w)))"
    show "triple T bps (\<lambda>_ tr l. l = k \<and> to_market k \<and> CFind (lg_mkt_id k) found \<in> set tr)
      (case found of None \<Rightarrow> ?fresh | Some w \<Rightarrow> set_leg (\<lambda>l. l\<lparr>lg_mkt := Some w\<rparr>))
      (\<lambda>_ _ _ _. True)"
    proof (cases found)
      case None
      show ?thesis
        unfolding None option.case
        by (rule triple_weaken [OF fresh]) (auto dest: leg_okD(2))
    next
      case (Some w)
      then show ?thesis by (auto intro!: triple_set_leg simp: leg_ok_def live_def)
    qed
  qed
qed

lemma triple_close_market:
  "triple T bps (\<lambda>_ _ _. True) (close_market (traced ex) (unlogged m)) (\<lambda>_ _ _ _. True)"
  unfolding close_market_def
  apply (rule triple_bnd [OF triple_get_leg])
  apply (auto split: option.split intro!: triple_throw)
  apply (rule triple_bnd [where Q = "\<lambda>_ _ _ _. True"])
   apply (rule triple_weaken [OF triple_known_keeps [OF triple_leg_note, where R = "\<lambda>_. True"]])
     apply (auto simp: guard_overfill_def intro: triple_throw triple_ret)
  done

section \<open>From a leg to the book\<close>

definition grows_all :: "exec_target list \<Rightarrow> call list \<Rightarrow> call list \<Rightarrow> bool" where
  "grows_all ts tr tr' \<longleftrightarrow>
     (\<exists>new. tr' = new @ tr \<and>
        (\<forall>cid. submitted new cid \<longrightarrow> (\<exists>t \<in> set ts. cid = lim_id_of t \<or> cid = mkt_id_of t)))"

definition apart :: "exec_target list \<Rightarrow> bool" where
  "apart ts \<longleftrightarrow> distinct (map lim_id_of ts) \<and> distinct (map mkt_id_of ts)"

lemma apart_Cons:
  "apart (t # ts) \<longleftrightarrow> (\<forall>t' \<in> set ts. lim_id_of t' \<noteq> lim_id_of t \<and> mkt_id_of t' \<noteq> mkt_id_of t) \<and> apart ts"
  unfolding apart_def by (auto simp: image_iff)

lemma leg_ok_grows_all:
  assumes "leg_ok tr l" and "grows_all ts tr tr'"
    and "\<And>t. t \<in> set ts \<Longrightarrow> lim_id_of t \<noteq> lim_id_of (lg_target l) \<and> mkt_id_of t \<noteq> mkt_id_of (lg_target l)"
  shows "leg_ok tr' l"
proof (rule leg_ok_mono [OF assms(1)])
  from assms(2) show "set tr \<subseteq> set tr'" by (auto simp: grows_all_def)
  have "submitted tr' cid \<Longrightarrow> (\<exists>t \<in> set ts. cid = lim_id_of t \<or> cid = mkt_id_of t) \<or> submitted tr cid" for cid
    using assms(2) by (auto simp: grows_all_def)
  then show "submitted tr' (lg_lim_id l) \<Longrightarrow> submitted tr (lg_lim_id l)"
    and "submitted tr' (lg_mkt_id l) \<Longrightarrow> submitted tr (lg_mkt_id l)"
    using assms(3) leg_okD(1,2) [OF assms(1)] by fastforce+
qed

lemma leg_ok_grows:
  assumes "leg_ok tr l" and "grows t tr tr'"
    and "lim_id_of t \<noteq> lim_id_of (lg_target l)" and "mkt_id_of t \<noteq> mkt_id_of (lg_target l)"
  shows "leg_ok tr' l"
  by (rule leg_ok_grows_all [of _ _ "[t]"]) (use assms in \<open>auto simp: grows_def grows_all_def\<close>)

lemma grows_all_Cons:
  assumes "grows t tr tr1" and "grows_all ts tr1 tr2"
  shows "grows_all (t # ts) tr tr2"
proof -
  from assms obtain a b where ab: "tr1 = a @ tr" "tr2 = b @ tr1"
    and a: "\<And>cid. submitted a cid \<Longrightarrow> cid = lim_id_of t \<or> cid = mkt_id_of t"
    and b: "\<And>cid. submitted b cid \<Longrightarrow> \<exists>t \<in> set ts. cid = lim_id_of t \<or> cid = mkt_id_of t"
    by (auto simp: grows_def grows_all_def)
  show ?thesis
    unfolding grows_all_def
    by (rule exI [of _ "b @ a"]) (use ab a b in auto)
qed

definition legs_ok :: "exec_target list \<Rightarrow> (leg \<Rightarrow> bool) \<Rightarrow> call list \<Rightarrow> leg list \<Rightarrow> bool" where
  "legs_ok T P tr ls \<longleftrightarrow> (\<forall>l \<in> set ls. leg_ok tr l \<and> lg_target l \<in> set T \<and> P l)"

lemma legs_ok_simps [simp]:
  "legs_ok T P tr []"
  "legs_ok T P tr (l # ls) \<longleftrightarrow> leg_ok tr l \<and> lg_target l \<in> set T \<and> P l \<and> legs_ok T P tr ls"
  by (auto simp: legs_ok_def)

lemma legs_ok_grows:
  "legs_ok T P tr ls \<Longrightarrow> grows t tr tr' \<Longrightarrow> apart (t # map lg_target ls) \<Longrightarrow> legs_ok T P tr' ls"
  unfolding legs_ok_def apart_Cons by (force intro: leg_ok_grows)

text \<open>
  A guarded pass keeps the whole book in order: the step's rule carries one leg, and the ids of the
  other legs are different ones.
\<close>

lemma run_legs_ok:
  assumes step: "\<And>t. triple T bps (\<lambda>_ _ l. P l \<and> (\<exists>stop. sel stop l)) (step t) (\<lambda>_ _ _. Q)"
    and err: "\<And>l e. Q (l\<lparr>lg_error := Some e\<rparr>)"
    and skip: "\<And>l stop. P l \<Longrightarrow> \<not> sel stop l \<Longrightarrow> Q l"
  shows "run_legs sel step (w, tr) stop ls = ((w', tr'), stop', errs, ls') \<Longrightarrow> safe T bps tr \<Longrightarrow>
    legs_ok T P tr ls \<Longrightarrow> apart (map lg_target ls) \<Longrightarrow>
    safe T bps tr' \<and> map lg_target ls' = map lg_target ls \<and> legs_ok T Q tr' ls' \<and>
    grows_all (map lg_target ls) tr tr'"
proof (induction ls arbitrary: w tr stop w' tr' stop' errs ls')
  case Nil
  then show ?case by (simp add: grows_all_def)
next
  case (Cons l ls)
  show ?case
  proof (cases "sel stop l")
    case False
    obtain w2 tr2 stop2 errs2 ls2 where rest: "run_legs sel step (w, tr) stop ls = ((w2, tr2), stop2, errs2, ls2)"
      by (metis prod.collapse)
    with False Cons.prems(1) have out: "tr' = tr2" "ls' = l # ls2" by auto
    from Cons.IH [OF rest] Cons.prems(2-4)
    have ih: "safe T bps tr2" "map lg_target ls2 = map lg_target ls" "legs_ok T Q tr2 ls2"
      "grows_all (map lg_target ls) tr tr2" by (auto simp: apart_Cons)
    have "leg_ok tr2 l"
      by (rule leg_ok_grows_all [OF _ ih(4)]) (use Cons.prems(3,4) in \<open>auto simp: apart_Cons\<close>)
    with ih False skip Cons.prems(3) grows_all_Cons [OF grows_refl ih(4)] show ?thesis
      by (auto simp: out)
  next
    case True
    obtain r1 w1 tr1 l1 where one: "step (lg_target l) ((w, tr), l) = (r1, ((w1, tr1), l1))"
      by (metis prod.collapse)
    from Cons.prems(3) have pre: "leg_ok tr l" "lg_target l \<in> set T" "P l \<and> (\<exists>stop. sel stop l)"
      using True by auto
    note d = tripleD [OF step one Cons.prems(2) pre]
    define l1' where "l1' = (case r1 of Inl e \<Rightarrow> l1\<lparr>lg_error := Some e\<rparr> | Inr _ \<Rightarrow> l1)"
    define s1 where "s1 = (case r1 of Inl e \<Rightarrow> stop \<or> e = OverfillError | Inr _ \<Rightarrow> stop)"
    obtain w2 tr2 stop2 errs2 ls2 where rest: "run_legs sel step (w1, tr1) s1 ls = ((w2, tr2), stop2, errs2, ls2)"
      by (metis prod.collapse)
    with True one Cons.prems(1) have out: "tr' = tr2" "ls' = l1' # ls2"
      by (auto simp: l1'_def s1_def split: sum.splits)
    have "legs_ok T P tr1 ls"
      by (rule legs_ok_grows [OF _ d(3)]) (use Cons.prems(3,4) in auto)
    with Cons.IH [OF rest d(1)] Cons.prems(4)
    have ih: "safe T bps tr2" "map lg_target ls2 = map lg_target ls" "legs_ok T Q tr2 ls2"
      "grows_all (map lg_target ls) tr1 tr2" by (auto simp: apart_Cons)
    have l1': "leg_ok tr1 l1'" "Q l1'" "lg_target l1' = lg_target l"
      using d(2,4,5) err by (cases r1; auto simp: l1'_def)+
    have "leg_ok tr2 l1'"
      by (rule leg_ok_grows_all [OF l1'(1) ih(4)]) (use Cons.prems(4) l1'(3) in \<open>auto simp: apart_Cons\<close>)
    with ih l1' pre(2) grows_all_Cons [OF d(3) ih(4)] show ?thesis
      by (auto simp: out)
  qed
qed

definition book_ok ::
  "exec_target list \<Rightarrow> real \<Rightarrow> (leg \<Rightarrow> bool) \<Rightarrow> ('w \<times> call list) book \<Rightarrow> bool" where
  "book_ok T bps P b \<longleftrightarrow> safe T bps (snd (bk_world b)) \<and> map lg_target (bk_legs b) = T \<and>
     legs_ok T P (snd (bk_world b)) (bk_legs b)"

definition btriple ::
  "exec_target list \<Rightarrow> real \<Rightarrow> (leg \<Rightarrow> bool) \<Rightarrow> (('w \<times> call list) book, exn, 'a) eff \<Rightarrow> (leg \<Rightarrow> bool)
   \<Rightarrow> bool" where
  "btriple T bps P m Q \<longleftrightarrow>
     (\<forall>b r b'. m b = (r, b') \<longrightarrow> book_ok T bps P b \<longrightarrow>
        safe T bps (snd (bk_world b')) \<and> (\<forall>x. r = Inr x \<longrightarrow> book_ok T bps Q b'))"

lemma btripleI:
  assumes "\<And>b r b'. m b = (r, b') \<Longrightarrow> book_ok T bps P b \<Longrightarrow>
    safe T bps (snd (bk_world b')) \<and> (\<forall>x. r = Inr x \<longrightarrow> book_ok T bps Q b')"
  shows "btriple T bps P m Q"
  using assms unfolding btriple_def by blast

lemma btriple_bnd:
  assumes m: "btriple T bps P m Q" and f: "\<And>x. btriple T bps Q (f x) R"
  shows "btriple T bps P (bnd m f) R"
proof (rule btripleI)
  fix b r b'
  assume run: "bnd m f b = (r, b')" and ok: "book_ok T bps P b"
  obtain r1 b1 where one: "m b = (r1, b1)" by (metis prod.collapse)
  from m one ok have mid: "safe T bps (snd (bk_world b1))" "\<And>x. r1 = Inr x \<Longrightarrow> book_ok T bps Q b1"
    unfolding btriple_def by blast+
  show "safe T bps (snd (bk_world b')) \<and> (\<forall>x. r = Inr x \<longrightarrow> book_ok T bps R b')"
  proof (cases r1)
    case (Inl e)
    with run one mid(1) show ?thesis by (auto simp: bnd_def)
  next
    case (Inr x)
    with run one have "f x b1 = (r, b')" by (simp add: bnd_def)
    with f [of x] mid(2) [OF Inr] show ?thesis unfolding btriple_def by blast
  qed
qed

lemma btriple_weaken:
  assumes "btriple T bps P m Q" and "\<And>l. P' l \<Longrightarrow> P l" and "\<And>l. Q l \<Longrightarrow> Q' l"
  shows "btriple T bps P' m Q'"
  using assms unfolding btriple_def book_ok_def legs_ok_def by blast

lemma btriple_ret: "btriple T bps P (ret x) P"
  by (rule btripleI) (auto simp: book_ok_def)

lemma btriple_phase:
  assumes "apart T" and "\<And>t. triple T bps (\<lambda>_ _ l. P l \<and> (\<exists>stop. sel stop l)) (step t) (\<lambda>_ _ _. Q)"
    and "\<And>l e. Q (l\<lparr>lg_error := Some e\<rparr>)" and "\<And>l stop. P l \<Longrightarrow> \<not> sel stop l \<Longrightarrow> Q l"
  shows "btriple T bps P (phase sel step) Q"
proof (rule btripleI)
  fix b r b'
  assume run: "phase sel step b = (r, b')" and ok: "book_ok T bps P b"
  obtain w tr where wt: "bk_world b = (w, tr)" by (metis prod.collapse)
  obtain w' tr' stop' errs ls' where
    legs: "run_legs sel step (w, tr) (bk_stop b) (bk_legs b) = ((w', tr'), stop', errs, ls')"
    by (metis prod.collapse)
  from ok have pre: "safe T bps tr" "legs_ok T P tr (bk_legs b)" "apart (map lg_target (bk_legs b))"
    and T: "map lg_target (bk_legs b) = T"
    using assms(1) by (auto simp: book_ok_def wt)
  from run_legs_ok [OF assms(2-4) legs pre] run legs wt T
  show "safe T bps (snd (bk_world b')) \<and> (\<forall>x. r = Inr x \<longrightarrow> book_ok T bps Q b')"
    by (auto simp: phase_def book_ok_def)
qed

lemma btriple_quiet:
  assumes "\<And>w tr r w' tr'. m (w, tr) = (r, (w', tr')) \<Longrightarrow> tr' = tr"
  shows "btriple T bps P (on_book_world m) P"
proof (rule btripleI)
  fix b r b'
  assume run: "on_book_world m b = (r, b')" and ok: "book_ok T bps P b"
  obtain w tr where wt: "bk_world b = (w, tr)" by (metis prod.collapse)
  obtain r1 w1 tr1 where one: "m (w, tr) = (r1, (w1, tr1))" by (metis prod.collapse)
  from assms [OF one] run one wt have "bk_legs b' = bk_legs b" "snd (bk_world b') = snd (bk_world b)"
    by (auto simp: on_book_world_def)
  with ok show "safe T bps (snd (bk_world b')) \<and> (\<forall>x. r = Inr x \<longrightarrow> book_ok T bps P b')"
    by (simp add: book_ok_def)
qed

lemma btriple_unlogged: "btriple T bps P (on_book_world (unlogged m)) P"
  by (rule btriple_quiet) (auto simp: unlogged_def split: prod.splits)

lemma btriple_gate: "btriple T bps P (run_gate (map_option unlogged g)) P"
  unfolding run_gate_def by (cases g) (auto intro: btriple_unlogged btriple_ret simp del: ret_apply)

lemma btriple_wait_once: "btriple T bps P (wait_once (traced ex)) P"
proof (rule btripleI)
  fix b r b'
  assume run: "wait_once (traced ex) b = (r, b')" and ok: "book_ok T bps P b"
  let ?ds = "deadlines (traced ex) (bk_legs b)"
  let ?wait = "bnd (on_book_world (ex_clock (traced ex))) (\<lambda>now.
     let d = Max (set ?ds) - now
     in if 0 < d then on_book_world (ex_sleep (traced ex) d) else ret ())"
  have "btriple T bps P ?wait P"
    unfolding traced_simps Let_def
    by (rule btriple_bnd [OF btriple_unlogged])
      (auto simp del: ret_apply intro: btriple_unlogged btriple_ret)
  moreover have "?wait b = (r, b') \<or> b' = b"
    using run
    by (cases "ks_halted (ex_switch (traced ex) (bk_world b))"; cases "?ds = []")
      (simp_all only: wait_once_def Let_def prod.inject if_True if_False not_True_eq_False simp_thms)
  ultimately show "safe T bps (snd (bk_world b')) \<and> (\<forall>x. r = Inr x \<longrightarrow> book_ok T bps P b')"
    using ok unfolding btriple_def by (auto simp: book_ok_def)
qed

lemma btriple_open_legs:
  "btriple T bps (\<lambda>l. lg_mkt l = None) (open_legs (traced ex))
     (\<lambda>l. lg_mkt l = None \<and> (lg_open l \<longrightarrow> lg_lim l = None))"
proof -
  let ?open = "open_for_submit (traced ex)"
  have upd: "leg_ok tr (l\<lparr>lg_open := a\<rparr>) = leg_ok tr l" for tr l a
    by (simp add: leg_ok_def live_def)
  have keep: "leg_ok tr (?open s l)" if "leg_ok tr l" for tr s l
    using that by (simp add: open_for_submit_def upd)
  have tgt: "lg_target (?open s l) = lg_target l" "lg_mkt (?open s l) = lg_mkt l"
    "lg_open (?open s l) \<Longrightarrow> lg_lim (?open s l) = None" for s l
    by (simp_all add: open_for_submit_def split: if_splits)
  have legs: "legs_ok T (\<lambda>l. lg_mkt l = None \<and> (lg_open l \<longrightarrow> lg_lim l = None)) tr (map (?open s) ls)"
    if "legs_ok T (\<lambda>l. lg_mkt l = None) tr ls" for tr s ls
    using that by (induction ls) (simp_all add: keep tgt)
  show ?thesis
  proof (rule btripleI)
    fix b r b'
    assume run: "open_legs (traced ex) b = (r, b')" and ok: "book_ok T bps (\<lambda>l. lg_mkt l = None) b"
    from run have "b' = b\<lparr>bk_legs := map (?open (bk_world b)) (bk_legs b)\<rparr>"
      by (simp add: open_legs_def)
    with ok legs show "safe T bps (snd (bk_world b')) \<and>
      (\<forall>x. r = Inr x \<longrightarrow> book_ok T bps (\<lambda>l. lg_mkt l = None \<and> (lg_open l \<longrightarrow> lg_lim l = None)) b')"
      by (simp add: book_ok_def o_def tgt)
  qed
qed

lemma set_current_target [simp]: "lg_target (set_current w l) = lg_target l"
  by (simp add: set_current_def)

text \<open>Re-reading the current order of a leg that still waits for it.\<close>

lemma leg_ok_set_current:
  assumes "leg_ok tr l" and "waiting l" and "lg_current l = Some cur"
    and "CGet (bo_broker_order_id cur) w \<in> set tr"
  shows "leg_ok tr (set_current w l)"
proof (cases "lg_mkt l")
  case None
  with assms(3) have lm: "lg_lim l = Some cur" by (simp add: lg_current_def)
  with assms(2,3) None have "\<not> terminal (bo_status cur)" by (simp add: waiting_def)
  then have "\<not> lg_residual_pending l" using leg_okD(7) [OF assms(1)] lm by (auto simp: settled_def)
  moreover have "sees tr (lim_id_of (lg_target l)) w"
    by (rule sees.reread [OF leg_okD(3) [OF assms(1) lm] assms(4)])
  ultimately show ?thesis
    using assms(1) lm None by (auto simp: leg_ok_def set_current_def live_def)
next
  case (Some m)
  with assms(1) show ?thesis by (auto simp: leg_ok_def set_current_def live_def)
qed

lemma poll_legs_ok:
  assumes P: "\<And>l w. P l \<Longrightarrow> P (set_current w l)"
  shows "poll_legs (traced ex) (w, tr) ls = (r, ((w', tr'), ls')) \<Longrightarrow> legs_ok T P tr ls \<Longrightarrow>
    (\<exists>new. tr' = new @ tr \<and> list_all quiet new) \<and> map lg_target ls' = map lg_target ls \<and>
    legs_ok T P tr' ls'"
proof (induction ls arbitrary: w tr r w' tr' ls')
  case Nil
  then show ?case by auto
next
  case (Cons l ls)
  have same: ?case if "poll_legs (traced ex) (w, tr) (l # ls) =
      (case poll_legs (traced ex) (w, tr) ls of (r, w2, ls2) \<Rightarrow> (r, w2, l # ls2))"
  proof -
    obtain r2 w2 tr2 ls2 where rest: "poll_legs (traced ex) (w, tr) ls = (r2, ((w2, tr2), ls2))"
      by (metis prod.collapse)
    from Cons.IH [OF rest] Cons.prems(2) that rest Cons.prems(1) show ?thesis
      by (auto intro: quiet_leg_ok)
  qed
  show ?case
  proof (cases "waiting l")
    case False
    then show ?thesis by (intro same) (auto split: option.split)
  next
    case True
    then obtain cur where cur: "lg_current l = Some cur" by (auto simp: waiting_def split: option.splits)
    obtain r1 w1 where one: "gw_get_order (ex_gw ex) (bo_broker_order_id cur) w = (r1, w1)"
      by (metis prod.collapse)
    show ?thesis
    proof (cases r1)
      case (Inl e)
      with one True cur Cons.prems show ?thesis by (auto simp: logged_def)
    next
      case (Inr now)
      let ?tr1 = "CGet (bo_broker_order_id cur) now # tr"
      obtain r2 w2 tr2 ls2 where rest: "poll_legs (traced ex) (w1, ?tr1) ls = (r2, ((w2, tr2), ls2))"
        by (metis prod.collapse)
      with one Inr True cur Cons.prems(1)
      have out: "r = r2" "tr' = tr2" "ls' = set_current now l # ls2"
        by (auto simp: logged_def)
      from Cons.prems(2) have pre: "legs_ok T P ?tr1 ls" "leg_ok ?tr1 l"
        using quiet_leg_ok [of "[CGet (bo_broker_order_id cur) now]" tr]
        by (auto simp: legs_ok_def)
      from Cons.IH [OF rest pre(1)] obtain new where new: "tr2 = new @ ?tr1" "list_all quiet new"
        and ih: "map lg_target ls2 = map lg_target ls" "legs_ok T P tr2 ls2" by auto
      have "leg_ok ?tr1 (set_current now l)"
        by (rule leg_ok_set_current [OF pre(2) True cur]) simp
      with new have "leg_ok tr2 (set_current now l)" by (simp add: quiet_leg_ok)
      moreover have "\<exists>new. tr2 = new @ tr \<and> list_all quiet new"
        using new by (intro exI [of _ "new @ [CGet (bo_broker_order_id cur) now]"]) simp
      ultimately show ?thesis
        using ih Cons.prems(2) P by (auto simp: out)
    qed
  qed
qed

lemma btriple_poll:
  assumes "\<And>l w. P l \<Longrightarrow> P (set_current w l)"
  shows "btriple T bps P (poll (traced ex)) P"
proof (rule btripleI)
  fix b r b'
  assume run: "poll (traced ex) b = (r, b')" and ok: "book_ok T bps P b"
  obtain w tr where wt: "bk_world b = (w, tr)" by (metis prod.collapse)
  obtain r1 w1 tr1 ls1 where legs: "poll_legs (traced ex) (w, tr) (bk_legs b) = (r1, ((w1, tr1), ls1))"
    by (metis prod.collapse)
  from ok wt have "legs_ok T P tr (bk_legs b)" by (simp add: book_ok_def)
  from poll_legs_ok [where P = P, OF assms legs this] ok run legs wt
  show "safe T bps (snd (bk_world b')) \<and> (\<forall>x. r = Inr x \<longrightarrow> book_ok T bps P b')"
    by (auto simp: poll_def book_ok_def quiet_safe)
qed

lemma btriple_await_all:
  assumes "\<And>l w. P l \<Longrightarrow> P (set_current w l)"
  shows "btriple T bps P (await_all (traced ex) n) P"
proof (induction n)
  case 0
  show ?case by (simp del: ret_apply add: btriple_ret)
next
  case (Suc n)
  have "btriple T bps P none_waiting P"
    by (rule btripleI) (auto simp: none_waiting_def book_ok_def)
  from this show ?case
    unfolding await_all.simps traced_simps
    by (intro btriple_bnd [OF btriple_poll [where P = P, OF assms]] btriple_bnd [OF \<open>btriple T bps P none_waiting P\<close>])
      (auto simp del: ret_apply intro: btriple_ret btriple_bnd [OF btriple_unlogged] Suc)
qed

section \<open>The whole execution\<close>

definition no_mkt :: "leg \<Rightarrow> bool" where
  "no_mkt l \<longleftrightarrow> (live l \<longrightarrow> lg_mkt l = None)"

definition openable :: "leg \<Rightarrow> bool" where
  "openable l \<longleftrightarrow> (live l \<longrightarrow> lg_mkt l = None \<and> (lg_open l \<longrightarrow> lg_lim l = None))"

lemma marked [simp]: "\<not> live (l\<lparr>lg_error := Some e\<rparr>)" "no_mkt (l\<lparr>lg_error := Some e\<rparr>)" "openable (l\<lparr>lg_error := Some e\<rparr>)"
  by (simp_all add: no_mkt_def openable_def live_def)

lemma no_mkt_set_current: "no_mkt l \<Longrightarrow> no_mkt (set_current w l)"
  by (auto simp: no_mkt_def set_current_def live_def)

lemma btriple_resolve:
  "apart T \<Longrightarrow> btriple T bps openable
     (phase (\<lambda>_ l. lg_open l) (\<lambda>t. resolve_reference (traced ex) (unlogged (ref t)))) openable"
proof (rule btriple_phase)
  show "triple T bps (\<lambda>_ _ l. openable l \<and> (\<exists>stop. lg_open l))
      (resolve_reference (traced ex) (unlogged (ref t))) (\<lambda>_ _ _. openable)" for t
    by (rule triple_weaken [OF triple_known_keeps [OF triple_resolve_reference, where R = openable]])
      (auto simp: openable_def live_def dest: core_eqD)
qed auto

lemma btriple_submit_limits:
  "apart T \<Longrightarrow> btriple T (ex_collar_bps ex) openable
     (phase (\<lambda>_ l. lg_open l \<and> live l) (\<lambda>t. submit_limit (traced ex) (unlogged (ref t)))) no_mkt"
proof (rule btriple_phase)
  show "triple T (ex_collar_bps ex) (\<lambda>_ _ l. openable l \<and> (\<exists>stop. lg_open l \<and> live l))
      (submit_limit (traced ex) (unlogged (ref t))) (\<lambda>_ _ _. no_mkt)" for t
    by (rule triple_weaken [OF triple_submit_limit])
      (auto simp: openable_def to_open_def no_mkt_def)
qed (auto simp: openable_def no_mkt_def)

lemma btriple_cancels:
  "apart T \<Longrightarrow> btriple T bps no_mkt (phase (\<lambda>_. live) (\<lambda>_. cancel_limit (traced ex))) no_mkt"
proof (rule btriple_phase)
  show "triple T bps (\<lambda>_ _ l. no_mkt l \<and> (\<exists>stop. live l)) (cancel_limit (traced ex)) (\<lambda>_ _ _. no_mkt)" for t
    by (rule triple_weaken [OF triple_cancel_limit]) (auto simp: no_mkt_def)
qed auto

lemma btriple_close_limits:
  "apart T \<Longrightarrow> btriple T bps no_mkt
     (phase (\<lambda>_. live) (\<lambda>t. close_limit (traced ex) (unlogged (ref t)))) no_mkt"
proof (rule btriple_phase)
  show "triple T bps (\<lambda>_ _ l. no_mkt l \<and> (\<exists>stop. live l))
      (close_limit (traced ex) (unlogged (ref t))) (\<lambda>_ _ _. no_mkt)" for t
    by (rule triple_weaken [OF triple_close_limit]) (auto simp: no_mkt_def)
qed auto

lemma btriple_submit_markets:
  "apart T \<Longrightarrow> btriple T bps no_mkt
     (phase (\<lambda>stop l. live l \<and> lg_residual_pending l \<and> \<not> stop)
        (\<lambda>t. submit_market (traced ex) (unlogged (ref t)))) (\<lambda>_. True)"
proof (rule btriple_phase)
  show "triple T bps (\<lambda>_ _ l. no_mkt l \<and> (\<exists>stop. live l \<and> lg_residual_pending l \<and> \<not> stop))
      (submit_market (traced ex) (unlogged (ref t))) (\<lambda>_ _ _ _. True)" for t
    by (rule triple_weaken [OF triple_submit_market]) (auto simp: no_mkt_def to_market_def)
qed auto

lemma btriple_close_markets:
  "apart T \<Longrightarrow> btriple T bps (\<lambda>_. True)
     (phase (\<lambda>_ l. live l \<and> lg_mkt l \<noteq> None) (\<lambda>t. close_market (traced ex) (unlogged (ref t)))) (\<lambda>_. True)"
proof (rule btriple_phase)
  show "triple T bps (\<lambda>_ _ l. True \<and> (\<exists>stop. live l \<and> lg_mkt l \<noteq> None))
      (close_market (traced ex) (unlogged (ref t))) (\<lambda>_ _ _ _. True)" for t
    by (rule triple_weaken [OF triple_close_market]) auto
qed auto

lemma btriple_book_phases:
  assumes "apart T"
  shows "btriple T (ex_collar_bps ex) (\<lambda>l. lg_mkt l = None)
     (book_phases (traced ex) (\<lambda>t. unlogged (ref t)) (map_option unlogged gate)) (\<lambda>_. True)"
  unfolding book_phases_def
  by (intro btriple_bnd [OF btriple_gate]
      btriple_bnd [OF btriple_weaken [OF btriple_open_legs, where P' = "\<lambda>l. lg_mkt l = None" and Q' = openable]]
      btriple_bnd [OF btriple_resolve] btriple_bnd [OF btriple_submit_limits]
      btriple_bnd [OF btriple_wait_once] btriple_bnd [OF btriple_cancels]
      btriple_bnd [OF btriple_await_all [where P = no_mkt]] btriple_bnd [OF btriple_close_limits]
      btriple_bnd [OF btriple_submit_markets] btriple_bnd [OF btriple_await_all [where P = "\<lambda>_. True"]]
      btriple_close_markets assms)
    (auto simp: openable_def no_mkt_set_current)

lemma make_legs_ok:
  "make_legs (traced ex) ts (w, tr) = (r, (w', tr')) \<Longrightarrow> list_all quiet tr \<Longrightarrow>
   (\<exists>new. tr' = new @ tr \<and> list_all quiet new) \<and>
   (\<forall>ls. r = Inr ls \<longrightarrow> map lg_target ls = ts \<and> legs_ok ts (\<lambda>l. lg_mkt l = None) tr' ls)"
proof (induction ts arbitrary: w tr r w' tr')
  case Nil
  then show ?case by auto
next
  case (Cons t ts)
  obtain r1 w1 where one: "gw_find_by_client_id (ex_gw ex) (lim_id_of t) w = (r1, w1)"
    by (metis prod.collapse)
  show ?case
  proof (cases r1)
    case (Inl e)
    with one Cons.prems show ?thesis by (auto simp: logged_def bnd_def)
  next
    case (Inr lm)
    let ?tr1 = "CFind (lim_id_of t) lm # tr"
    obtain r2 w2 tr2 where rest: "make_legs (traced ex) ts (w1, ?tr1) = (r2, (w2, tr2))"
      by (metis prod.collapse)
    from Cons.IH [OF rest] Cons.prems(2) obtain new where new: "tr2 = new @ ?tr1" "list_all quiet new"
      and ih: "\<And>ls. r2 = Inr ls \<Longrightarrow> map lg_target ls = ts \<and> legs_ok ts (\<lambda>l. lg_mkt l = None) tr2 ls"
      by auto
    from one Inr rest Cons.prems(1) have out: "tr' = tr2"
      "r = (case r2 of Inl e \<Rightarrow> Inl e | Inr ls \<Rightarrow> Inr (new_leg t lm # ls))"
      by (auto simp: logged_def bnd_def split: sum.splits)
    have q: "list_all quiet tr2" using new Cons.prems(2) by auto
    have sees: "lm = Some w \<Longrightarrow> sees tr2 (lim_id_of t) w" for w
      using new(1) by (auto intro: sees.found)
    have "leg_ok tr2 (new_leg t lm)"
      using sees quiet_submitted [OF q] new(1)
      by (auto simp: leg_ok_def new_leg_def live_def)
    moreover have "lg_target (new_leg t lm) = t" "lg_mkt (new_leg t lm) = None"
      by (simp_all add: new_leg_def)
    moreover have "\<exists>new. tr2 = new @ tr \<and> list_all quiet new"
      using new by (intro exI [of _ "new @ [CFind (lim_id_of t) lm]"]) simp
    ultimately show ?thesis
      using ih by (auto simp: out legs_ok_def split: sum.splits)
  qed
qed

lemma execute_book_safe:
  assumes run: "execute_book (traced ex) T (\<lambda>t. unlogged (ref t)) (map_option unlogged gate) (w, [])
      = (r, (w', tr))"
    and apart: "apart T"
  shows "safe T (ex_collar_bps ex) tr"
proof (cases "list_ex bad_qty T")
  case True
  with run show ?thesis by (simp add: execute_book_def)
next
  case False
  obtain r1 w1 tr1 where legs: "make_legs (traced ex) T (w, []) = (r1, (w1, tr1))"
    by (metis prod.collapse)
  from make_legs_ok [OF this] have q: "list_all quiet tr1"
    and ok: "\<And>ls. r1 = Inr ls \<Longrightarrow> map lg_target ls = T \<and> legs_ok T (\<lambda>l. lg_mkt l = None) tr1 ls"
    by auto
  from quiet_safe [OF q, of T "ex_collar_bps ex" "[]"] have s1: "safe T (ex_collar_bps ex) tr1" by simp
  show ?thesis
  proof (cases r1)
    case (Inl e)
    with legs False run s1 show ?thesis by (simp add: execute_book_def)
  next
    case (Inr ls)
    let ?b = "\<lparr>bk_world = (w1, tr1), bk_legs = ls, bk_errors = [], bk_stop = False\<rparr>"
    obtain r2 b2 where phases:
      "book_phases (traced ex) (\<lambda>t. unlogged (ref t)) (map_option unlogged gate) ?b = (r2, b2)"
      by (metis prod.collapse)
    have "book_ok T (ex_collar_bps ex) (\<lambda>l. lg_mkt l = None) ?b"
      using ok [OF Inr] s1 by (simp add: book_ok_def)
    with btriple_book_phases [OF apart, of ex ref gate] phases
    have "safe T (ex_collar_bps ex) (snd (bk_world b2))" unfolding btriple_def by blast
    moreover have "snd (bk_world b2) = tr"
      using legs False run Inr phases
      by (auto simp: execute_book_def split: sum.splits list.splits)
    ultimately show ?thesis by simp
  qed
qed

section \<open>What a safe trace means\<close>

lemma safe_append: "safe T bps (new @ tr) \<Longrightarrow> safe T bps tr"
  by (induction new) auto

lemma safe_split: "safe T bps (later @ c # earlier) \<Longrightarrow> call_ok T bps earlier c"
  by (drule safe_append) simp

lemma call_ok_fresh: "call_ok T bps tr c \<Longrightarrow> submits cid c \<Longrightarrow> \<not> submitted tr cid \<and> CFind cid None \<in> set tr"
  by (cases c) auto

lemma safe_once: "safe T bps tr \<Longrightarrow> length (filter (submits cid) tr) \<le> 1"
proof (induction tr)
  case (Cons c tr)
  show ?case
  proof (cases "submits cid c")
    case True
    with Cons.prems have "\<not> submitted tr cid" using call_ok_fresh by auto
    then have "filter (submits cid) tr = []"
      by (auto simp: submitted_def list_ex_iff filter_empty_conv)
    with True show ?thesis by simp
  qed (use Cons in auto)
qed simp

text \<open>
  The targets of one book: run ids are 36 characters, security ids positive, and no security of a
  run appears twice. Their client order ids are then all different.
\<close>

definition wf_targets :: "exec_target list \<Rightarrow> bool" where
  "wf_targets ts \<longleftrightarrow>
     distinct (map (\<lambda>t. (tg_run_id t, tg_security_id t)) ts) \<and>
     list_all (\<lambda>t. length (tg_run_id t) = 36 \<and> 1 \<le> tg_security_id t) ts"

lemma wf_targets_apart: "wf_targets ts \<Longrightarrow> apart ts"
proof (induction ts)
  case (Cons t ts)
  have "lim_id_of t' \<noteq> lim_id_of t \<and> mkt_id_of t' \<noteq> mkt_id_of t" if "t' \<in> set ts" for t'
  proof -
    from Cons.prems that have w: "length (tg_run_id t') = length (tg_run_id t)"
      "0 \<le> tg_security_id t'" "0 \<le> tg_security_id t"
      and ne: "(tg_run_id t', tg_security_id t') \<noteq> (tg_run_id t, tg_security_id t)"
      by (auto simp: wf_targets_def list_all_iff image_iff)
    from client_order_id_inject [OF _ w] ne show ?thesis
      by (auto simp: lim_id_of_def mkt_id_of_def)
  qed
  with Cons show ?case by (auto simp: apart_Cons wf_targets_def)
qed (simp add: apart_def)

text \<open>The calls an execution makes on the broker, newest first.\<close>

definition calls_of ::
  "'w executor \<Rightarrow> exec_target list \<Rightarrow> (exec_target \<Rightarrow> ('w, exn, ref_price) eff)
   \<Rightarrow> ('w, exn, unit) eff option \<Rightarrow> 'w \<Rightarrow> call list" where
  "calls_of ex T ref gate w =
     snd (snd (execute_book (traced ex) T (\<lambda>t. unlogged (ref t)) (map_option unlogged gate) (w, [])))"

lemma calls_of_safe: "wf_targets T \<Longrightarrow> safe T (ex_collar_bps ex) (calls_of ex T ref gate w)"
  unfolding calls_of_def
  by (metis execute_book_safe prod.collapse wf_targets_apart)

section \<open>A concrete broker\<close>

text \<open>
  One buy of 10 against a broker that knows no order at the start, lets the limit order expire
  with 6 filled, and fills the market order. The world is the state of the kill switch.
\<close>

definition demo_order :: "string \<Rightarrow> order_kind \<Rightarrow> real \<Rightarrow> real \<Rightarrow> broker_order_status \<Rightarrow> broker_order" where
  "demo_order cid kind q filled st =
     \<lparr>bo_broker_order_id = ''b'' @ cid, bo_client_order_id = cid, bo_symbol = ''SPY'', bo_side = BUY,
      bo_kind = kind, bo_qty = q, bo_filled_qty = filled, bo_limit_price = None,
      bo_filled_avg_price = Some 100, bo_status = st, bo_submitted_at = 0, bo_filled_at = None\<rparr>"

definition demo_gateway :: "kill_switch gateway" where
  "demo_gateway =
     \<lparr>gw_find_by_client_id = (\<lambda>_. ret None),
      gw_get_order = (\<lambda>_. throw BrokerError),
      gw_submit_limit = (\<lambda>cid _ _ q _. ret (demo_order cid LIMIT q 6 EXPIRED)),
      gw_submit_market = (\<lambda>cid _ _ q. ret (demo_order cid MARKET q q FILLED)),
      gw_cancel_order = (\<lambda>_. ret ()), gw_open_orders = ret [], gw_positions = ret [],
      gw_close_position = (\<lambda>_. ret ()), gw_account_equity = ret (Fin 1, Fin 1),
      gw_equity_history = ret []\<rparr>"

definition demo_executor :: "kill_switch executor" where
  "demo_executor =
     \<lparr>ex_gw = demo_gateway, ex_switch = (\<lambda>ks. ks), ex_record_executions = (\<lambda>_. ret ()),
      ex_find_execution = (\<lambda>_. ret None), ex_clock = ret 0, ex_sleep = (\<lambda>_. ret ()),
      ex_collar_bps = 50, ex_limit_wait = 0, ex_poll_seconds = 1, ex_poll_attempts = 3\<rparr>"

definition demo_target :: exec_target where
  "demo_target =
     \<lparr>tg_run_id = replicate 36 CHR ''a'', tg_security_id = 1, tg_symbol = ''SPY'', tg_side = BUY,
      tg_qty = Fin 10, tg_decision_price = 100\<rparr>"

definition demo_calls :: "call list" where
  "demo_calls = calls_of demo_executor [demo_target] (\<lambda>_. ret (100, IEX_MID)) None None"

lemma demo_wf: "wf_targets [demo_target]"
  by (simp add: wf_targets_def demo_target_def)

lemma demo_ids: "length (lim_id_of demo_target) = 42" "length (mkt_id_of demo_target) = 42"
  by (simp_all add: lim_id_of_def mkt_id_of_def client_order_id_def demo_target_def str_int_def
      dec_digits.simps)

lemma demo_calls_eq:
  "demo_calls =
     [CPlaced (mkt_id_of demo_target) (demo_order (mkt_id_of demo_target) MARKET 4 4 FILLED),
      CMarket (mkt_id_of demo_target) ''SPY'' BUY 4 None,
      CFind (mkt_id_of demo_target) None,
      CPlaced (lim_id_of demo_target) (demo_order (lim_id_of demo_target) LIMIT 10 6 EXPIRED),
      CLimit (lim_id_of demo_target) ''SPY'' BUY 10 (1005 / 10) None,
      CFind (lim_id_of demo_target) None]"
proof -
  have r: "round6 4 = 4"
    using py_round_of_int [of 4000000] by (simp add: round6_def)
  have c: "collar_price BUY 100 50 = 1005 / 10"
    by (simp add: collar_price_def EPS_def Let_def floor_eq_iff)
  have t: "tg_side demo_target = BUY" "tg_symbol demo_target = ''SPY''" "tg_qty demo_target = Fin 10"
    "1 \<le> tg_security_id demo_target" "tg_decision_price demo_target = 100"
    by (simp_all add: demo_target_def)
  show ?thesis
    unfolding demo_calls_def calls_of_def execute_book_def book_phases_def
    by (simp add: t r c demo_ids traced_def traced_gateway_def logged_def unlogged_def demo_executor_def demo_gateway_def
        bnd_def new_leg_def run_gate_def open_legs_def open_for_submit_def phase_def resolve_reference_def
        get_leg_def set_leg_def ref_get_def on_world_def submit_limit_def allows_now_def submit_once_def
        catch_def leg_note_def exec_record_def demo_order_def valid_execution_record_def label_ok_def opt_all_def
        live_def wait_once_def deadlines_def terminal_def TERMINAL_ORDER_STATUSES_def cancel_limit_def
        poll_def none_waiting_def waiting_def lg_current_def close_limit_def guard_overfill_def EPS_def
        submit_market_def close_market_def bad_qty_def ks_allows_def ks_halted_def Let_def await_all.simps
        numeral_eq_Suc)
qed

section \<open>Properties\<close>

text \<open>
  C1: no client order id is ever submitted twice by one execution, whatever fails, and an id is
  submitted only after the broker has answered that it knows no order with that id.
\<close>

theorem execute_book_submits_once:
  assumes "wf_targets T"
  shows "length (filter (submits cid) (calls_of ex T ref gate w)) \<le> 1 \<and>
    (\<forall>later c earlier. calls_of ex T ref gate w = later @ c # earlier \<longrightarrow> submits cid c \<longrightarrow>
       CFind cid None \<in> set earlier)"
proof -
  note safe = calls_of_safe [OF assms, of ex ref gate w]
  have "CFind cid None \<in> set earlier"
    if "calls_of ex T ref gate w = later @ c # earlier" "submits cid c" for later c earlier
    using safe_split [of T _ later c earlier] safe that call_ok_fresh by metis
  with safe_once [OF safe] show ?thesis by blast
qed

theorem execute_book_submits_once_witness:
  "length (filter (submits (mkt_id_of demo_target)) demo_calls) = 1 \<and>
   length (filter (submits (mkt_id_of demo_target)) demo_calls) \<le> 1"
  using execute_book_submits_once [OF demo_wf, of "mkt_id_of demo_target"]
  unfolding demo_calls_def [symmetric] by (simp add: demo_calls_eq)

text \<open>
  C2: a buy, limit or market, reaches the broker only while the kill switch is not halted at that
  very moment, so no buy follows a halt.
\<close>

theorem execute_book_no_buy_when_halted:
  assumes "wf_targets T"
    and "CLimit cid sy BUY q p ks \<in> set (calls_of ex T ref gate w) \<or>
         CMarket cid sy BUY q ks \<in> set (calls_of ex T ref gate w)"
  shows "\<not> ks_halted ks"
proof -
  have "\<not> ks_halted ks" if "c \<in> set (calls_of ex T ref gate w)"
    and "c = CLimit cid sy BUY q p ks \<or> c = CMarket cid sy BUY q ks" for c
  proof -
    from that(1) obtain later earlier where "calls_of ex T ref gate w = later @ c # earlier"
      by (auto simp: in_set_conv_decomp)
    with calls_of_safe [OF assms(1)] have "call_ok T (ex_collar_bps ex) earlier c"
      by (metis safe_split)
    with that(2) show ?thesis by (auto simp: ks_allows_buy)
  qed
  with assms(2) show ?thesis by blast
qed

theorem execute_book_no_buy_when_halted_witness:
  "CMarket (mkt_id_of demo_target) ''SPY'' BUY 4 None \<in> set demo_calls \<and> \<not> ks_halted None"
proof
  show buy: "CMarket (mkt_id_of demo_target) ''SPY'' BUY 4 None \<in> set demo_calls"
    by (simp add: demo_calls_eq)
  show "\<not> ks_halted None"
    by (rule execute_book_no_buy_when_halted [OF demo_wf]) (rule disjI2, rule buy [unfolded demo_calls_def])
qed

text \<open>
  C3: a market order is sent for a name of the book only after the broker has reported its limit
  order in a terminal status other than rejected, and what was filled together with the market
  quantity exceeds the target by at most half a millionth of a share.
\<close>

theorem execute_book_market_after_limit:
  assumes "wf_targets T"
    and "calls_of ex T ref gate w = later @ CMarket cid sy side q ks # earlier"
  shows "\<exists>t \<in> set T. \<exists>lm. cid = mkt_id_of t \<and> sy = tg_symbol t \<and> side = tg_side t \<and>
    sees earlier (lim_id_of t) lm \<and> terminal (bo_status lm) \<and> bo_status lm \<noteq> REJECTED \<and>
    0 < q \<and> \<bar>bo_filled_qty lm + q - fl_val (tg_qty t)\<bar> \<le> 1 / (2 * 10 ^ 6)"
proof -
  from calls_of_safe [OF assms(1), of ex ref gate w]
  have "call_ok T (ex_collar_bps ex) earlier (CMarket cid sy side q ks)"
    unfolding assms(2) by (rule safe_split)
  then obtain t lm where t: "t \<in> set T" "cid = mkt_id_of t" "sy = tg_symbol t" "side = tg_side t"
    and lm: "sees earlier (lim_id_of t) lm" "settled t lm" "q = residual_of t lm" "0 < q"
    by auto
  have "\<bar>bo_filled_qty lm + q - fl_val (tg_qty t)\<bar> \<le> 1 / (2 * 10 ^ 6)"
    using round6_error [of "fl_val (tg_qty t) - bo_filled_qty lm"]
    unfolding lm(3) residual_of_def by (simp add: algebra_simps)
  with t lm show ?thesis by (auto simp: settled_def)
qed

theorem execute_book_market_after_limit_witness:
  "\<exists>t \<in> set [demo_target]. \<exists>lm. mkt_id_of demo_target = mkt_id_of t \<and> ''SPY'' = tg_symbol t \<and>
    BUY = tg_side t \<and> sees (drop 2 demo_calls) (lim_id_of t) lm \<and> terminal (bo_status lm) \<and>
    bo_status lm \<noteq> REJECTED \<and> 0 < (4 :: real) \<and> \<bar>bo_filled_qty lm + 4 - fl_val (tg_qty t)\<bar> \<le> 1 / (2 * 10 ^ 6)"
  by (rule execute_book_market_after_limit [OF demo_wf, of demo_executor "\<lambda>_. ret (100, IEX_MID)" None None
        "take 1 demo_calls"], fold demo_calls_def) (simp add: demo_calls_eq)



end
