(* ===== verification/Frames.thy ===== *)
theory Frames
  imports Halt Effects
begin

text \<open>
  Frame rules of the executor and the halt controller: a property of the world that every operation
  they are given keeps, the whole book execution, the automatic check and the halts keep as well. The
  orchestration above them reasons with these rules instead of opening their definitions.
\<close>

section \<open>The executor\<close>

definition exec_keeps :: "('w \<Rightarrow> bool) \<Rightarrow> 'w executor \<Rightarrow> bool" where
  "exec_keeps P ex \<longleftrightarrow>
     (\<forall>cid. keeps P (gw_find_by_client_id (ex_gw ex) cid)) \<and> (\<forall>b. keeps P (gw_get_order (ex_gw ex) b)) \<and>
     (\<forall>cid sy side q p. keeps P (gw_submit_limit (ex_gw ex) cid sy side q p)) \<and>
     (\<forall>cid sy side q. keeps P (gw_submit_market (ex_gw ex) cid sy side q)) \<and>
     (\<forall>b. keeps P (gw_cancel_order (ex_gw ex) b)) \<and> (\<forall>rs. keeps P (ex_record_executions ex rs)) \<and>
     (\<forall>cid. keeps P (ex_find_execution ex cid)) \<and> keeps P (ex_clock ex) \<and> (\<forall>d. keeps P (ex_sleep ex d))"

definition of_world :: "('w \<Rightarrow> bool) \<Rightarrow> 'w \<times> 'x \<Rightarrow> bool" where
  "of_world P s \<longleftrightarrow> P (fst s)"

lemma of_world_Pair [simp]: "of_world P (w, x) = P w"
  by (simp add: of_world_def)

lemma keeps_on_world [intro]: "keeps P m \<Longrightarrow> keeps (of_world P) (on_world m)"
  by (auto simp: keeps_def on_world_def split: prod.splits)

lemma keeps_get_leg [intro]: "keeps (of_world P) get_leg" and keeps_set_leg [intro]: "keeps (of_world P) (set_leg f)"
  and keeps_allows_now [intro]: "keeps (of_world P) (allows_now ex side)"
  by (auto simp: keeps_def get_leg_def set_leg_def allows_now_def)

lemmas leg_rules = keeps_rules keeps_get_leg keeps_set_leg keeps_allows_now keeps_on_world

lemma exec_keepsD:
  assumes "exec_keeps P ex"
  shows "keeps P (gw_find_by_client_id (ex_gw ex) cid)" "keeps P (gw_get_order (ex_gw ex) b)"
    "keeps P (gw_submit_limit (ex_gw ex) cid sy side q p)" "keeps P (gw_submit_market (ex_gw ex) cid sy side q)"
    "keeps P (gw_cancel_order (ex_gw ex) b)" "keeps P (ex_record_executions ex rs)" "keeps P (ex_find_execution ex cid)"
    "keeps P (ex_clock ex)" "keeps P (ex_sleep ex d)"
  using assms by (simp_all add: exec_keeps_def)

lemma keeps_submit_once: "exec_keeps P ex \<Longrightarrow> keeps P m \<Longrightarrow> keeps P (submit_once ex cid m)"
  unfolding submit_once_def by (intro keeps_rules exec_keepsD)

lemma keeps_ref_get: "exec_keeps P ex \<Longrightarrow> keeps P lookup \<Longrightarrow> keeps (of_world P) (ref_get ex lookup cid)"
  unfolding ref_get_def by (intro leg_rules exec_keepsD)

lemma keeps_leg_note: "exec_keeps P ex \<Longrightarrow> keeps P lookup \<Longrightarrow> keeps (of_world P) (leg_note ex lookup w)"
  unfolding leg_note_def Let_def by (intro leg_rules keeps_ref_get exec_keepsD)

lemma keeps_resolve: "exec_keeps P ex \<Longrightarrow> keeps P lookup \<Longrightarrow> keeps (of_world P) (resolve_reference ex lookup)"
  unfolding resolve_reference_def by (intro leg_rules keeps_ref_get)

lemma keeps_submit_limit: "exec_keeps P ex \<Longrightarrow> keeps P lookup \<Longrightarrow> keeps (of_world P) (submit_limit ex lookup)"
  unfolding submit_limit_def Let_def by (intro leg_rules keeps_leg_note keeps_submit_once exec_keepsD)

lemma keeps_cancel_limit: "exec_keeps P ex \<Longrightarrow> keeps (of_world P) (cancel_limit ex)"
  unfolding cancel_limit_def by (intro leg_rules exec_keepsD)

lemma keeps_guard_overfill: "keeps (of_world P) (guard_overfill t q)"
  unfolding guard_overfill_def by (intro leg_rules)

lemma keeps_close_limit: "exec_keeps P ex \<Longrightarrow> keeps P lookup \<Longrightarrow> keeps (of_world P) (close_limit ex lookup)"
  unfolding close_limit_def Let_def by (intro leg_rules keeps_leg_note keeps_guard_overfill)

lemma keeps_submit_market: "exec_keeps P ex \<Longrightarrow> keeps P lookup \<Longrightarrow> keeps (of_world P) (submit_market ex lookup)"
  unfolding submit_market_def Let_def by (intro leg_rules keeps_leg_note keeps_submit_once exec_keepsD)

lemma keeps_close_market: "exec_keeps P ex \<Longrightarrow> keeps P lookup \<Longrightarrow> keeps (of_world P) (close_market ex lookup)"
  unfolding close_market_def by (intro leg_rules keeps_leg_note keeps_guard_overfill)

lemma run_legs_keeps:
  assumes "\<And>t. keeps (of_world P) (step t)" and "P w" and "run_legs sel step w stop ls = (w', stop', errs, ls')"
  shows "P w'"
  using assms(2,3)
proof (induction ls arbitrary: w stop w' stop' errs ls')
  case (Cons l ls)
  show ?case
  proof (cases "sel stop l")
    case True
    obtain r w1 l1 where s: "step (lg_target l) (w, l) = (r, (w1, l1))" by (metis surj_pair)
    with keepsE [OF assms(1) _ s] Cons.prems(1) have "P w1" by simp
    then show ?thesis
      using Cons.IH Cons.prems(2) True s by (cases r) (auto split: prod.splits)
  qed (use Cons in \<open>auto split: prod.splits\<close>)
qed simp

definition of_book :: "('w \<Rightarrow> bool) \<Rightarrow> 'w book \<Rightarrow> bool" where
  "of_book P b \<longleftrightarrow> P (bk_world b)"

lemma keeps_phase [intro]: "(\<And>t. keeps (of_world P) (step t)) \<Longrightarrow> keeps (of_book P) (phase sel step)"
  by (rule keepsI) (auto simp: of_book_def phase_def split: prod.split intro: run_legs_keeps)

lemma keeps_on_book_world [intro]: "keeps P m \<Longrightarrow> keeps (of_book P) (on_book_world m)"
  by (auto simp: keeps_def of_book_def on_book_world_def split: prod.splits)

lemma poll_legs_keeps:
  "exec_keeps P ex \<Longrightarrow> P w \<Longrightarrow> P (fst (snd (poll_legs ex w ls)))"
proof (induction ls arbitrary: w)
  case (Cons l ls)
  note ih = Cons.IH [OF Cons.prems(1)]
  show ?case
  proof (cases "lg_current l")
    case (Some cur)
    obtain r w1 where g: "gw_get_order (ex_gw ex) (bo_broker_order_id cur) w = (r, w1)" by (metis surj_pair)
    have P1: "P w1" using keepsE [OF exec_keepsD(2) [OF Cons.prems(1)] Cons.prems(2) g] .
    from ih [OF Cons.prems(2)] ih [OF P1] P1 show ?thesis
      by (cases r; cases "poll_legs ex w1 ls"; cases "poll_legs ex w ls") (simp_all add: Some g)
  next
    case None
    from ih [OF Cons.prems(2)] show ?thesis by (cases "poll_legs ex w ls") (simp add: None)
  qed
qed simp

lemma keeps_await_all [intro]: "exec_keeps P ex \<Longrightarrow> keeps (of_book P) (await_all ex n)"
proof (induction n)
  case (Suc n)
  have "keeps (of_book P) (poll ex)"
  proof (rule keepsI)
    fix b assume "of_book P b"
    then show "of_book P (snd (poll ex b))"
      using poll_legs_keeps [OF Suc.prems, of "bk_world b" "bk_legs b"]
      by (cases "poll_legs ex (bk_world b) (bk_legs b)") (simp add: of_book_def poll_def)
  qed
  moreover have "keeps (of_book P) none_waiting" by (simp add: keeps_def of_book_def none_waiting_def)
  moreover have "keeps (of_book P) (on_book_world (ex_sleep ex (ex_poll_seconds ex)))"
    using Suc.prems by (auto simp: exec_keeps_def)
  ultimately show ?case using Suc by (auto intro!: keeps_bnd simp: await_all.simps)
qed simp

lemma keeps_wait_once [intro]: "exec_keeps P ex \<Longrightarrow> keeps (of_book P) (wait_once ex)"
proof (rule keepsI)
  fix b assume ex: "exec_keeps P ex" and P: "of_book P b"
  have "keeps (of_book P) (bnd (on_book_world (ex_clock ex)) (\<lambda>now.
      let remaining = Max (set (deadlines ex (bk_legs b))) - now
      in if 0 < remaining then on_book_world (ex_sleep ex remaining) else ret ()))"
    using ex unfolding Let_def exec_keeps_def by (intro keeps_bnd keeps_if keeps_on_book_world keeps_ret) auto
  from keepsD [OF this, of b] P show "of_book P (snd (wait_once ex b))"
    by (simp add: wait_once_def Let_def)
qed

lemma keeps_make_legs: "exec_keeps P ex \<Longrightarrow> keeps P (make_legs ex ts)"
  by (induction ts) (auto intro!: keeps_bnd simp: exec_keeps_def)

lemma keeps_book_phases:
  assumes ex: "exec_keeps P ex" and ref: "\<And>t. keeps P (ref t)" and gate: "\<And>g. gate = Some g \<Longrightarrow> keeps P g"
  shows "keeps (of_book P) (book_phases ex ref gate)"
proof -
  have g: "keeps (of_book P) (run_gate gate)" using gate by (cases gate) (auto simp: run_gate_def)
  have opn: "keeps (of_book P) (open_legs ex)" by (simp add: keeps_def of_book_def open_legs_def)
  show ?thesis
    unfolding book_phases_def 
    by (intro keeps_bnd g opn keeps_phase keeps_wait_once keeps_await_all keeps_resolve keeps_submit_limit
        keeps_cancel_limit keeps_close_limit keeps_submit_market keeps_close_market ex ref)
qed

lemma keeps_execute_book:
  assumes ex: "exec_keeps P ex" and ref: "\<And>t. keeps P (ref t)" and gate: "\<And>g. gate = Some g \<Longrightarrow> keeps P g"
  shows "keeps P (execute_book ex ts ref gate)"
proof (rule keepsI)
  fix w assume P: "P w"
  show "P (snd (execute_book ex ts ref gate w))"
  proof (cases "list_ex bad_qty ts")
    case False
    obtain r w1 where m: "make_legs ex ts w = (r, w1)" by (metis surj_pair)
    then have P1: "P w1" using keepsE [OF keeps_make_legs [OF ex] P] by blast
    show ?thesis
    proof (cases r)
      case (Inr legs)
      let ?b = "\<lparr>bk_world = w1, bk_legs = legs, bk_errors = [], bk_stop = False\<rparr>"
      obtain r2 b where b: "book_phases ex ref gate ?b = (r2, b)" by (metis surj_pair)
      then have "P (bk_world b)" using keepsE [OF keeps_book_phases [OF ex ref gate] _ b] P1 by (simp add: of_book_def)
      then show ?thesis using False m Inr b by (auto simp: execute_book_def split: sum.split list.split)
    qed (use False m P1 in \<open>simp add: execute_book_def\<close>)
  qed (use P in \<open>simp add: execute_book_def\<close>)
qed

section \<open>The halt controller\<close>

definition halt_keeps :: "('w \<Rightarrow> bool) \<Rightarrow> 'w halt_ctl \<Rightarrow> bool" where
  "halt_keeps P c \<longleftrightarrow>
     (\<forall>b. keeps P (gw_get_order (hl_gw c) b)) \<and> (\<forall>b. keeps P (gw_cancel_order (hl_gw c) b)) \<and>
     keeps P (gw_open_orders (hl_gw c)) \<and> keeps P (gw_positions (hl_gw c)) \<and>
     (\<forall>s. keeps P (gw_close_position (hl_gw c) s)) \<and> keeps P (gw_account_equity (hl_gw c)) \<and>
     keeps P (gw_equity_history (hl_gw c)) \<and> (\<forall>e. keeps P (hl_record c e)) \<and>
     (\<forall>w. P w \<longrightarrow> P (snd (hl_clock c w))) \<and> (\<forall>d. keeps P (hl_sleep c d))"

lemma keeps_on_broker [intro]: "keeps P m \<Longrightarrow> keeps (of_world P) (on_broker m)"
  by (auto simp: keeps_def on_broker_def split: prod.splits)

lemma keeps_confirm_terminal: "halt_keeps P c \<Longrightarrow> keeps P (confirm_terminal c n b)"
  by (induction n) (auto intro!: keeps_bnd simp: halt_keeps_def)

lemma keeps_cancel_rounds: "halt_keeps P c \<Longrightarrow> keeps P (cancel_rounds c n ids)"
proof (induction n arbitrary: ids)
  case (Suc n)
  have one: "keeps P (cancel_one c x)" for x
    using Suc.prems unfolding cancel_one_def halt_keeps_def by (auto intro!: keeps_catch)
  show ?case
    using Suc by (auto intro!: keeps_bnd keeps_for_each one keeps_confirm_terminal simp: halt_keeps_def)
qed (auto intro!: keeps_bnd simp: halt_keeps_def)

lemma keeps_cancel_all: "halt_keeps P c \<Longrightarrow> keeps P (cancel_all_confirmed c)"
  unfolding cancel_all_confirmed_def by (rule keeps_cancel_rounds)

lemma keeps_close_all: "halt_keeps P c \<Longrightarrow> keeps P (close_all c)"
  unfolding close_all_def halt_keeps_def by (auto intro!: keeps_bnd keeps_for_each)

lemma keeps_record_halt_event: "halt_keeps P c \<Longrightarrow> keeps P (record_halt_event c t loss dd ids fl out)"
proof (rule keepsI)
  fix w assume c: "halt_keeps P c" and P: "P w"
  obtain now w1 where clk: "hl_clock c w = (now, w1)" by (metis surj_pair)
  with c P have P1: "P w1" unfolding halt_keeps_def by (metis snd_conv)
  let ?e = "halt_event c now t loss dd ids fl"
  obtain r w2 where rcd: "hl_record c ?e w1 = (r, w2)" by (metis surj_pair)
  with c P1 have "P w2" unfolding halt_keeps_def by (metis keepsE)
  with P1 clk rcd show "P (snd (record_halt_event c t loss dd ids fl out w))"
    by (cases r) (simp_all add: record_halt_event_def Let_def)
qed

lemma keeps_do_halt: "halt_keeps P c \<Longrightarrow> keeps (of_world P) (do_halt c t fl loss dd)"
proof (rule keepsI)
  fix s :: "'a \<times> halt_state" assume c: "halt_keeps P c" and P: "of_world P s"
  obtain w h where s: "s = (w, h)" by (cases s)
  obtain r w1 where ca: "cancel_all_confirmed c w = (r, w1)" by (metis surj_pair)
  with P s have P1: "P w1" using keepsE [OF keeps_cancel_all [OF c]] by simp
  obtain r2 w2 where cl: "close_all c w1 = (r2, w2)" by (metis surj_pair)
  with P1 have P2: "P w2" using keepsE [OF keeps_close_all [OF c]] by simp
  have evt: "of_world P (snd (on_broker (record_halt_event c t loss dd ids fl' out) (v, h')))" if "P v"
    for ids fl' out v and h' :: halt_state
    using keepsD [OF keeps_on_broker [OF keeps_record_halt_event [OF c]], of "(v, h')"] that by simp
  show "of_world P (snd (do_halt c t fl loss dd s))"
    using P1 P2 evt by (cases r; cases r2) (auto simp: s do_halt_def Let_def ca cl)
qed

lemma keeps_lift_kill [intro]: "keeps P (lift_kill r)"
  by (simp add: lift_kill_def split: sum.split)

lemma keeps_drawdown: "halt_keeps P c \<Longrightarrow> keeps P (drawdown c e req)"
  unfolding drawdown_def halt_keeps_def by (auto intro!: keeps_catch keeps_bnd)

lemma keeps_safe_drawdown: "halt_keeps P c \<Longrightarrow> keeps P (safe_drawdown c)"
  unfolding safe_drawdown_def by (intro keeps_catch keeps_bnd) (auto simp: halt_keeps_def keeps_drawdown)

lemma keeps_check: "halt_keeps P c \<Longrightarrow> keeps (of_world P) (check c limit seen sla)"
proof (rule keepsI)
  fix s :: "'a \<times> halt_state" assume c: "halt_keeps P c" and P: "of_world P s"
  obtain w h where s: "s = (w, h)" by (cases s)
  have clk: "keeps P (\<lambda>w. case hl_clock c w of (now, w') \<Rightarrow> (Inr now, w'))"
    using c by (auto simp: keeps_def halt_keeps_def split: prod.split)
  have eq: "keeps P (gw_account_equity (hl_gw c))" using c by (simp add: halt_keeps_def)
  have "keeps (of_world P) (bnd (on_broker (gw_account_equity (hl_gw c))) (\<lambda>(equity, prior).
       bnd (on_broker (\<lambda>w. case hl_clock c w of (now, w') \<Rightarrow> (Inr now, w'))) (\<lambda>now.
       bnd (on_broker (lift_kill (evaluate equity prior limit seen sla now))) (\<lambda>trigger.
         case trigger of
           None \<Rightarrow> bnd (on_broker (drawdown c equity True)) (\<lambda>_. ret None)
         | Some t \<Rightarrow>
             bnd (on_broker (drawdown c equity False)) (\<lambda>dd.
             bnd (on_broker (lift_kill (daily_loss equity prior))) (\<lambda>loss.
             bnd (do_halt c t False (Some loss) dd) (\<lambda>_. ret (Some t))))))))"
    by (auto intro!: keeps_bnd keeps_on_broker eq clk keeps_drawdown [OF c] keeps_do_halt [OF c]
        split: prod.split option.split)
  from keepsD [OF this, of s] P show "of_world P (snd (check c limit seen sla s))"
    by (simp add: check_def s)
qed

lemma keeps_settle: "halt_keeps P c \<Longrightarrow> keeps (of_world P) (settle_open_orders c)"
proof (rule keepsI)
  fix s :: "'a \<times> halt_state" assume c: "halt_keeps P c" and P: "of_world P s"
  obtain w h where s: "s = (w, h)" by (cases s)
  show "of_world P (snd (settle_open_orders c s))"
    using keepsD [OF keeps_on_broker [OF keeps_cancel_all [OF c]], of s] P by (simp add: settle_open_orders_def s)
qed

lemma keeps_manual_halt: "halt_keeps P c \<Longrightarrow> keeps (of_world P) (manual_halt c fl)"
proof (rule keepsI)
  fix s :: "'a \<times> halt_state" assume c: "halt_keeps P c" and P: "of_world P s"
  obtain w h where s: "s = (w, h)" by (cases s)
  have "keeps (of_world P) (bnd (on_broker (safe_drawdown c)) (\<lambda>dd. do_halt c MANUAL fl None dd))"
    by (intro keeps_bnd keeps_on_broker keeps_safe_drawdown c keeps_do_halt)
  from keepsD [OF this P] P show "of_world P (snd (manual_halt c fl s))"
    by (simp add: s manual_halt_def)
qed

end
