(* ===== verification/Anchoring.thy ===== *)
theory Anchoring
  imports Commitment Effects
begin

text \<open>
  External anchoring: the proof handling of \<open>evaluation/anchoring.py\<close> and the adapters of
  \<open>orchestration/anchor_adapters.py\<close>. The OpenTimestamps library, git, HTTP and the Bitcoin headers
  are outside the program: they are parameters. What is modelled is which of their answers the code
  accepts, in which order it asks, and what it refuses.
\<close>

section \<open>Errors and the library\<close>

datatype anchor_exn =
    AnchorBindingError | AnchorUnavailableError | AnchorNotEligibleError | VerificationError
  | HttpError | AnchorValueError | AnchorIntegrity integrity_error | AnchorFailure

datatype attestation =
    PendingAttestation string | BitcoinBlockHeaderAttestation int | UnknownAttestation

text \<open>
  The library: a detached file with its tree of timestamp nodes, which is updated in place; parsing,
  rendering, merging a parsed reply into a node, and checking an attestation against a header.
\<close>

record ('f, 'n, 'g, 'h) ots =
  ots_deserialize :: "string \<Rightarrow> 'f option"
  ots_serialize :: "'f \<Rightarrow> string"
  ots_uses_sha256 :: "'f \<Rightarrow> bool"
  ots_file_digest :: "'f \<Rightarrow> string"
  ots_root :: "'f \<Rightarrow> 'n"
  ots_msg :: "'f \<Rightarrow> 'n \<Rightarrow> string"
  ots_children :: "'f \<Rightarrow> 'n \<Rightarrow> 'n list"
  ots_node_attestations :: "'f \<Rightarrow> 'n \<Rightarrow> attestation list"
  ots_all_attestations :: "'f \<Rightarrow> (string \<times> attestation) list"
  ots_fragment :: "string \<Rightarrow> string \<Rightarrow> 'g option"
  ots_fragment_attestations :: "'g \<Rightarrow> (string \<times> attestation) list"
  ots_merge :: "'n \<Rightarrow> 'g \<Rightarrow> 'f \<Rightarrow> 'f"
  ots_discard :: "'n \<Rightarrow> attestation \<Rightarrow> 'f \<Rightarrow> 'f"
  ots_verify_header :: "int \<Rightarrow> string \<Rightarrow> 'h \<Rightarrow> int option"
  ots_detached :: "string \<Rightarrow> 'f"
  ots_append :: "'n \<Rightarrow> string \<Rightarrow> 'f \<Rightarrow> 'f \<times> 'n"
  ots_hash :: "'n \<Rightarrow> 'f \<Rightarrow> 'f \<times> 'n"

definition MAX_PROOF_BYTES :: nat where
  "MAX_PROOF_BYTES = 256 * 1024"

definition MAX_FRAGMENT_BYTES :: nat where
  "MAX_FRAGMENT_BYTES = 64 * 1024"

section \<open>Proofs\<close>

text \<open>\<open>bytes.fromhex\<close>: pairs of hexadecimal digits, white space allowed between them.\<close>

definition hex_value :: "char \<Rightarrow> nat option" where
  "hex_value c =
     (let n = of_char c
      in if 48 \<le> n \<and> n \<le> 57 then Some (n - 48)
         else if 97 \<le> n \<and> n \<le> 102 then Some (n - 87)
         else if 65 \<le> n \<and> n \<le> 70 then Some (n - 55) else None)"

definition ascii_space :: "char \<Rightarrow> bool" where
  "ascii_space c \<longleftrightarrow> c = CHR '' '' \<or> 9 \<le> (of_char c :: nat) \<and> (of_char c :: nat) \<le> 13"

fun fromhex :: "string \<Rightarrow> string option" where
  "fromhex [] = Some []"
| "fromhex [c] = (if ascii_space c then Some [] else None)"
| "fromhex (c # d # cs) =
     (if ascii_space c then fromhex (d # cs)
      else case (hex_value c, hex_value d) of
        (Some a, Some b) \<Rightarrow> map_option ((#) (char_of (16 * a + b))) (fromhex cs)
      | _ \<Rightarrow> None)"

record proof_status =
  pst_pending :: "string list"
  pst_bitcoin_heights :: "int list"

definition pst_confirmed :: "proof_status \<Rightarrow> bool" where
  "pst_confirmed s \<longleftrightarrow> pst_bitcoin_heights s \<noteq> []"

record bitcoin_confirmation =
  bc_height :: int
  bc_block_time :: int

definition loads :: "('f, 'n, 'g, 'h) ots \<Rightarrow> string \<Rightarrow> anchor_exn + 'f" where
  "loads lib prf =
     (if prf = [] \<or> MAX_PROOF_BYTES < length prf then Inl AnchorBindingError
      else case ots_deserialize lib prf of None \<Rightarrow> Inl AnchorBindingError | Some f \<Rightarrow> Inr f)"

definition pending_uris :: "(string \<times> attestation) list \<Rightarrow> string list" where
  "pending_uris as = [u. (_, PendingAttestation u) \<leftarrow> as]"

definition bitcoin_heights :: "(string \<times> attestation) list \<Rightarrow> int list" where
  "bitcoin_heights as = [h. (_, BitcoinBlockHeaderAttestation h) \<leftarrow> as]"

definition check_binding :: "('f, 'n, 'g, 'h) ots \<Rightarrow> string \<Rightarrow> string \<Rightarrow> anchor_exn + proof_status" where
  "check_binding lib prf sha =
     bindr (loads lib prf) (\<lambda>f.
       case fromhex sha of
         None \<Rightarrow> Inl AnchorValueError
       | Some digest \<Rightarrow>
           if \<not> ots_uses_sha256 lib f then Inl AnchorBindingError
           else if ots_file_digest lib f \<noteq> digest \<or> ots_msg lib f (ots_root lib f) \<noteq> digest
           then Inl AnchorBindingError
           else let as = ots_all_attestations lib f;
                    pending = pending_uris as; heights = bitcoin_heights as
                in if pending = [] \<and> heights = [] then Inl AnchorBindingError
                   else Inr \<lparr>pst_pending = sort pending, pst_bitcoin_heights = sort heights\<rparr>)"

definition parse_fragment :: "('f, 'n, 'g, 'h) ots \<Rightarrow> string \<Rightarrow> string \<Rightarrow> anchor_exn + 'g" where
  "parse_fragment lib data msg =
     (if data = [] \<or> MAX_FRAGMENT_BYTES < length data then Inl AnchorBindingError
      else case ots_fragment lib data msg of
        None \<Rightarrow> Inl AnchorBindingError
      | Some g \<Rightarrow> if ots_fragment_attestations lib g = [] then Inl AnchorBindingError else Inr g)"

definition new_stamp :: "('f, 'n, 'g, 'h) ots \<Rightarrow> string \<Rightarrow> string \<Rightarrow> anchor_exn + 'f \<times> 'n" where
  "new_stamp lib digest nonce =
     (if length digest \<noteq> 32 \<or> length nonce < 16 then Inl AnchorValueError
      else let f = ots_detached lib digest
           in case ots_append lib (ots_root lib f) nonce f of
                (f1, n1) \<Rightarrow> Inr (ots_hash lib n1 f1))"

definition MANIFEST_VERSION :: string where
  "MANIFEST_VERSION = ''anchor_v1''"

definition anchor_manifest :: "stdlib \<Rightarrow> uuid \<Rightarrow> string \<Rightarrow> instant \<Rightarrow> string" where
  "anchor_manifest sl rid sha committed_at =
     dumps (sl_float_repr sl) (JObj
       [(''v'', JStr MANIFEST_VERSION), (''run_id'', JStr rid), (''sha256'', JStr sha),
        (''committed_at'', JStr (sl_isoformat sl committed_at))]) @ [CHR 0x0A]"

definition manifest_path :: "uuid \<Rightarrow> string" where
  "manifest_path rid = ''anchors/'' @ rid @ ''.json''"

text \<open>\<open>_walk\<close>, which may not end on a cyclic structure: the nodes in preorder.\<close>

partial_function (option) walk :: "('f, 'n, 'g, 'h) ots \<Rightarrow> 'f \<Rightarrow> 'n list \<Rightarrow> 'n list option" where
  "walk lib f ns =
     (case ns of
        [] \<Rightarrow> Some []
      | n # rest \<Rightarrow> Option.bind (walk lib f (ots_children lib f n @ rest)) (\<lambda>ms. Some (n # ms)))"

text \<open>\<open>upgrade\<close>: one pending attestation, one node, the whole file.\<close>

definition upgrade_attestation ::
  "('f, 'n, 'g, 'h) ots \<Rightarrow> (string \<Rightarrow> string \<Rightarrow> ('w, anchor_exn, string option) eff) \<Rightarrow> 'n \<Rightarrow> attestation
   \<Rightarrow> 'f \<times> bool \<Rightarrow> ('w, anchor_exn, 'f \<times> bool) eff" where
  "upgrade_attestation lib fetch n att = (\<lambda>(f, changed).
     case att of
       PendingAttestation uri \<Rightarrow>
         bnd (fetch uri (ots_msg lib f n)) (\<lambda>reply.
           case reply of
             None \<Rightarrow> ret (f, changed)
           | Some data \<Rightarrow>
               (case parse_fragment lib data (ots_msg lib f n) of
                  Inl e \<Rightarrow> throw e
                | Inr g \<Rightarrow>
                    let f1 = ots_merge lib n g f
                    in ret (if bitcoin_heights (ots_fragment_attestations lib g) \<noteq> []
                            then ots_discard lib n att f1 else f1, True)))
     | _ \<Rightarrow> ret (f, changed))"

definition upgrade_node ::
  "('f, 'n, 'g, 'h) ots \<Rightarrow> (string \<Rightarrow> string \<Rightarrow> ('w, anchor_exn, string option) eff) \<Rightarrow> 'n
   \<Rightarrow> 'f \<times> bool \<Rightarrow> ('w, anchor_exn, 'f \<times> bool) eff" where
  "upgrade_node lib fetch n x =
     fold_eff (upgrade_attestation lib fetch n) (ots_node_attestations lib (fst x) n) x"

definition upgrade ::
  "('f, 'n, 'g, 'h) ots \<Rightarrow> (string \<Rightarrow> string \<Rightarrow> ('w, anchor_exn, string option) eff) \<Rightarrow> 'f
   \<Rightarrow> ('w, anchor_exn, 'f \<times> bool) eff" where
  "upgrade lib fetch f =
     (case walk lib f [ots_root lib f] of
        None \<Rightarrow> throw AnchorFailure
      | Some ns \<Rightarrow> fold_eff (upgrade_node lib fetch) ns (f, False))"

section \<open>Bitcoin confirmation\<close>

text \<open>
  One attestation: a header that does not match is skipped (the library raises \<open>VerificationError\<close>,
  and so may the header source); the lowest verified block wins, the first one on a tie.
\<close>

definition confirm_step ::
  "('f, 'n, 'g, 'h) ots \<Rightarrow> (int \<Rightarrow> ('w, anchor_exn, 'h) eff) \<Rightarrow> string \<times> attestation
   \<Rightarrow> bitcoin_confirmation option \<Rightarrow> ('w, anchor_exn, bitcoin_confirmation option) eff" where
  "confirm_step lib header = (\<lambda>(msg, att) best.
     case att of
       BitcoinBlockHeaderAttestation height \<Rightarrow>
         catch
           (bnd (header height) (\<lambda>h.
             case ots_verify_header lib height msg h of
               None \<Rightarrow> throw VerificationError
             | Some block_time \<Rightarrow>
                 let found = \<lparr>bc_height = height, bc_block_time = block_time\<rparr>
                 in ret (case best of
                           None \<Rightarrow> Some found
                         | Some b \<Rightarrow> if height < bc_height b then Some found else Some b)))
           (\<lambda>e. if e = VerificationError then ret best else throw e)
     | _ \<Rightarrow> ret best)"

definition confirm_bitcoin ::
  "('f, 'n, 'g, 'h) ots \<Rightarrow> string \<Rightarrow> string \<Rightarrow> (int \<Rightarrow> ('w, anchor_exn, 'h) eff)
   \<Rightarrow> ('w, anchor_exn, bitcoin_confirmation) eff" where
  "confirm_bitcoin lib prf sha header =
     (case check_binding lib prf sha of
        Inl e \<Rightarrow> throw e
      | Inr _ \<Rightarrow>
          (case loads lib prf of
             Inl e \<Rightarrow> throw e
           | Inr f \<Rightarrow>
               bnd (fold_eff (confirm_step lib header) (ots_all_attestations lib f) None) (\<lambda>best.
                 case best of None \<Rightarrow> throw AnchorBindingError | Some b \<Rightarrow> ret b)))"

text \<open>What a proof attests: a Bitcoin attestation of it verified against the header it names.\<close>

definition attests :: "('f, 'n, 'g, 'h) ots \<Rightarrow> string \<Rightarrow> string \<Rightarrow> 'h \<Rightarrow> bitcoin_confirmation \<Rightarrow> bool" where
  "attests lib prf sha h b \<longleftrightarrow>
     (\<exists>f digest msg. ots_deserialize lib prf = Some f \<and> fromhex sha = Some digest \<and>
        ots_uses_sha256 lib f \<and> ots_file_digest lib f = digest \<and> ots_msg lib f (ots_root lib f) = digest \<and>
        (msg, BitcoinBlockHeaderAttestation (bc_height b)) \<in> set (ots_all_attestations lib f) \<and>
        ots_verify_header lib (bc_height b) msg h = Some (bc_block_time b))"

lemma loads_InrD: "loads lib prf = Inr f \<Longrightarrow> ots_deserialize lib prf = Some f \<and> prf \<noteq> []"
  by (auto simp: loads_def split: if_splits option.splits)

lemma check_binding_InrD:
  assumes "check_binding lib prf sha = Inr s"
  shows "\<exists>f digest. loads lib prf = Inr f \<and> fromhex sha = Some digest \<and> ots_uses_sha256 lib f \<and>
    ots_file_digest lib f = digest \<and> ots_msg lib f (ots_root lib f) = digest \<and>
    pst_bitcoin_heights s = sort (bitcoin_heights (ots_all_attestations lib f))"
  using assms by (auto simp: check_binding_def bindr_Inr_iff Let_def split: option.splits if_splits)

lemma confirm_step_cases:
  assumes "confirm_step lib header (msg, att) best w = (Inr b, w')"
  shows "b = best \<or> (\<exists>height w1 h t. att = BitcoinBlockHeaderAttestation height \<and> header height w = (Inr h, w1) \<and>
    ots_verify_header lib height msg h = Some t \<and> b = Some \<lparr>bc_height = height, bc_block_time = t\<rparr>)"
proof (cases att)
  case (BitcoinBlockHeaderAttestation height)
  show ?thesis
  proof (cases "header height w")
    case (Pair r w1)
    then show ?thesis
      using assms BitcoinBlockHeaderAttestation
      by (cases r; cases best)
        (auto simp: confirm_step_def catch_def bnd_def Let_def split: option.splits if_splits)
  qed
qed (use assms in \<open>auto simp: confirm_step_def\<close>)

text \<open>A header the source returned at some point, however the world changed meanwhile.\<close>

definition serves :: "(int \<Rightarrow> ('w, anchor_exn, 'h) eff) \<Rightarrow> int \<Rightarrow> 'h \<Rightarrow> bool" where
  "serves header height h \<longleftrightarrow> (\<exists>w w'. header height w = (Inr h, w'))"

lemma confirm_fold:
  assumes "fold_eff (confirm_step lib header) as best w = (Inr (Some b), w')"
  shows "best = Some b \<or> (\<exists>msg h. (msg, BitcoinBlockHeaderAttestation (bc_height b)) \<in> set as \<and>
    serves header (bc_height b) h \<and> ots_verify_header lib (bc_height b) msg h = Some (bc_block_time b))"
  using assms
proof (induction as arbitrary: best w)
  case (Cons a as)
  obtain msg att where a: "a = (msg, att)" by (cases a)
  from Cons.prems obtain best1 w1 where step: "confirm_step lib header (msg, att) best w = (Inr best1, w1)"
    and rest: "fold_eff (confirm_step lib header) as best1 w1 = (Inr (Some b), w')"
    by (auto simp: a bnd_def split: prod.splits sum.splits)
  from Cons.IH [OF rest] confirm_step_cases [OF step] show ?case
    by (auto simp: a serves_def) blast+
qed simp

lemma confirm_bitcoin_attests:
  assumes "confirm_bitcoin lib prf sha header w = (Inr b, w')"
  shows "\<exists>h. serves header (bc_height b) h \<and> attests lib prf sha h b"
proof -
  from assms obtain s f where s: "check_binding lib prf sha = Inr s" and f: "loads lib prf = Inr f"
    and fold: "fold_eff (confirm_step lib header) (ots_all_attestations lib f) None w = (Inr (Some b), w')"
    by (auto simp: confirm_bitcoin_def bnd_def split: sum.splits prod.splits option.splits)
  from confirm_fold [OF fold] check_binding_InrD [OF s] f loads_InrD [OF f] show ?thesis
    unfolding attests_def by fastforce
qed

end
