(* ===== verification/Anchor_Adapters.thy ===== *)
theory Anchor_Adapters
  imports Anchoring
begin

text \<open>
  The adapters of \<open>orchestration/anchor_adapters.py\<close>: the calendars, the block explorer and the
  manifest repository. Running git, the file system, HTTP and the randomness of a nonce are
  parameters; the sequence of commands, what is checked before and after each, and what is refused
  are the code's.
\<close>

section \<open>Text helpers\<close>

definition strip :: "string \<Rightarrow> string" where
  "strip s = rev (dropWhile whitespace (rev (dropWhile whitespace s)))"

definition first_word :: "string \<Rightarrow> string" where
  "first_word s = takeWhile (\<lambda>c. \<not> whitespace c) (dropWhile whitespace s)"

lemma strip_Nil: "strip s = [] \<Longrightarrow> dropWhile whitespace s = []"
proof (rule ccontr)
  assume a: "strip s = []" and b: "dropWhile whitespace s \<noteq> []"
  from b have "\<not> whitespace (hd (dropWhile whitespace s))" by (rule hd_dropWhile)
  moreover have "hd (dropWhile whitespace s) \<in> set (dropWhile whitespace s)" using b by simp
  ultimately show False using a by (auto simp: strip_def dropWhile_eq_Nil_conv)
qed

definition lower_hex :: "char \<Rightarrow> bool" where
  "lower_hex c \<longleftrightarrow> digit_char c \<or> 97 \<le> (of_char c :: nat) \<and> (of_char c :: nat) \<le> 102"

definition hex_of_length :: "nat \<Rightarrow> string \<Rightarrow> bool" where
  "hex_of_length n s \<longleftrightarrow> length s = n \<and> list_all lower_hex s"

definition rstrip_slash :: "string \<Rightarrow> string" where
  "rstrip_slash s = rev (dropWhile (\<lambda>c. c = CHR ''/'') (rev s))"

definition endswith :: "string \<Rightarrow> string \<Rightarrow> bool" where
  "endswith s p \<longleftrightarrow> startswith (rev s) (rev p)"

fun has_dotdot :: "string \<Rightarrow> bool" where
  "has_dotdot (a # b # cs) \<longleftrightarrow> a = CHR ''.'' \<and> b = CHR ''.'' \<or> has_dotdot (b # cs)"
| "has_dotdot _ \<longleftrightarrow> False"

section \<open>Calendars\<close>

record 'w calendars =
  cal_urls :: "string list"
  cal_min_success :: nat
  cal_nonce :: "('w, anchor_exn, string) eff"
  cal_post :: "string \<Rightarrow> string \<Rightarrow> ('w, anchor_exn, string) eff"
  cal_get :: "string \<Rightarrow> string \<Rightarrow> ('w, anchor_exn, nat \<times> string) eff"

definition make_calendars ::
  "string list \<Rightarrow> nat \<Rightarrow> bool \<Rightarrow> ('w, anchor_exn, string) eff \<Rightarrow> (string \<Rightarrow> string \<Rightarrow> ('w, anchor_exn, string) eff)
   \<Rightarrow> (string \<Rightarrow> string \<Rightarrow> ('w, anchor_exn, nat \<times> string) eff) \<Rightarrow> anchor_exn + 'w calendars" where
  "make_calendars urls min_success allow_http nonce post get =
     (let clean = map rstrip_slash urls
      in if clean = [] \<or> min_success < 1 \<or> length clean < min_success then Inl AnchorValueError
         else if \<not> allow_http \<and> list_ex (\<lambda>u. \<not> startswith u ''https://'') clean then Inl AnchorValueError
         else Inr \<lparr>cal_urls = clean, cal_min_success = min_success, cal_nonce = nonce,
                   cal_post = post, cal_get = get\<rparr>)"

text \<open>One calendar of \<open>stamp\<close>: an HTTP or binding failure is counted out, anything else raises.\<close>

definition stamp_step ::
  "('f, 'n, 'g, 'h) ots \<Rightarrow> 'w calendars \<Rightarrow> 'n \<Rightarrow> string \<Rightarrow> 'f \<times> nat \<Rightarrow> ('w, anchor_exn, 'f \<times> nat) eff" where
  "stamp_step lib c n url = (\<lambda>(f, done).
     catch
       (bnd (cal_post c url (ots_msg lib f n)) (\<lambda>reply.
         case parse_fragment lib reply (ots_msg lib f n) of
           Inl e \<Rightarrow> throw e
         | Inr g \<Rightarrow> ret (ots_merge lib n g f, done + 1)))
       (\<lambda>e. if e = HttpError \<or> e = AnchorBindingError then ret (f, done) else throw e))"

definition cal_stamp :: "('f, 'n, 'g, 'h) ots \<Rightarrow> 'w calendars \<Rightarrow> string \<Rightarrow> ('w, anchor_exn, string) eff" where
  "cal_stamp lib c sha =
     (case fromhex sha of
        None \<Rightarrow> throw AnchorValueError
      | Some digest \<Rightarrow>
          bnd (cal_nonce c) (\<lambda>nonce.
            case new_stamp lib digest nonce of
              Inl e \<Rightarrow> throw e
            | Inr (f, n) \<Rightarrow>
                bnd (fold_eff (stamp_step lib c n) (cal_urls c) (f, 0)) (\<lambda>(f1, done).
                  if done < cal_min_success c then throw AnchorUnavailableError
                  else let prf = ots_serialize lib f1
                       in case check_binding lib prf sha of Inl e \<Rightarrow> throw e | Inr _ \<Rightarrow> ret prf)))"

definition cal_fetch :: "'w calendars \<Rightarrow> string \<Rightarrow> string \<Rightarrow> ('w, anchor_exn, string option) eff" where
  "cal_fetch c uri msg =
     (let base = rstrip_slash uri
      in if base \<notin> set (cal_urls c) then ret None
         else bnd (catch (cal_get c base msg) (\<lambda>e. throw (if e = HttpError then AnchorUnavailableError else e)))
           (\<lambda>(status, content).
             if status = 404 then ret None
             else if status \<noteq> 200 \<or> MAX_FRAGMENT_BYTES < length content then throw AnchorUnavailableError
             else ret (Some content)))"

section \<open>Block headers\<close>

text \<open>
  The explorer's replies are text; reading a header from its bytes and hashing it is the Bitcoin
  library's. \<open>hash_hex\<close> is the block id as the explorer writes it.
\<close>

definition explorer_header ::
  "(int \<Rightarrow> ('w, anchor_exn, string) eff) \<Rightarrow> (string \<Rightarrow> ('w, anchor_exn, string) eff)
   \<Rightarrow> (string \<Rightarrow> 'h) \<Rightarrow> ('h \<Rightarrow> string) \<Rightarrow> int \<Rightarrow> ('w, anchor_exn, 'h) eff" where
  "explorer_header get_id get_raw deserialize hash_hex height =
     bnd (catch
            (bnd (get_id height) (\<lambda>t.
              if \<not> hex_of_length 64 (strip t) then throw AnchorUnavailableError
              else bnd (get_raw (strip t)) (\<lambda>raw. ret (strip t, strip raw))))
            (\<lambda>e. throw (if e = HttpError then AnchorUnavailableError else e)))
       (\<lambda>(bid, text).
         if \<not> hex_of_length 160 text then throw AnchorUnavailableError
         else let h = deserialize (the (fromhex text))
              in if hash_hex h \<noteq> bid then throw AnchorBindingError else ret h)"

section \<open>The manifest repository\<close>

record 'w repo =
  rp_remote :: string
  rp_branch :: string
  rp_run :: "string list \<Rightarrow> ('w, anchor_exn, nat \<times> string) eff"
  rp_has_git :: "('w, anchor_exn, bool) eff"
  rp_read :: "string \<Rightarrow> ('w, anchor_exn, string option) eff"
  rp_write :: "string \<Rightarrow> string \<Rightarrow> ('w, anchor_exn, unit) eff"
  rp_mkdir :: "('w, anchor_exn, unit) eff"

definition branch_char :: "char \<Rightarrow> bool" where
  "branch_char c \<longleftrightarrow> digit_char c \<or> upper_char c \<or> 97 \<le> (of_char c :: nat) \<and> (of_char c :: nat) \<le> 122 \<or>
     c \<in> set ''._/-''"

definition branch_ok :: "string \<Rightarrow> bool" where
  "branch_ok b \<longleftrightarrow> b \<noteq> [] \<and> length b \<le> 128 \<and> list_all branch_char b \<and> hd b \<notin> set ''._/-'' \<and>
     \<not> has_dotdot b \<and> \<not> endswith b ''.lock'' \<and> \<not> endswith b ''/''"

definition remote_ok :: "string \<Rightarrow> bool" where
  "remote_ok r \<longleftrightarrow> r \<noteq> [] \<and> \<not> startswith r ''-'' \<and>
     CHR 0x0A \<notin> set r \<and> CHR 0x0D \<notin> set r \<and> CHR 0x00 \<notin> set r"

text \<open>\<open>_MANIFEST.fullmatch\<close>: a lower-case UUID between \<open>anchors/\<close> and \<open>.json\<close>.\<close>

definition uuid_shape :: "string \<Rightarrow> bool" where
  "uuid_shape u \<longleftrightarrow> length u = 36 \<and>
     list_all (\<lambda>i. if i \<in> {8, 13, 18, 23} then u ! i = CHR ''-'' else lower_hex (u ! i)) [0..<36]"

definition manifest_ok :: "string \<Rightarrow> bool" where
  "manifest_ok p \<longleftrightarrow> length p = 49 \<and> take 8 p = ''anchors/'' \<and> uuid_shape (take 36 (drop 8 p)) \<and>
     drop 44 p = ''.json''"

definition git :: "'w repo \<Rightarrow> bool \<Rightarrow> string list \<Rightarrow> ('w, anchor_exn, nat \<times> string) eff" where
  "git g check_rc args =
     bnd (catch (rp_run g args) (\<lambda>_. throw AnchorUnavailableError)) (\<lambda>(rc, out).
       if check_rc \<and> rc \<noteq> 0 then throw AnchorUnavailableError else ret (rc, out))"

abbreviation git_run :: "'w repo \<Rightarrow> string list \<Rightarrow> ('w, anchor_exn, unit) eff" where
  "git_run g args \<equiv> bnd (git g True args) (\<lambda>_. ret ())"

abbreviation branch_ref :: "'w repo \<Rightarrow> string" where
  "branch_ref g \<equiv> ''refs/heads/'' @ rp_branch g"

definition ensure_clone :: "'w repo \<Rightarrow> ('w, anchor_exn, unit) eff" where
  "ensure_clone g =
     bnd (rp_has_git g) (\<lambda>there.
     bnd (if there then ret ()
          else bnd (rp_mkdir g) (\<lambda>_.
               bnd (git_run g [''init'', ''-q'', ''-b'', rp_branch g]) (\<lambda>_.
               git_run g [''remote'', ''add'', ''origin'', rp_remote g])))
       (\<lambda>_. for_each (git_run g)
              [[''config'', ''core.autocrlf'', ''false''], [''config'', ''core.safecrlf'', ''false''],
               [''config'', ''core.attributesFile'', ''/dev/null'']]))"

definition sync :: "'w repo \<Rightarrow> ('w, anchor_exn, bool) eff" where
  "sync g =
     bnd (ensure_clone g) (\<lambda>_.
     bnd (git g True [''ls-remote'', ''--heads'', ''origin'', branch_ref g]) (\<lambda>(_, listed).
       if strip listed = [] then ret False
       else bnd (git_run g [''fetch'', ''-q'', ''origin'', branch_ref g]) (\<lambda>_.
            bnd (git_run g [''checkout'', ''-q'', ''-f'', ''-B'', rp_branch g, ''FETCH_HEAD'']) (\<lambda>_.
            ret True))))"

definition place_file :: "'w repo \<Rightarrow> string \<times> string \<Rightarrow> string list \<Rightarrow> ('w, anchor_exn, string list) eff" where
  "place_file g = (\<lambda>(path, data) fresh.
     bnd (rp_read g path) (\<lambda>there.
       case there of
         Some bytes \<Rightarrow> if bytes \<noteq> data then throw AnchorBindingError else ret fresh
       | None \<Rightarrow> bnd (rp_write g path data) (\<lambda>_. ret (fresh @ [path]))))"

definition push_fresh :: "'w repo \<Rightarrow> string list \<Rightarrow> ('w, anchor_exn, string) eff" where
  "push_fresh g fresh =
     (if fresh = [] then ret []
      else bnd (git_run g (''add'' # ''--'' # fresh)) (\<lambda>_.
           bnd (git_run g [''commit'', ''-q'', ''--no-verify'', ''-m'',
                  ''anchor: '' @ str_int (int (length fresh)) @ '' commitment(s)'']) (\<lambda>_.
           bnd (git g True [''rev-parse'', ''HEAD'']) (\<lambda>(_, head).
           bnd (git_run g [''push'', ''-q'', ''--no-verify'', ''origin'', ''HEAD:'' @ branch_ref g]) (\<lambda>_.
           ret (strip head))))))"

definition commit_of :: "'w repo \<Rightarrow> string list \<Rightarrow> string \<Rightarrow> string \<times> string
    \<Rightarrow> (string \<times> string) list \<Rightarrow> ('w, anchor_exn, (string \<times> string) list) eff" where
  "commit_of g fresh head = (\<lambda>(path, _) out.
     if path \<in> set fresh then ret (out @ [(path, head)])
     else bnd (git g True [''log'', ''-n'', ''1'', ''--format=%H'', ''--'', path]) (\<lambda>(_, history).
            if strip history = [] then throw AnchorBindingError
            else ret (out @ [(path, strip history)])))"

definition git_anchor :: "'w repo \<Rightarrow> (string \<times> string) list \<Rightarrow> ('w, anchor_exn, (string \<times> string) list) eff" where
  "git_anchor g files =
     (if list_ex (\<lambda>(path, _). \<not> manifest_ok path) files then throw AnchorValueError
      else bnd (sync g) (\<lambda>_.
           bnd (fold_eff (place_file g) files []) (\<lambda>fresh.
           bnd (push_fresh g fresh) (\<lambda>head.
           fold_eff (commit_of g fresh head) files []))))"

definition git_reachable :: "'w repo \<Rightarrow> string \<Rightarrow> ('w, anchor_exn, bool) eff" where
  "git_reachable g commit =
     (if \<not> hex_of_length 40 commit then ret False
      else bnd (git g True [''ls-remote'', ''--heads'', ''origin'', branch_ref g]) (\<lambda>(_, listed).
        if \<not> hex_of_length 40 (first_word listed) then ret False
        else bnd (git_run g [''fetch'', ''-q'', ''origin'', branch_ref g]) (\<lambda>_.
             bnd (git g False [''cat-file'', ''-e'', commit @ ''^{commit}'']) (\<lambda>(known, _).
               if known \<noteq> 0 then ret False
               else bnd (git g False [''merge-base'', ''--is-ancestor'', commit, first_word listed])
                      (\<lambda>(rc, _). ret (rc = 0))))))"

section \<open>Watching the repository\<close>

datatype git_call =
    GRun "string list"
  | GRead string "string option"
  | GWrite string string

definition watched_repo :: "'w repo \<Rightarrow> ('w \<times> git_call list) repo" where
  "watched_repo g =
     \<lparr>rp_remote = rp_remote g, rp_branch = rp_branch g,
      rp_run = (\<lambda>args. logged (\<lambda>_. [GRun args]) (\<lambda>_. []) (rp_run g args)),
      rp_has_git = unlogged (rp_has_git g),
      rp_read = (\<lambda>p. logged (\<lambda>_. []) (\<lambda>x. [GRead p x]) (rp_read g p)),
      rp_write = (\<lambda>p d. logged (\<lambda>_. [GWrite p d]) (\<lambda>_. []) (rp_write g p d)),
      rp_mkdir = unlogged (rp_mkdir g)\<rparr>"

lemma watched_repo_simps [simp]:
  "rp_run (watched_repo g) args = logged (\<lambda>_. [GRun args]) (\<lambda>_. []) (rp_run g args)"
  "rp_has_git (watched_repo g) = unlogged (rp_has_git g)"
  "rp_read (watched_repo g) p = logged (\<lambda>_. []) (\<lambda>x. [GRead p x]) (rp_read g p)"
  "rp_write (watched_repo g) p d = logged (\<lambda>_. [GWrite p d]) (\<lambda>_. []) (rp_write g p d)"
  "rp_mkdir (watched_repo g) = unlogged (rp_mkdir g)"
  "rp_branch (watched_repo g) = rp_branch g" "rp_remote (watched_repo g) = rp_remote g"
  by (simp_all add: watched_repo_def)

text \<open>
  The trace invariant, newest call first: a file is written only right after it was found missing and
  with the bytes asked for, and something is pushed only if a file was found missing.
\<close>

fun repo_safe :: "(string \<times> string) list \<Rightarrow> git_call list \<Rightarrow> bool" where
  "repo_safe fs [] = True"
| "repo_safe fs (GWrite p d # tr) =
     ((p, d) \<in> set fs \<and> (\<exists>older. tr = GRead p None # older) \<and> repo_safe fs tr)"
| "repo_safe fs (GRun args # tr) =
     ((args \<noteq> [] \<and> hd args = ''push'' \<longrightarrow> (\<exists>p. GRead p None \<in> set tr)) \<and> repo_safe fs tr)"
| "repo_safe fs (GRead p x # tr) = repo_safe fs tr"

lemma repo_safe_push: "repo_safe fs (later @ GRun (''push'' # args) # earlier) \<Longrightarrow> \<exists>p. GRead p None \<in> set earlier"
  by (induction fs later rule: repo_safe.induct) auto

lemma repo_safe_write:
  "repo_safe fs (later @ GWrite p d # earlier) \<Longrightarrow> (p, d) \<in> set fs \<and> (\<exists>older. earlier = GRead p None # older)"
  by (induction fs later rule: repo_safe.induct) auto

text \<open>What is known of the trace when the files in \<open>fresh\<close> have been written.\<close>

definition placed :: "(string \<times> string) list \<Rightarrow> string list \<Rightarrow> git_call list \<Rightarrow> bool" where
  "placed fs fresh tr \<longleftrightarrow> repo_safe fs tr \<and> (fresh \<noteq> [] \<longrightarrow> (\<exists>p. GRead p None \<in> set tr))"

lemma placed_Nil: "placed fs [] = repo_safe fs"
  by (simp add: placed_def fun_eq_iff)

lemma placed_run: "placed fs fresh tr \<Longrightarrow> args = [] \<or> hd args \<noteq> ''push'' \<or> fresh \<noteq> [] \<Longrightarrow> placed fs fresh (GRun args # tr)"
  by (auto simp: placed_def)

abbreviation git_triple where
  "git_triple fs fresh m \<equiv> hoare (on_trace (placed fs fresh)) m (\<lambda>_. on_trace (placed fs fresh)) (\<lambda>_. on_trace (placed fs fresh))"

lemma git_triple_git:
  "args = [] \<or> hd args \<noteq> ''push'' \<or> fresh \<noteq> [] \<Longrightarrow> git_triple fs fresh (git (watched_repo g) c args)"
  unfolding git_def watched_repo_simps
  by (rule hoare_bnd [where R = "\<lambda>_. on_trace (placed fs fresh)"],
      rule hoare_catch [where F = "\<lambda>_. on_trace (placed fs fresh)"], rule hoare_logged_trace)
    (simp_all add: placed_run hoare_ret hoare_throw split: prod.split)

lemma git_triple_run:
  "args = [] \<or> hd args \<noteq> ''push'' \<or> fresh \<noteq> [] \<Longrightarrow> git_triple fs fresh (git_run (watched_repo g) args)"
  by (rule hoare_bnd [OF git_triple_git]) (auto intro: hoare_ret)

lemma git_triple_ensure_clone: "git_triple fs fresh (ensure_clone (watched_repo g))"
  unfolding ensure_clone_def
  by (rule hoare_bnd, simp, rule hoare_unlogged_trace, assumption, assumption, rule hoare_bnd, rule hoare_if,
      rule hoare_ret, assumption, rule hoare_bnd, simp, rule hoare_unlogged_trace, assumption, assumption,
      rule hoare_bnd [OF git_triple_run], simp, rule git_triple_run, simp,
      rule hoare_for_each, rule git_triple_run, auto)

lemma git_triple_sync: "git_triple fs fresh (sync (watched_repo g))"
  unfolding sync_def
  by (rule hoare_bnd [OF git_triple_ensure_clone], rule hoare_bnd [OF git_triple_git], simp, rule hoare_pair,
      rule hoare_if, rule hoare_ret, assumption, rule hoare_bnd [OF git_triple_run], simp,
      rule hoare_bnd [OF git_triple_run], simp, rule hoare_ret, assumption)

lemma place_file_triple:
  assumes "(p, d) \<in> set fs"
  shows "hoare (on_trace (placed fs fresh)) (place_file (watched_repo g) (p, d) fresh)
    (\<lambda>fresh. on_trace (placed fs fresh)) (\<lambda>_. on_trace (repo_safe fs))"
  unfolding place_file_def prod.case
proof (rule hoare_bnd)
  show "hoare (on_trace (placed fs fresh)) (rp_read (watched_repo g) p)
      (\<lambda>x. on_trace (\<lambda>tr. placed fs fresh tr \<and> (\<exists>older. tr = GRead p x # older))) (\<lambda>_. on_trace (repo_safe fs))"
    unfolding watched_repo_simps by (rule hoare_logged_trace) (auto simp: placed_def)
  fix x
  show "hoare (on_trace (\<lambda>tr. placed fs fresh tr \<and> (\<exists>older. tr = GRead p x # older)))
      (case x of None \<Rightarrow> bnd (rp_write (watched_repo g) p d) (\<lambda>_. ret (fresh @ [p]))
        | Some bytes \<Rightarrow> if bytes \<noteq> d then throw AnchorBindingError else ret fresh)
      (\<lambda>fresh. on_trace (placed fs fresh)) (\<lambda>_. on_trace (repo_safe fs))"
  proof (cases x)
    case None
    have "hoare (on_trace (\<lambda>tr. placed fs fresh tr \<and> (\<exists>older. tr = GRead p x # older)))
        (rp_write (watched_repo g) p d) (\<lambda>_. on_trace (placed fs (fresh @ [p]))) (\<lambda>_. on_trace (repo_safe fs))"
      unfolding watched_repo_simps None by (rule hoare_logged_trace) (use assms in \<open>auto simp: placed_def\<close>)
    then show ?thesis unfolding None option.case by (rule hoare_bnd) (auto intro: hoare_ret)
  qed (auto intro!: hoare_intros simp: on_trace_def placed_def simp del: ret_apply throw_apply)
qed

lemma git_triple_push: "git_triple fs fresh (push_fresh (watched_repo g) fresh)"
  unfolding push_fresh_def
  by (rule hoare_if, rule hoare_ret, assumption, rule hoare_bnd [OF git_triple_run], simp,
      rule hoare_bnd [OF git_triple_run], simp, rule hoare_bnd [OF git_triple_git], simp, rule hoare_pair,
      rule hoare_bnd [OF git_triple_run], simp, rule hoare_ret, assumption)

lemma git_triple_commit_of: "git_triple fs fresh (commit_of (watched_repo g) fr head pd out)"
  unfolding commit_of_def
  by (cases pd, simp, intro conjI impI, rule hoare_ret, assumption, rule hoare_bnd [OF git_triple_git], simp,
      rule hoare_pair, rule hoare_if, rule hoare_throw, assumption, rule hoare_ret, assumption)

lemma git_anchor_triple:
  "hoare (on_trace (repo_safe fs)) (git_anchor (watched_repo g) fs) (\<lambda>_. on_trace (repo_safe fs))
     (\<lambda>_. on_trace (repo_safe fs))"
proof -
  have weak: "placed fs fresh tr \<Longrightarrow> repo_safe fs tr" for fresh tr by (simp add: placed_def)
  show ?thesis
    unfolding git_anchor_def
  proof (rule hoare_if, rule hoare_throw, assumption, rule hoare_bnd)
    show "hoare (on_trace (repo_safe fs)) (sync (watched_repo g)) (\<lambda>_. on_trace (placed fs [])) (\<lambda>_. on_trace (repo_safe fs))"
      using git_triple_sync [of fs "[]"] by (simp add: placed_Nil)
    show "hoare (on_trace (placed fs []))
        (bnd (fold_eff (place_file (watched_repo g)) fs []) (\<lambda>fresh.
         bnd (push_fresh (watched_repo g) fresh) (\<lambda>head. fold_eff (commit_of (watched_repo g) fresh head) fs [])))
        (\<lambda>_. on_trace (repo_safe fs)) (\<lambda>_. on_trace (repo_safe fs))" for x
    proof (rule hoare_bnd)
      show "hoare (on_trace (placed fs [])) (fold_eff (place_file (watched_repo g)) fs [])
          (\<lambda>fresh. on_trace (placed fs fresh)) (\<lambda>_. on_trace (repo_safe fs))"
        by (rule hoare_fold [where I = "\<lambda>fresh. on_trace (placed fs fresh)"])
          (use place_file_triple in \<open>auto simp: split_paired_all\<close>)
      fix fresh
      have "git_triple fs fresh (bnd (push_fresh (watched_repo g) fresh)
          (\<lambda>head. fold_eff (commit_of (watched_repo g) fresh head) fs []))"
        by (rule hoare_bnd [OF git_triple_push], rule hoare_fold, rule git_triple_commit_of)
      then show "hoare (on_trace (placed fs fresh)) (bnd (push_fresh (watched_repo g) fresh)
          (\<lambda>head. fold_eff (commit_of (watched_repo g) fresh head) fs []))
          (\<lambda>_. on_trace (repo_safe fs)) (\<lambda>_. on_trace (repo_safe fs))"
        by (rule hoare_weaken) (use weak in \<open>auto simp: on_trace_def\<close>)
    qed
  qed
qed

section \<open>A concrete repository\<close>

text \<open>The remote has no branch yet; the working tree is the world.\<close>

definition demo_path :: string where
  "demo_path = ''anchors/00000000-0000-0000-0000-000000000000.json''"

definition demo_commit :: string where
  "demo_commit = replicate 40 CHR ''c''"

definition demo_out :: "string list \<Rightarrow> string" where
  "demo_out args = (if hd args = ''log'' \<or> hd args = ''rev-parse'' then demo_commit @ [CHR 0x0A] else [])"

definition demo_repo :: "(string \<rightharpoonup> string) repo" where
  "demo_repo = \<lparr>rp_remote = ''r'', rp_branch = ''main'', rp_run = (\<lambda>args w. (Inr (0, demo_out args), w)),
     rp_has_git = (\<lambda>w. (Inr True, w)), rp_read = (\<lambda>p w. (Inr (w p), w)),
     rp_write = (\<lambda>p d w. (Inr (), w(p \<mapsto> d))), rp_mkdir = (\<lambda>w. (Inr (), w))\<rparr>"

lemma demo_path_ok: "manifest_ok demo_path"
  by (simp add: demo_path_def manifest_ok_def uuid_shape_def lower_hex_def digit_char_def upt_rec)

lemma demo_strip: "strip (demo_commit @ [CHR 0x0A]) = demo_commit"
  by (simp add: strip_def demo_commit_def whitespace_def eval_nat_numeral)

lemma demo_git:
  "git (watched_repo demo_repo) b args (w, tr) = (Inr (0, demo_out args), (w, GRun args # tr))"
  by (simp add: git_def catch_def bnd_def logged_def demo_repo_def)

lemma demo_first_anchor:
  "git_anchor (watched_repo demo_repo) [(demo_path, ''m'')] (Map.empty, []) =
     (Inr [(demo_path, demo_commit)], ([demo_path \<mapsto> ''m''],
       [GRun [''push'', ''-q'', ''--no-verify'', ''origin'', ''HEAD:refs/heads/main'']] @
       GRun [''rev-parse'', ''HEAD''] #
       [GRun [''commit'', ''-q'', ''--no-verify'', ''-m'', ''anchor: 1 commitment(s)''],
        GRun [''add'', ''--'', demo_path], GWrite demo_path ''m'', GRead demo_path None,
        GRun [''ls-remote'', ''--heads'', ''origin'', ''refs/heads/main''],
        GRun [''config'', ''core.attributesFile'', ''/dev/null''],
        GRun [''config'', ''core.safecrlf'', ''false''],
        GRun [''config'', ''core.autocrlf'', ''false'']]))"
proof -
  have b: "rp_branch demo_repo = ''main''" by (simp add: demo_repo_def)
  have rd: "rp_read demo_repo p w = (Inr (w p), w)" and wr: "rp_write demo_repo p d w = (Inr (), w(p \<mapsto> d))"
    and hg: "rp_has_git demo_repo w = (Inr True, w)" for p d w
    by (simp_all add: demo_repo_def)
  have str: "str_int 1 = ''1''" by (simp add: str_int_def dec_digits.simps char_of_def bit_numeral_rec bit_Suc_0_iff)
  show ?thesis
    by (simp add: git_anchor_def demo_path_ok sync_def ensure_clone_def bnd_def demo_git b rd wr hg
        logged_def unlogged_def demo_out_def place_file_def push_fresh_def commit_of_def demo_strip str)
      (simp add: strip_def)
qed

section \<open>Properties\<close>

text \<open>
  C25: the anchor repository is append-only. Whatever git, the remote and the file system answer, a
  manifest is written only with the bytes asked for, at a valid manifest path, and right after the
  path was found missing, so an existing manifest is never rewritten; and something is pushed only if
  a manifest was found missing in the same call.
\<close>

theorem git_anchor_never_rewrites:
  assumes "git_anchor (watched_repo g) fs (w, []) = (r, (w', later @ c # earlier))"
  shows "(\<forall>p d. c = GWrite p d \<longrightarrow> (p, d) \<in> set fs \<and> manifest_ok p \<and> (\<exists>older. earlier = GRead p None # older)) \<and>
    (\<forall>args. c = GRun (''push'' # args) \<longrightarrow> (\<exists>p. GRead p None \<in> set earlier))"
proof -
  have "\<not> list_ex (\<lambda>(path, _). \<not> manifest_ok path) fs"
    using assms by (auto simp: git_anchor_def split: if_splits)
  then have ok: "(p, d) \<in> set fs \<Longrightarrow> manifest_ok p" for p d
    by (auto simp: list_ex_iff)
  have "repo_safe fs (later @ c # earlier)"
    using hoare_InrD [OF git_anchor_triple, of fs "(w, [])"] hoare_InlD [OF git_anchor_triple, of fs "(w, [])"] assms
    by (cases r) fastforce+
  with ok repo_safe_write repo_safe_push show ?thesis by metis
qed

theorem git_anchor_never_rewrites_witness:
  "\<exists>p. GRead p None \<in> set
     [GRun [''rev-parse'', ''HEAD''],
      GRun [''commit'', ''-q'', ''--no-verify'', ''-m'', ''anchor: 1 commitment(s)''],
      GRun [''add'', ''--'', demo_path], GWrite demo_path ''m'', GRead demo_path None,
      GRun [''ls-remote'', ''--heads'', ''origin'', ''refs/heads/main''],
      GRun [''config'', ''core.attributesFile'', ''/dev/null''],
      GRun [''config'', ''core.safecrlf'', ''false''],
      GRun [''config'', ''core.autocrlf'', ''false'']]"
  using git_anchor_never_rewrites [of demo_repo "[(demo_path, ''m'')]" Map.empty _ _ "[]"
      "GRun [''push'', ''-q'', ''--no-verify'', ''origin'', ''HEAD:refs/heads/main'']", simplified append_Nil]
    demo_first_anchor [simplified append_Cons append_Nil] by blast

text \<open>
  C26: a manifest that was committed locally but whose push failed while the remote branch did not
  exist yet stays stuck. The next call finds it in the working tree, reports its local commit and
  pushes nothing, and the reachability check then refuses that commit, every time.
\<close>

theorem unpushed_manifest_is_stuck:
  assumes "manifest_ok path" and "rp_has_git g w = (Inr True, w)"
    and "\<And>args. rp_run g args w = (Inr (0, printed args), w)"
    and "strip (printed [''ls-remote'', ''--heads'', ''origin'', branch_ref g]) = []"
    and "rp_read g path w = (Inr (Some data), w)"
    and "strip (printed [''log'', ''-n'', ''1'', ''--format=%H'', ''--'', path]) = commit" and "commit \<noteq> []"
  shows "(\<exists>tr. git_anchor (watched_repo g) [(path, data)] (w, []) = (Inr [(path, commit)], (w, tr)) \<and>
      (\<forall>args. GRun (''push'' # args) \<notin> set tr)) \<and> git_reachable g commit w = (Inr False, w)"
proof -
  have git: "git (watched_repo g) b args (w, tr) = (Inr (0, printed args), (w, GRun args # tr))"
    and git': "git g b args w = (Inr (0, printed args), w)" for b args tr
    by (simp_all add: git_def catch_def bnd_def logged_def assms(3))
  have "dropWhile whitespace (printed [''ls-remote'', ''--heads'', ''origin'', branch_ref g]) = []"
    using assms(4) by (rule strip_Nil)
  then have "first_word (printed [''ls-remote'', ''--heads'', ''origin'', branch_ref g]) = []"
    unfolding first_word_def by (simp only: takeWhile.simps)
  then have "git_reachable g commit w = (Inr False, w)"
    by (simp add: git_reachable_def bnd_def git' hex_of_length_def)
  then show ?thesis
    using assms by (simp add: git_anchor_def sync_def ensure_clone_def bnd_def git logged_def unlogged_def
        place_file_def push_fresh_def commit_of_def)
qed

theorem unpushed_manifest_is_stuck_witness:
  "(\<exists>tr. git_anchor (watched_repo demo_repo) [(demo_path, ''m'')] ([demo_path \<mapsto> ''m''], []) =
      (Inr [(demo_path, demo_commit)], ([demo_path \<mapsto> ''m''], tr)) \<and> (\<forall>args. GRun (''push'' # args) \<notin> set tr)) \<and>
    git_reachable demo_repo demo_commit [demo_path \<mapsto> ''m''] = (Inr False, [demo_path \<mapsto> ''m''])"
proof (rule unpushed_manifest_is_stuck [OF demo_path_ok])
  show "rp_run demo_repo args [demo_path \<mapsto> ''m''] = (Inr (0, demo_out args), [demo_path \<mapsto> ''m''])" for args
    by (simp add: demo_repo_def)
  show "strip (demo_out [''log'', ''-n'', ''1'', ''--format=%H'', ''--'', demo_path]) = demo_commit"
    by (simp add: demo_out_def demo_strip)
qed (simp_all add: demo_repo_def demo_out_def strip_def demo_commit_def)

end
