(* ===== verification/Anchor_Stage.thy ===== *)
theory Anchor_Stage
  imports Anchor_Adapters Store
begin

text \<open>
  The anchoring stage of \<open>orchestration/anchor_stage.py\<close>: \<open>AnchorStage\<close>, which takes a run from
  \<open>COMMITTED\<close> to \<open>ANCHORED\<close>, and \<open>AnchorUpgrader\<close>, which confirms anchors later. The store, the
  calendars, the git remote, the header source and the clock are the records of operations the
  constructors are given; what is proved holds whatever they answer.
\<close>

section \<open>The stage\<close>

record 'w anchor_store =
  as_load_run :: "uuid \<Rightarrow> ('w, anchor_exn, run_record option) eff"
  as_load_material :: "uuid \<Rightarrow> ('w, anchor_exn, commitment_material option) eff"
  as_mark_anchored :: "commitment_anchor \<Rightarrow> ('w, anchor_exn, bool) eff"
  as_record_dlq :: "dlq_record list \<Rightarrow> ('w, anchor_exn, unit) eff"
  as_awaiting :: "('w, anchor_exn, commitment_anchor list) eff"
  as_record_anchor :: "commitment_anchor \<Rightarrow> ('w, anchor_exn, unit) eff"

record 'w stamper =
  st_stamp :: "string \<Rightarrow> ('w, anchor_exn, string) eff"
  st_fetch :: "string \<Rightarrow> string \<Rightarrow> ('w, anchor_exn, string option) eff"

record 'w git_anchors =
  ga_anchor :: "(string \<times> string) list \<Rightarrow> ('w, anchor_exn, (string \<times> string) list) eff"
  ga_is_reachable :: "string \<Rightarrow> ('w, anchor_exn, bool) eff"

record 'w anchor_stage =
  ag_store :: "'w anchor_store"
  ag_stamper :: "'w stamper"
  ag_git :: "'w git_anchors"
  ag_clock :: "('w, anchor_exn, instant) eff"
  ag_message :: "anchor_exn \<Rightarrow> string"

record anchor_result =
  an_run_id :: uuid
  an_status :: run_status
  an_advanced :: bool
  an_git_commit :: "string option"

definition ANCHORED_OR_LATER :: "run_status list" where
  "ANCHORED_OR_LATER = [ANCHORED, EXECUTED, SCORED]"

definition dead_letter :: "'w anchor_stage \<Rightarrow> run_record \<Rightarrow> anchor_exn \<Rightarrow> ('w, anchor_exn, unit) eff" where
  "dead_letter s run e =
     catch (as_record_dlq (ag_store s)
              [\<lparr>dlq_run_id = rr_run_id run, dlq_as_of = rr_as_of run, dlq_agent = ''anchor'',
                dlq_error_type = ''commitment_mismatch'', dlq_payload = [(''detail'', take 500 (ag_message s e))]\<rparr>])
           (\<lambda>_. ret ())"

definition is_integrity :: "anchor_exn \<Rightarrow> bool" where
  "is_integrity e \<longleftrightarrow> (\<exists>i. e = AnchorIntegrity i)"

definition verified :: "stdlib \<Rightarrow> 'w anchor_stage \<Rightarrow> run_record \<Rightarrow> ('w, anchor_exn, commitment_material) eff" where
  "verified sl s run =
     catch
       (bnd (as_load_material (ag_store s) (rr_run_id run)) (\<lambda>m.
         case m of
           None \<Rightarrow> throw AnchorNotEligibleError
         | Some m \<Rightarrow>
             (case verify_material sl m of Inl i \<Rightarrow> throw (AnchorIntegrity i) | Inr _ \<Rightarrow> ret m)))
       (\<lambda>e. if is_integrity e then bnd (dead_letter s run e) (\<lambda>_. throw e) else throw e)"

text \<open>The proof to anchor with: a stored one that still binds, else a new stamp.\<close>

definition obtain_proof ::
  "('f, 'n, 'g, 'h) ots \<Rightarrow> 'w anchor_stage \<Rightarrow> commitment_anchor option \<Rightarrow> string \<Rightarrow> ('w, anchor_exn, string) eff" where
  "obtain_proof lib s anchor sha =
     (let stored = (case anchor of
                      Some a \<Rightarrow> (case ca_ots_proof a of Some (c # cs) \<Rightarrow> Some (c # cs) | _ \<Rightarrow> None)
                    | None \<Rightarrow> None)
      in case stored of
           Some prf \<Rightarrow> (case check_binding lib prf sha of Inl e \<Rightarrow> throw e | Inr _ \<Rightarrow> ret prf)
         | None \<Rightarrow>
             bnd (st_stamp (ag_stamper s) sha) (\<lambda>prf.
               case check_binding lib prf sha of Inl e \<Rightarrow> throw e | Inr _ \<Rightarrow> ret prf))"

definition anchor_new ::
  "('f, 'n, 'g, 'h) ots \<Rightarrow> stdlib \<Rightarrow> 'w anchor_stage \<Rightarrow> uuid \<Rightarrow> commitment_material
   \<Rightarrow> ('w, anchor_exn, anchor_result) eff" where
  "anchor_new lib sl s rid m =
     (let sha = cm_stored_sha256 m; path = manifest_path rid
      in bnd (obtain_proof lib s (cm_anchor m) sha) (\<lambda>prf.
         bnd (ga_anchor (ag_git s) [(path, anchor_manifest sl rid sha (cm_committed_at m))]) (\<lambda>commits.
           case map_of commits path of
             None \<Rightarrow> throw AnchorFailure
           | Some commit \<Rightarrow>
               bnd (ga_is_reachable (ag_git s) commit) (\<lambda>ok.
                 if \<not> ok then throw AnchorBindingError
                 else
                   bnd (ag_clock s) (\<lambda>now.
                   bnd (as_mark_anchored (ag_store s)
                          \<lparr>ca_run_id = rid, ca_sha256 = sha, ca_ots_proof = Some prf,
                           ca_git_commit = Some commit, ca_anchored_at = now, ca_verified_at = None\<rparr>)
                     (\<lambda>advanced.
                   ret \<lparr>an_run_id = rid, an_status = ANCHORED, an_advanced = advanced,
                        an_git_commit = Some commit\<rparr>))))))"

definition anchor_run ::
  "('f, 'n, 'g, 'h) ots \<Rightarrow> stdlib \<Rightarrow> 'w anchor_stage \<Rightarrow> uuid \<Rightarrow> ('w, anchor_exn, anchor_result) eff" where
  "anchor_run lib sl s rid =
     bnd (as_load_run (ag_store s) rid) (\<lambda>found.
       case found of
         None \<Rightarrow> throw AnchorNotEligibleError
       | Some run \<Rightarrow>
           bnd (verified sl s run) (\<lambda>m.
             if rr_status run \<in> set ANCHORED_OR_LATER then
               (case cm_anchor m of
                  None \<Rightarrow> throw (AnchorIntegrity CommitmentIntegrityError)
                | Some a \<Rightarrow>
                    (case (ca_ots_proof a, ca_git_commit a) of
                       (Some prf, Some commit) \<Rightarrow>
                         (case check_binding lib prf (cm_stored_sha256 m) of
                            Inl e \<Rightarrow> throw e
                          | Inr _ \<Rightarrow> ret \<lparr>an_run_id = rid, an_status = rr_status run, an_advanced = False,
                                         an_git_commit = Some commit\<rparr>)
                     | _ \<Rightarrow> throw (AnchorIntegrity CommitmentIntegrityError)))
             else if rr_status run \<noteq> COMMITTED then throw AnchorNotEligibleError
             else anchor_new lib sl s rid m))"

section \<open>The upgrader\<close>

record upgrade_summary =
  us_checked :: nat
  us_upgraded :: nat
  us_confirmed :: nat
  us_failed :: nat

record ('w, 'h) upgrader =
  up_store :: "'w anchor_store"
  up_stamper :: "'w stamper"
  up_header :: "(int \<Rightarrow> ('w, anchor_exn, 'h) eff) option"
  up_clock :: "('w, anchor_exn, instant) eff"

definition verify_upgraded ::
  "('f, 'n, 'g, 'h) ots \<Rightarrow> ('w, 'h) upgrader \<Rightarrow> string \<Rightarrow> string
   \<Rightarrow> ('w, anchor_exn, bool \<times> string \<times> instant option) eff" where
  "verify_upgraded lib u old sha =
     (case loads lib old of
        Inl e \<Rightarrow> throw e
      | Inr f \<Rightarrow>
          bnd (upgrade lib (st_fetch (up_stamper u)) f) (\<lambda>(f1, changed).
            let prf = (if changed then ots_serialize lib f1 else old)
            in case check_binding lib prf sha of
                 Inl e \<Rightarrow> throw e
               | Inr status \<Rightarrow>
                   (case up_header u of
                      Some header \<Rightarrow>
                        if pst_confirmed status then
                          bnd (confirm_bitcoin lib prf sha header) (\<lambda>_.
                          bnd (up_clock u) (\<lambda>now. ret (changed, prf, Some now)))
                        else ret (changed, prf, None)
                    | None \<Rightarrow> ret (changed, prf, None))))"

text \<open>One anchor: a binding error is counted and skipped, everything else ends the call.\<close>

definition upgrade_one ::
  "('f, 'n, 'g, 'h) ots \<Rightarrow> ('w, 'h) upgrader \<Rightarrow> commitment_anchor \<Rightarrow> upgrade_summary
   \<Rightarrow> ('w, anchor_exn, upgrade_summary) eff" where
  "upgrade_one lib u a sm =
     (let sm1 = sm\<lparr>us_checked := us_checked sm + 1\<rparr>
      in case ca_ots_proof a of
           None \<Rightarrow> ret sm1
         | Some old \<Rightarrow>
             bnd (catch (bnd (verify_upgraded lib u old (ca_sha256 a)) (\<lambda>x. ret (Some x)))
                    (\<lambda>e. if e = AnchorBindingError then ret None else throw e))
               (\<lambda>outcome.
                 case outcome of
                   None \<Rightarrow> ret (sm1\<lparr>us_failed := us_failed sm1 + 1\<rparr>)
                 | Some (changed, prf, verified_at) \<Rightarrow>
                     if changed \<or> verified_at \<noteq> None then
                       bnd (as_record_anchor (up_store u)
                              \<lparr>ca_run_id = ca_run_id a, ca_sha256 = ca_sha256 a, ca_ots_proof = Some prf,
                               ca_git_commit = None, ca_anchored_at = ca_anchored_at a,
                               ca_verified_at = verified_at\<rparr>)
                         (\<lambda>_. ret (sm1\<lparr>us_upgraded := us_upgraded sm1 + (if changed then 1 else 0),
                                     us_confirmed := us_confirmed sm1 + (if verified_at \<noteq> None then 1 else 0)\<rparr>))
                     else ret sm1))"

definition upgrade_all ::
  "('f, 'n, 'g, 'h) ots \<Rightarrow> ('w, 'h) upgrader \<Rightarrow> ('w, anchor_exn, upgrade_summary) eff" where
  "upgrade_all lib u =
     bnd (as_awaiting (up_store u)) (\<lambda>as.
       fold_eff (upgrade_one lib u) as \<lparr>us_checked = 0, us_upgraded = 0, us_confirmed = 0, us_failed = 0\<rparr>)"

section \<open>Watching the stage\<close>

datatype stage_call =
    SLoadRun uuid "run_record option"
  | SMaterial uuid "commitment_material option"
  | SStamp string
  | SGit "(string \<times> string) list"
  | SCommits "(string \<times> string) list"
  | SReach string bool
  | SMark commitment_anchor
  | SDlq "dlq_record list"
  | SAwaiting "commitment_anchor list"
  | SRecord commitment_anchor

definition watched_store :: "'w anchor_store \<Rightarrow> ('w \<times> stage_call list) anchor_store" where
  "watched_store s =
     \<lparr>as_load_run = (\<lambda>rid. logged (\<lambda>_. []) (\<lambda>x. [SLoadRun rid x]) (as_load_run s rid)),
      as_load_material = (\<lambda>rid. logged (\<lambda>_. []) (\<lambda>x. [SMaterial rid x]) (as_load_material s rid)),
      as_mark_anchored = (\<lambda>a. logged (\<lambda>_. [SMark a]) (\<lambda>_. []) (as_mark_anchored s a)),
      as_record_dlq = (\<lambda>rs. logged (\<lambda>_. [SDlq rs]) (\<lambda>_. []) (as_record_dlq s rs)),
      as_awaiting = logged (\<lambda>_. []) (\<lambda>x. [SAwaiting x]) (as_awaiting s),
      as_record_anchor = (\<lambda>a. logged (\<lambda>_. [SRecord a]) (\<lambda>_. []) (as_record_anchor s a))\<rparr>"

definition watched_stamper :: "'w stamper \<Rightarrow> ('w \<times> stage_call list) stamper" where
  "watched_stamper st =
     \<lparr>st_stamp = (\<lambda>sha. logged (\<lambda>_. [SStamp sha]) (\<lambda>_. []) (st_stamp st sha)),
      st_fetch = (\<lambda>uri msg. unlogged (st_fetch st uri msg))\<rparr>"

definition watched_stage :: "'w anchor_stage \<Rightarrow> ('w \<times> stage_call list) anchor_stage" where
  "watched_stage s =
     \<lparr>ag_store = watched_store (ag_store s), ag_stamper = watched_stamper (ag_stamper s),
      ag_git = \<lparr>ga_anchor = (\<lambda>fs. logged (\<lambda>_. [SGit fs]) (\<lambda>x. [SCommits x]) (ga_anchor (ag_git s) fs)),
                ga_is_reachable = (\<lambda>c. logged (\<lambda>_. []) (\<lambda>b. [SReach c b]) (ga_is_reachable (ag_git s) c))\<rparr>,
      ag_clock = unlogged (ag_clock s), ag_message = ag_message s\<rparr>"

definition watched_upgrader :: "('w, 'h) upgrader \<Rightarrow> ('w \<times> stage_call list, 'h) upgrader" where
  "watched_upgrader u =
     \<lparr>up_store = watched_store (up_store u), up_stamper = watched_stamper (up_stamper u),
      up_header = map_option (\<lambda>f h. unlogged (f h)) (up_header u), up_clock = unlogged (up_clock u)\<rparr>"

lemmas watched_stage_defs = watched_stage_def watched_store_def watched_stamper_def

text \<open>
  What entitles the stage to an external effect: the run was read as \<open>COMMITTED\<close> and its material was
  read and recomputed to the digest. What entitles it to move the run: beyond that the proof binds that
  digest, the manifest of that digest was handed to git, and its commit was reported reachable.
\<close>

definition cleared :: "stdlib \<Rightarrow> uuid \<Rightarrow> commitment_material \<Rightarrow> stage_call list \<Rightarrow> bool" where
  "cleared sl rid m tr \<longleftrightarrow>
     (\<exists>run. SLoadRun rid (Some run) \<in> set tr \<and> rr_status run = COMMITTED \<and>
        SMaterial (rr_run_id run) (Some m) \<in> set tr \<and> verify_material sl m = Inr (cm_stored_sha256 m))"

definition entitled :: "('f, 'n, 'g, 'h) ots \<Rightarrow> stdlib \<Rightarrow> uuid \<Rightarrow> commitment_anchor \<Rightarrow> stage_call list \<Rightarrow> bool" where
  "entitled lib sl rid a tr \<longleftrightarrow>
     (\<exists>m prf commit commits st. cleared sl rid m tr \<and> ca_run_id a = rid \<and> ca_sha256 a = cm_stored_sha256 m \<and>
        ca_ots_proof a = Some prf \<and> check_binding lib prf (ca_sha256 a) = Inr st \<and>
        ca_git_commit a = Some commit \<and> ca_verified_at a = None \<and>
        SGit [(manifest_path rid, anchor_manifest sl rid (ca_sha256 a) (cm_committed_at m))] \<in> set tr \<and>
        SCommits commits \<in> set tr \<and> map_of commits (manifest_path rid) = Some commit \<and>
        SReach commit True \<in> set tr)"

fun stage_safe :: "('f, 'n, 'g, 'h) ots \<Rightarrow> stdlib \<Rightarrow> uuid \<Rightarrow> stage_call list \<Rightarrow> bool" where
  "stage_safe lib sl rid [] = True"
| "stage_safe lib sl rid (c # tr) =
     ((case c of
         SStamp sha \<Rightarrow> \<exists>m. cleared sl rid m tr \<and> sha = cm_stored_sha256 m
       | SGit fs \<Rightarrow> \<exists>m. cleared sl rid m tr
       | SMark a \<Rightarrow> entitled lib sl rid a tr
       | _ \<Rightarrow> True) \<and> stage_safe lib sl rid tr)"

lemma stage_safe_split:
  "stage_safe lib sl rid (later @ c # earlier) \<Longrightarrow> stage_safe lib sl rid (c # earlier)"
  by (induction later) auto

lemma cleared_Cons: "cleared sl rid m tr \<Longrightarrow> cleared sl rid m (c # tr)"
  by (auto simp: cleared_def)

lemma verify_material_stored: "verify_material sl m = Inr h \<Longrightarrow> h = cm_stored_sha256 m"
  by (auto simp: verify_material_def verify_commitment_def bindr_Inr_iff split: sum.splits option.splits if_splits)

abbreviation safe_triple where
  "safe_triple lib sl rid P m Q \<equiv>
     hoare (on_trace (\<lambda>tr. stage_safe lib sl rid tr \<and> P tr)) m
       (\<lambda>x. on_trace (\<lambda>tr. stage_safe lib sl rid tr \<and> Q x tr)) (\<lambda>_. on_trace (stage_safe lib sl rid))"

lemma safe_dead_letter:
  "hoare (on_trace (stage_safe lib sl rid)) (dead_letter (watched_stage s) run e)
     (\<lambda>_. on_trace (stage_safe lib sl rid)) (\<lambda>_. on_trace (stage_safe lib sl rid))"
  unfolding dead_letter_def watched_stage_defs
  by (simp, rule hoare_catch [where F = "\<lambda>_. on_trace (stage_safe lib sl rid)"], rule hoare_logged_trace)
    (auto intro: hoare_ret)

lemma safe_verified:
  "safe_triple lib sl rid (\<lambda>tr. SLoadRun rid (Some run) \<in> set tr) (verified sl (watched_stage s) run)
     (\<lambda>m tr. SLoadRun rid (Some run) \<in> set tr \<and> SMaterial (rr_run_id run) (Some m) \<in> set tr \<and>
        verify_material sl m = Inr (cm_stored_sha256 m))"
  unfolding verified_def
proof (rule hoare_catch [where F = "\<lambda>_. on_trace (stage_safe lib sl rid)"], rule hoare_bnd)
  show "safe_triple lib sl rid (\<lambda>tr. SLoadRun rid (Some run) \<in> set tr)
      (as_load_material (ag_store (watched_stage s)) (rr_run_id run))
      (\<lambda>m tr. SLoadRun rid (Some run) \<in> set tr \<and> SMaterial (rr_run_id run) m \<in> set tr)"
    unfolding watched_stage_defs by (simp, rule hoare_logged_trace) auto
next
  fix m
  show "safe_triple lib sl rid (\<lambda>tr. SLoadRun rid (Some run) \<in> set tr \<and> SMaterial (rr_run_id run) m \<in> set tr)
      (case m of None \<Rightarrow> throw AnchorNotEligibleError
        | Some m \<Rightarrow> (case verify_material sl m of Inl i \<Rightarrow> throw (AnchorIntegrity i) | Inr _ \<Rightarrow> ret m))
      (\<lambda>m tr. SLoadRun rid (Some run) \<in> set tr \<and> SMaterial (rr_run_id run) (Some m) \<in> set tr \<and>
        verify_material sl m = Inr (cm_stored_sha256 m))"
    by (auto intro!: hoare_throw hoare_ret simp: on_trace_def dest: verify_material_stored split: option.split sum.split)
next
  fix e
  show "hoare (on_trace (stage_safe lib sl rid))
      (if is_integrity e then bnd (dead_letter (watched_stage s) run e) (\<lambda>_. throw e) else throw e)
      (\<lambda>m. on_trace (\<lambda>tr. stage_safe lib sl rid tr \<and> SLoadRun rid (Some run) \<in> set tr \<and>
         SMaterial (rr_run_id run) (Some m) \<in> set tr \<and> verify_material sl m = Inr (cm_stored_sha256 m)))
      (\<lambda>_. on_trace (stage_safe lib sl rid))"
    by (rule hoare_if, rule hoare_bnd [OF safe_dead_letter]) (auto intro: hoare_throw)
qed

lemma safe_obtain_proof:
  "safe_triple lib sl rid (cleared sl rid m) (obtain_proof lib (watched_stage s) anchor (cm_stored_sha256 m))
     (\<lambda>prf tr. cleared sl rid m tr \<and> (\<exists>st. check_binding lib prf (cm_stored_sha256 m) = Inr st))"
proof -
  have stored: "safe_triple lib sl rid (cleared sl rid m)
      (case check_binding lib pf (cm_stored_sha256 m) of Inl e \<Rightarrow> throw e | Inr _ \<Rightarrow> ret pf)
      (\<lambda>pf tr. cleared sl rid m tr \<and> (\<exists>st. check_binding lib pf (cm_stored_sha256 m) = Inr st))" for pf
    by (auto intro!: hoare_throw hoare_ret simp: on_trace_def split: sum.split)
  have stamp: "safe_triple lib sl rid (cleared sl rid m) (st_stamp (ag_stamper (watched_stage s)) (cm_stored_sha256 m))
      (\<lambda>_. cleared sl rid m)"
    unfolding watched_stage_defs by (simp, rule hoare_logged_trace) (auto intro: cleared_Cons)
  show ?thesis
    unfolding obtain_proof_def Let_def
    by (rule hoare_option, rule hoare_bnd [OF stamp], rule stored, rule stored)
qed

lemma safe_anchor_new:
  "hoare (on_trace (\<lambda>tr. stage_safe lib sl rid tr \<and> cleared sl rid m tr)) (anchor_new lib sl (watched_stage s) rid m)
     (\<lambda>_. on_trace (stage_safe lib sl rid)) (\<lambda>_. on_trace (stage_safe lib sl rid))"
proof -
  let ?sha = "cm_stored_sha256 m" and ?path = "manifest_path rid"
  let ?files = "[(?path, anchor_manifest sl rid ?sha (cm_committed_at m))]"
  let ?bound = "\<lambda>pf. \<exists>st. check_binding lib pf ?sha = Inr st"
  let ?sent = "\<lambda>pf commits tr. cleared sl rid m tr \<and> ?bound pf \<and> SGit ?files \<in> set tr \<and> SCommits commits \<in> set tr"
  have git: "safe_triple lib sl rid (\<lambda>tr. cleared sl rid m tr \<and> ?bound pf) (ga_anchor (ag_git (watched_stage s)) ?files)
      (\<lambda>commits tr. ?sent pf commits tr)" for pf
    unfolding watched_stage_defs by (simp, rule hoare_logged_trace) (auto intro!: cleared_Cons)
  have reach: "safe_triple lib sl rid (?sent pf commits) (ga_is_reachable (ag_git (watched_stage s)) c)
      (\<lambda>b tr. ?sent pf commits tr \<and> SReach c b \<in> set tr)" for pf commits c
    unfolding watched_stage_defs by (simp, rule hoare_logged_trace) (auto intro!: cleared_Cons)
  have clock: "safe_triple lib sl rid P (ag_clock (watched_stage s)) (\<lambda>_. P)" for P
    unfolding watched_stage_defs by (simp, rule hoare_unlogged_trace) auto
  have mark: "safe_triple lib sl rid (\<lambda>tr. ?sent pf commits tr \<and> map_of commits ?path = Some c \<and> SReach c True \<in> set tr)
      (as_mark_anchored (ag_store (watched_stage s))
         \<lparr>ca_run_id = rid, ca_sha256 = ?sha, ca_ots_proof = Some pf, ca_git_commit = Some c,
          ca_anchored_at = now, ca_verified_at = None\<rparr>) (\<lambda>_ _. True)" for pf commits c now
    unfolding watched_stage_defs by (simp, rule hoare_logged_trace) (auto simp: entitled_def)
  have closed: "hoare (on_trace (\<lambda>tr. stage_safe lib sl rid tr \<and> True)) (ret x) (\<lambda>_. on_trace (stage_safe lib sl rid))
      (\<lambda>_. on_trace (stage_safe lib sl rid))" for x
    by (rule hoare_ret) simp
  have last: "hoare (on_trace (\<lambda>tr. stage_safe lib sl rid tr \<and> ?sent pf commits tr \<and> SReach c b \<in> set tr))
      (if \<not> b then throw AnchorBindingError
       else bnd (ag_clock (watched_stage s)) (\<lambda>now.
            bnd (as_mark_anchored (ag_store (watched_stage s))
                   \<lparr>ca_run_id = rid, ca_sha256 = ?sha, ca_ots_proof = Some pf, ca_git_commit = Some c,
                    ca_anchored_at = now, ca_verified_at = None\<rparr>)
              (\<lambda>advanced. ret (f advanced))))
      (\<lambda>_. on_trace (stage_safe lib sl rid)) (\<lambda>_. on_trace (stage_safe lib sl rid))"
    if "map_of commits ?path = Some c" for pf commits c b and f :: "bool \<Rightarrow> anchor_result"
    by (rule hoare_if, rule hoare_throw, simp add: on_trace_def, rule hoare_bnd [OF clock], rule hoare_bnd [OF hoare_pre [OF mark]])
      (use that closed in \<open>auto simp: on_trace_def\<close>)
  show ?thesis
    unfolding anchor_new_def Let_def
    by (rule hoare_bnd [OF safe_obtain_proof], rule hoare_bnd [OF git], rule hoare_option, rule hoare_throw,
        simp add: on_trace_def, rule hoare_bnd [OF reach], rule last)
qed

lemma safe_anchor_run:
  "hoare (on_trace (stage_safe lib sl rid)) (anchor_run lib sl (watched_stage s) rid)
     (\<lambda>_. on_trace (stage_safe lib sl rid)) (\<lambda>_. on_trace (stage_safe lib sl rid))"
  unfolding anchor_run_def
proof (rule hoare_bnd)
  show "hoare (on_trace (stage_safe lib sl rid)) (as_load_run (ag_store (watched_stage s)) rid)
      (\<lambda>found. on_trace (\<lambda>tr. stage_safe lib sl rid tr \<and> SLoadRun rid found \<in> set tr)) (\<lambda>_. on_trace (stage_safe lib sl rid))"
    unfolding watched_stage_defs by (simp, rule hoare_logged_trace) auto
next
  fix found
  have fin: "hoare (on_trace (\<lambda>tr. stage_safe lib sl rid tr \<and> P tr)) (throw e) Q (\<lambda>_. on_trace (stage_safe lib sl rid))"
    "hoare (on_trace (\<lambda>tr. stage_safe lib sl rid tr \<and> P tr)) (ret x) (\<lambda>_. on_trace (stage_safe lib sl rid)) E"
    for P e x and Q :: "anchor_result \<Rightarrow> _" and E
    by (auto intro!: hoare_throw hoare_ret simp: on_trace_def)
  show "hoare (on_trace (\<lambda>tr. stage_safe lib sl rid tr \<and> SLoadRun rid found \<in> set tr))
      (case found of None \<Rightarrow> throw AnchorNotEligibleError
       | Some run \<Rightarrow> bnd (verified sl (watched_stage s) run) (\<lambda>m.
           if rr_status run \<in> set ANCHORED_OR_LATER then
             (case cm_anchor m of None \<Rightarrow> throw (AnchorIntegrity CommitmentIntegrityError)
              | Some a \<Rightarrow> (case (ca_ots_proof a, ca_git_commit a) of
                   (Some prf, Some commit) \<Rightarrow>
                     (case check_binding lib prf (cm_stored_sha256 m) of Inl e \<Rightarrow> throw e
                      | Inr _ \<Rightarrow> ret \<lparr>an_run_id = rid, an_status = rr_status run, an_advanced = False,
                                     an_git_commit = Some commit\<rparr>)
                 | _ \<Rightarrow> throw (AnchorIntegrity CommitmentIntegrityError)))
           else if rr_status run \<noteq> COMMITTED then throw AnchorNotEligibleError
           else anchor_new lib sl (watched_stage s) rid m))
      (\<lambda>_. on_trace (stage_safe lib sl rid)) (\<lambda>_. on_trace (stage_safe lib sl rid))"
  proof (cases found)
    case (Some run)
    show ?thesis
      unfolding Some option.case
    proof (rule hoare_bnd [OF safe_verified], rule hoare_if)
      fix m
      show "hoare (on_trace (\<lambda>tr. stage_safe lib sl rid tr \<and> SLoadRun rid (Some run) \<in> set tr \<and>
            SMaterial (rr_run_id run) (Some m) \<in> set tr \<and> verify_material sl m = Inr (cm_stored_sha256 m)))
          (if rr_status run \<noteq> COMMITTED then throw AnchorNotEligibleError
           else anchor_new lib sl (watched_stage s) rid m)
          (\<lambda>_. on_trace (stage_safe lib sl rid)) (\<lambda>_. on_trace (stage_safe lib sl rid))"
        by (rule hoare_if, rule fin, rule hoare_pre [OF safe_anchor_new]) (auto simp: on_trace_def cleared_def)
    qed (auto intro!: fin split: option.split sum.split)
  qed (simp add: fin)
qed

section \<open>Watching the upgrader\<close>

text \<open>What the upgrader may store: a listed anchor, its identity kept, its proof bound and, if dated, verified.\<close>

definition upgrade_entitled ::
  "('f, 'n, 'g, 'h) ots \<Rightarrow> ('w, 'h) upgrader \<Rightarrow> commitment_anchor \<Rightarrow> stage_call list \<Rightarrow> bool" where
  "upgrade_entitled lib u b tr \<longleftrightarrow>
     (\<exists>as a prf st. SAwaiting as \<in> set tr \<and> a \<in> set as \<and> ca_run_id b = ca_run_id a \<and> ca_sha256 b = ca_sha256 a \<and>
        ca_anchored_at b = ca_anchored_at a \<and> ca_git_commit b = None \<and> ca_ots_proof b = Some prf \<and>
        check_binding lib prf (ca_sha256 b) = Inr st \<and>
        (ca_verified_at b \<noteq> None \<longrightarrow>
           (\<exists>header c h. up_header u = Some header \<and> serves header (bc_height c) h \<and> attests lib prf (ca_sha256 b) h c)))"

fun upgrade_safe :: "('f, 'n, 'g, 'h) ots \<Rightarrow> ('w, 'h) upgrader \<Rightarrow> stage_call list \<Rightarrow> bool" where
  "upgrade_safe lib u [] = True"
| "upgrade_safe lib u (c # tr) =
     ((case c of SRecord b \<Rightarrow> upgrade_entitled lib u b tr | _ \<Rightarrow> True) \<and> upgrade_safe lib u tr)"

lemma upgrade_safe_split:
  "upgrade_safe lib u (later @ c # earlier) \<Longrightarrow> upgrade_safe lib u (c # earlier)"
  by (induction later) auto

lemma keeps_upgrade: "keeps (on_trace P) (upgrade lib (st_fetch (watched_stamper st)) f)"
proof -
  have "keeps (on_trace P) (upgrade_attestation lib (st_fetch (watched_stamper st)) n att x)" for n att x
    unfolding upgrade_attestation_def watched_stamper_def Let_def
    by (auto intro!: keeps_bnd keeps_unlogged split: prod.split attestation.split option.split sum.split)
  then show ?thesis
    unfolding upgrade_def upgrade_node_def by (auto intro!: keeps_fold split: option.split)
qed

lemma serves_unlogged:
  fixes f :: "int \<Rightarrow> ('w, anchor_exn, 'h) eff"
  assumes "serves (\<lambda>h. unlogged (f h) :: ('w \<times> 'c list, anchor_exn, 'h) eff) height x"
  shows "serves f height x"
proof -
  from assms obtain s s' :: "'w \<times> 'c list" where "unlogged (f height) s = (Inr x, s')" unfolding serves_def by blast
  moreover obtain w tr where "s = (w, tr)" by (cases s)
  ultimately have "unlogged (f height) (w, tr) = (Inr x, s')" by simp
  then show "serves f height x"
    by (cases "f height w") (auto simp: serves_def unlogged_def)
qed

lemma keeps_confirm: "keeps (on_trace P) (confirm_bitcoin lib prf sha (\<lambda>h. unlogged (f h)))"
proof -
  have "keeps (on_trace P) (confirm_step lib (\<lambda>h. unlogged (f h)) a best)" for a best
    unfolding confirm_step_def Let_def
    by (auto intro!: keeps_catch keeps_bnd keeps_unlogged split: prod.split attestation.split option.split)
  then show ?thesis
    unfolding confirm_bitcoin_def by (auto intro!: keeps_fold keeps_bnd split: option.split sum.split)
qed

text \<open>What \<open>verify_upgraded\<close> has established when it returns.\<close>

definition upgrade_proved ::
  "('f, 'n, 'g, 'h) ots \<Rightarrow> ('w, 'h) upgrader \<Rightarrow> string \<Rightarrow> string \<Rightarrow> instant option \<Rightarrow> bool" where
  "upgrade_proved lib u sha prf dated \<longleftrightarrow>
     (\<exists>st. check_binding lib prf sha = Inr st) \<and>
     (dated \<noteq> None \<longrightarrow>
        (\<exists>header c h. up_header u = Some header \<and> serves header (bc_height c) h \<and> attests lib prf sha h c))"

lemma confirm_triple:
  "hoare (on_trace P) (confirm_bitcoin lib prf sha (\<lambda>h. unlogged (f h)))
     (\<lambda>_. on_trace (\<lambda>tr. P tr \<and> (\<exists>c h. serves f (bc_height c) h \<and> attests lib prf sha h c))) (\<lambda>_. on_trace P)"
proof (rule hoareI)
  fix s b s'
  assume "on_trace P s" and run: "confirm_bitcoin lib prf sha (\<lambda>h. unlogged (f h)) s = (Inr b, s')"
  then have "on_trace P s'" using keepsE [OF keeps_confirm] by blast
  then show "on_trace (\<lambda>tr. P tr \<and> (\<exists>c h. serves f (bc_height c) h \<and> attests lib prf sha h c)) s'"
    using confirm_bitcoin_attests [OF run] serves_unlogged [of f] unfolding on_trace_def by blast
next
  fix s e s'
  assume "on_trace P s" "confirm_bitcoin lib prf sha (\<lambda>h. unlogged (f h)) s = (Inl e, s')"
  then show "on_trace P s'" using keepsE [OF keeps_confirm] by blast
qed

lemma verify_triple:
  "hoare (on_trace P) (verify_upgraded lib (watched_upgrader u) old sha)
     (\<lambda>(changed, prf, dated). on_trace (\<lambda>tr. P tr \<and> upgrade_proved lib u sha prf dated)) (\<lambda>_. on_trace P)"
proof -
  have up: "hoare (on_trace P) (upgrade lib (st_fetch (up_stamper (watched_upgrader u))) f)
      (\<lambda>_. on_trace P) (\<lambda>_. on_trace P)" for f
    by (rule hoare_keeps) (simp add: watched_upgrader_def keeps_upgrade)
  have clock: "hoare (on_trace (\<lambda>tr. P tr \<and> c)) (up_clock (watched_upgrader u))
      (\<lambda>_. on_trace (\<lambda>tr. P tr \<and> c)) (\<lambda>_. on_trace P)" for c
    by (rule hoare_weaken [OF hoare_keeps [of "on_trace (\<lambda>tr. P tr \<and> c)"]])
      (auto simp: watched_upgrader_def keeps_unlogged on_trace_def)
  have tail: "hoare (on_trace P)
      (case up_header (watched_upgrader u) of
         Some header \<Rightarrow> if pst_confirmed st then bnd (confirm_bitcoin lib pf sha header) (\<lambda>_.
             bnd (up_clock (watched_upgrader u)) (\<lambda>now. ret (changed, pf, Some now))) else ret (changed, pf, None)
       | None \<Rightarrow> ret (changed, pf, None))
      (\<lambda>(changed, prf, dated). on_trace (\<lambda>tr. P tr \<and> upgrade_proved lib u sha prf dated)) (\<lambda>_. on_trace P)"
    if bound: "check_binding lib pf sha = Inr st" for pf st changed
  proof (cases "up_header u")
    case None
    then show ?thesis by (simp add: watched_upgrader_def, intro hoare_ret) (simp add: on_trace_def upgrade_proved_def bound)
  next
    case (Some f)
    then have f: "up_header (watched_upgrader u) = Some (\<lambda>h. unlogged (f h))" by (simp add: watched_upgrader_def)
    show ?thesis
      unfolding f option.case
      by (rule hoare_if, rule hoare_bnd [OF confirm_triple], rule hoare_bnd [OF clock], rule hoare_ret, simp_all)
        (use Some bound in \<open>auto intro!: hoare_ret simp: on_trace_def upgrade_proved_def\<close>)
  qed
  show ?thesis
    unfolding verify_upgraded_def Let_def
    by (rule hoare_sum, rule hoare_throw, assumption, rule hoare_bnd [OF up], rule hoare_pair, rule hoare_sum,
        rule hoare_throw, assumption, rule tail)
qed

lemma upgrade_one_triple:
  assumes "a \<in> set as"
  shows "hoare (on_trace (\<lambda>tr. upgrade_safe lib u tr \<and> SAwaiting as \<in> set tr)) (upgrade_one lib (watched_upgrader u) a sm)
    (\<lambda>_. on_trace (\<lambda>tr. upgrade_safe lib u tr \<and> SAwaiting as \<in> set tr))
    (\<lambda>_. on_trace (\<lambda>tr. upgrade_safe lib u tr \<and> SAwaiting as \<in> set tr))"
proof -
  let ?I = "\<lambda>tr. upgrade_safe lib u tr \<and> SAwaiting as \<in> set tr"
  let ?proved = "\<lambda>x tr. ?I tr \<and> (case x of None \<Rightarrow> True | Some (changed, pf, dated) \<Rightarrow> upgrade_proved lib u (ca_sha256 a) pf dated)"
  have verified: "hoare (on_trace ?I)
      (catch (bnd (verify_upgraded lib (watched_upgrader u) old (ca_sha256 a)) (\<lambda>x. ret (Some x)))
         (\<lambda>e. if e = AnchorBindingError then ret None else throw e))
      (\<lambda>x. on_trace (?proved x)) (\<lambda>_. on_trace ?I)" for old
    by (rule hoare_catch [where F = "\<lambda>_. on_trace ?I"], rule hoare_bnd [OF verify_triple])
      (auto intro!: hoare_ret hoare_if hoare_throw simp: on_trace_def)
  have store: "hoare (on_trace (\<lambda>tr. ?I tr \<and> upgrade_proved lib u (ca_sha256 a) pf dated))
      (as_record_anchor (up_store (watched_upgrader u))
         \<lparr>ca_run_id = ca_run_id a, ca_sha256 = ca_sha256 a, ca_ots_proof = Some pf, ca_git_commit = None,
          ca_anchored_at = ca_anchored_at a, ca_verified_at = dated\<rparr>)
      (\<lambda>_. on_trace ?I) (\<lambda>_. on_trace ?I)" for pf dated
    unfolding watched_upgrader_def watched_store_def
    by (simp, rule hoare_logged_trace) (use assms in \<open>auto simp: upgrade_entitled_def upgrade_proved_def\<close>)
  have step: "hoare (on_trace (?proved x))
      (case x of None \<Rightarrow> ret y
       | Some (changed, pf, dated) \<Rightarrow>
           if changed \<or> dated \<noteq> None then
             bnd (as_record_anchor (up_store (watched_upgrader u))
                    \<lparr>ca_run_id = ca_run_id a, ca_sha256 = ca_sha256 a, ca_ots_proof = Some pf, ca_git_commit = None,
                     ca_anchored_at = ca_anchored_at a, ca_verified_at = dated\<rparr>)
               (\<lambda>_. ret (g changed dated))
           else ret z)
      (\<lambda>_. on_trace ?I) (\<lambda>_. on_trace ?I)" for x y z and g :: "bool \<Rightarrow> instant option \<Rightarrow> upgrade_summary"
  proof (cases x)
    case (Some t)
    obtain changed pf dated where "t = (changed, pf, dated)" by (cases t)
    then show ?thesis
      unfolding Some by (simp only: option.case prod.case, intro hoare_if hoare_bnd [OF store] hoare_ret)
        (simp_all add: on_trace_def)
  qed (auto intro: hoare_ret)
  show ?thesis
    unfolding upgrade_one_def Let_def
    by (rule hoare_option, rule hoare_ret, assumption, rule hoare_bnd [OF verified], rule step)
qed

lemma upgrade_all_triple:
  "hoare (on_trace (upgrade_safe lib u)) (upgrade_all lib (watched_upgrader u))
     (\<lambda>_. on_trace (upgrade_safe lib u)) (\<lambda>_. on_trace (upgrade_safe lib u))"
  unfolding upgrade_all_def
proof (rule hoare_bnd)
  show "hoare (on_trace (upgrade_safe lib u)) (as_awaiting (up_store (watched_upgrader u)))
      (\<lambda>as. on_trace (\<lambda>tr. upgrade_safe lib u tr \<and> SAwaiting as \<in> set tr)) (\<lambda>_. on_trace (upgrade_safe lib u))"
    unfolding watched_upgrader_def watched_store_def by (simp, rule hoare_logged_trace) auto
  fix as
  show "hoare (on_trace (\<lambda>tr. upgrade_safe lib u tr \<and> SAwaiting as \<in> set tr))
      (fold_eff (upgrade_one lib (watched_upgrader u)) as \<lparr>us_checked = 0, us_upgraded = 0, us_confirmed = 0, us_failed = 0\<rparr>)
      (\<lambda>_. on_trace (upgrade_safe lib u)) (\<lambda>_. on_trace (upgrade_safe lib u))"
    by (rule hoare_weaken [OF hoare_fold [where I = "\<lambda>_. on_trace (\<lambda>tr. upgrade_safe lib u tr \<and> SAwaiting as \<in> set tr)"]],
        rule upgrade_one_triple) (auto simp: on_trace_def)
qed

section \<open>A concrete stage\<close>

definition demo_hash :: string where
  "demo_hash = replicate 64 CHR ''a''"

definition demo_digest :: string where
  "demo_digest = replicate 32 (char_of (170 :: nat))"

definition demo_std :: stdlib where
  "demo_std = demo_lib\<lparr>sl_sha256 := (\<lambda>_. demo_hash)\<rparr>"

text \<open>A library whose every file binds the demonstration digest with one Bitcoin attestation.\<close>

definition demo_ots :: "(unit, unit, unit, unit) ots" where
  "demo_ots = \<lparr>ots_deserialize = (\<lambda>_. Some ()), ots_serialize = (\<lambda>_. ''p''), ots_uses_sha256 = (\<lambda>_. True),
     ots_file_digest = (\<lambda>_. demo_digest), ots_root = (\<lambda>_. ()), ots_msg = (\<lambda>_ _. demo_digest),
     ots_children = (\<lambda>_ _. []), ots_node_attestations = (\<lambda>_ _. [BitcoinBlockHeaderAttestation 7]),
     ots_all_attestations = (\<lambda>_. [(demo_digest, BitcoinBlockHeaderAttestation 7)]),
     ots_fragment = (\<lambda>_ _. None), ots_fragment_attestations = (\<lambda>_. []), ots_merge = (\<lambda>_ _ f. f),
     ots_discard = (\<lambda>_ _ f. f), ots_verify_header = (\<lambda>_ _ _. Some 100), ots_detached = (\<lambda>_. ()),
     ots_append = (\<lambda>_ _ f. (f, ())), ots_hash = (\<lambda>_ f. (f, ()))\<rparr>"

lemma demo_ots_simps [simp]:
  "ots_deserialize demo_ots x = Some ()" "ots_uses_sha256 demo_ots f = True" "ots_file_digest demo_ots f = demo_digest"
  "ots_msg demo_ots f n = demo_digest" "ots_children demo_ots f n = []"
  "ots_node_attestations demo_ots f n = [BitcoinBlockHeaderAttestation 7]"
  "ots_all_attestations demo_ots f = [(demo_digest, BitcoinBlockHeaderAttestation 7)]"
  "ots_verify_header demo_ots i msg h = Some 100"
  by (simp_all add: demo_ots_def)

definition demo_material :: commitment_material where
  "demo_material = \<lparr>cm_run = demo_run COMMITTED, cm_decisions = [], cm_snapshot = demo_snapshot,
     cm_stored_sha256 = demo_hash, cm_committed_at = 5, cm_anchor = None\<rparr>"

definition demo_anchor :: commitment_anchor where
  "demo_anchor = \<lparr>ca_run_id = ''r'', ca_sha256 = demo_hash, ca_ots_proof = Some ''p'', ca_git_commit = Some demo_commit,
     ca_anchored_at = 8, ca_verified_at = None\<rparr>"

definition demo_store :: "unit anchor_store" where
  "demo_store = \<lparr>as_load_run = (\<lambda>_. ret (Some (demo_run COMMITTED))), as_load_material = (\<lambda>_. ret (Some demo_material)),
     as_mark_anchored = (\<lambda>_. ret True), as_record_dlq = (\<lambda>_. ret ()), as_awaiting = ret [demo_anchor],
     as_record_anchor = (\<lambda>_. ret ())\<rparr>"

definition demo_stage :: "unit anchor_stage" where
  "demo_stage = \<lparr>ag_store = demo_store, ag_stamper = \<lparr>st_stamp = (\<lambda>_. ret ''p''), st_fetch = (\<lambda>_ _. ret None)\<rparr>,
     ag_git = \<lparr>ga_anchor = (\<lambda>fs. ret (map (\<lambda>(p, _). (p, demo_commit)) fs)), ga_is_reachable = (\<lambda>_. ret True)\<rparr>,
     ag_clock = ret 8, ag_message = (\<lambda>_. [])\<rparr>"

definition demo_upgrader :: "(unit, unit) upgrader" where
  "demo_upgrader = \<lparr>up_store = demo_store, up_stamper = ag_stamper demo_stage,
     up_header = Some (\<lambda>_. ret ()), up_clock = ret 9\<rparr>"

lemma fromhex_as: "fromhex (replicate (2 * n) CHR ''a'') = Some (replicate n (char_of (170 :: nat)))"
  by (induction n) (simp_all add: ascii_space_def hex_value_def Let_def)

lemma fromhex_demo_hash: "fromhex demo_hash = Some demo_digest"
  using fromhex_as [of 32] by (simp add: demo_hash_def demo_digest_def)

lemma demo_binding: "check_binding demo_ots ''p'' demo_hash = Inr \<lparr>pst_pending = [], pst_bitcoin_heights = [7]\<rparr>"
  by (simp add: check_binding_def loads_def MAX_PROOF_BYTES_def fromhex_demo_hash pending_uris_def
      bitcoin_heights_def)

lemma demo_verified: "verify_material demo_std demo_material = Inr demo_hash"
  by (simp add: verify_material_def verify_commitment_def commitment_hash_eq demo_material_def demo_std_def
      fits_def demo_snapshot_def demo_run_def)

lemma logged_ret: "logged pre post (ret x) (w, tr) = (Inr x, (w, post x @ pre w @ tr))"
  by (simp add: logged_def)

lemma unlogged_ret: "unlogged (ret x) (w, tr) = (Inr x, (w, tr))"
  by (simp add: unlogged_def)

abbreviation demo_files :: "(string \<times> string) list" where
  "demo_files \<equiv> [(manifest_path ''r'', anchor_manifest demo_std ''r'' demo_hash 5)]"

abbreviation demo_before :: "stage_call list" where
  "demo_before \<equiv>
     [SReach demo_commit True, SCommits [(manifest_path ''r'', demo_commit)], SGit demo_files, SStamp demo_hash,
      SMaterial ''r'' (Some demo_material), SLoadRun ''r'' (Some (demo_run COMMITTED))]"

lemma demo_anchor_run:
  "anchor_run demo_ots demo_std (watched_stage demo_stage) ''r'' ((), []) =
     (Inr \<lparr>an_run_id = ''r'', an_status = ANCHORED, an_advanced = True, an_git_commit = Some demo_commit\<rparr>,
      ((), SMark demo_anchor # demo_before))"
proof -
  have m: "cm_stored_sha256 demo_material = demo_hash" "cm_committed_at demo_material = 5" "cm_anchor demo_material = None"
    and st: "rr_status (demo_run COMMITTED) = COMMITTED" "rr_run_id (demo_run COMMITTED) = ''r''"
    by (simp_all add: demo_material_def demo_run_def)
  show ?thesis
    by (simp add: anchor_run_def verified_def anchor_new_def obtain_proof_def watched_stage_defs demo_stage_def demo_store_def
        bnd_def catch_def logged_ret unlogged_ret m st demo_verified demo_binding ANCHORED_OR_LATER_def demo_anchor_def Let_def)
qed

lemma demo_upgrade_all:
  "upgrade_all demo_ots (watched_upgrader demo_upgrader) ((), []) =
     (Inr \<lparr>us_checked = 1, us_upgraded = 0, us_confirmed = 1, us_failed = 0\<rparr>,
      ((), [SRecord (demo_anchor\<lparr>ca_git_commit := None, ca_verified_at := Some 9\<rparr>), SAwaiting [demo_anchor]]))"
proof -
  have l: "loads demo_ots ''p'' = Inr ()" by (simp add: loads_def MAX_PROOF_BYTES_def)
  have w: "walk demo_ots () [()] = Some [()]" by (simp add: walk.simps)
  have c: "confirm_bitcoin demo_ots ''p'' demo_hash (\<lambda>h. unlogged (ret ())) s =
      (Inr \<lparr>bc_height = 7, bc_block_time = 100\<rparr>, s)" for s :: "unit \<times> stage_call list"
    by (cases s) (simp add: confirm_bitcoin_def demo_binding l confirm_step_def bnd_def catch_def unlogged_ret)
  have u: "upgrade demo_ots f () s = (Inr ((), False), s)" for f and s :: "unit \<times> stage_call list"
    by (simp add: upgrade_def w upgrade_node_def upgrade_attestation_def bnd_def)
  have v: "verify_upgraded demo_ots (watched_upgrader demo_upgrader) ''p'' demo_hash s = (Inr (False, ''p'', Some 9), s)"
    for s
    by (cases s) (simp add: verify_upgraded_def l u bnd_def demo_binding watched_upgrader_def demo_upgrader_def c
        pst_confirmed_def unlogged_ret Let_def)
  have a: "ca_ots_proof demo_anchor = Some ''p''" "ca_sha256 demo_anchor = demo_hash" "ca_run_id demo_anchor = ''r''"
    "ca_anchored_at demo_anchor = 8"
    by (simp_all add: demo_anchor_def)
  have st: "up_store (watched_upgrader demo_upgrader) = watched_store demo_store"
    by (simp add: watched_upgrader_def demo_upgrader_def)
  show ?thesis
    by (simp add: upgrade_all_def upgrade_one_def Let_def st watched_store_def demo_store_def a v bnd_def catch_def logged_ret)
qed

section \<open>Properties\<close>

text \<open>
  C23: no external effect without a verified commitment. Whatever the store, the calendars and git
  answer, a digest is stamped or a manifest handed to git only after the run was read as COMMITTED and
  its material recomputed to the stored digest; and the run is marked anchored only with a proof that
  binds that digest and a commit that git returned for the manifest of that digest and reported
  reachable.
\<close>

theorem anchor_run_needs_evidence:
  assumes "anchor_run lib sl (watched_stage s) rid (w, []) = (r, (w', later @ c # earlier))"
  shows "(\<forall>sha. c = SStamp sha \<longrightarrow> (\<exists>m. cleared sl rid m earlier \<and> sha = cm_stored_sha256 m)) \<and>
    (\<forall>fs. c = SGit fs \<longrightarrow> (\<exists>m. cleared sl rid m earlier)) \<and>
    (\<forall>a. c = SMark a \<longrightarrow> entitled lib sl rid a earlier)"
proof -
  have "stage_safe lib sl rid (later @ c # earlier)"
    using hoare_InrD [OF safe_anchor_run, of lib sl rid "(w, [])" s] hoare_InlD [OF safe_anchor_run, of lib sl rid "(w, [])" s]
      assms by (cases r) fastforce+
  then have "stage_safe lib sl rid (c # earlier)" by (rule stage_safe_split)
  then show ?thesis by auto
qed

theorem anchor_run_needs_evidence_witness: "entitled demo_ots demo_std ''r'' demo_anchor demo_before"
  using anchor_run_needs_evidence [of demo_ots demo_std demo_stage "''r''" "()" _ "()" "[]" "SMark demo_anchor" demo_before]
    demo_anchor_run by simp

text \<open>
  C24: an upgraded proof is stored only if it still binds. Every anchor the upgrader writes back is one
  the store listed, with its run, digest and anchoring time, and a proof that binds the digest; it is
  dated as verified only when a header the source served verifies a Bitcoin attestation of that proof.
\<close>

theorem upgrade_all_stores_verified:
  assumes "upgrade_all lib (watched_upgrader u) (w, []) = (r, (w', later @ SRecord b # earlier))"
  shows "upgrade_entitled lib u b earlier"
proof -
  have "upgrade_safe lib u (later @ SRecord b # earlier)"
    using hoare_InrD [OF upgrade_all_triple, of lib u "(w, [])"] hoare_InlD [OF upgrade_all_triple, of lib u "(w, [])"]
      assms by (cases r) fastforce+
  from upgrade_safe_split [OF this] show ?thesis by simp
qed

theorem upgrade_all_stores_verified_witness:
  "upgrade_entitled demo_ots demo_upgrader (demo_anchor\<lparr>ca_git_commit := None, ca_verified_at := Some 9\<rparr>)
     [SAwaiting [demo_anchor]]"
  using upgrade_all_stores_verified [of demo_ots demo_upgrader "()" _ "()" "[]"] demo_upgrade_all by simp

end
