(* ===== verification/Scorable.thy ===== *)
theory Scorable
  imports Sink Anchor_Stage
begin

text \<open>
  The scorability gate: \<open>evaluation/scorable.py\<close>, and the read of its evidence in
  \<open>store/scoring_read.py\<close>. A run is admitted for scoring only by recomputing everything; refusals
  have one order of precedence.
\<close>

section \<open>The evidence\<close>

record scoring_evidence =
  se_run :: "run_record option"
  se_commitment :: "decision_commitment option"
  se_decisions :: "committee_decision_record list"
  se_snapshot :: "portfolio_snapshot option"
  se_anchor :: "commitment_anchor option"
  se_events :: "kill_switch_event list"
  se_defects :: "defect_kind list"

definition no_evidence :: scoring_evidence where
  "no_evidence = \<lparr>se_run = None, se_commitment = None, se_decisions = [], se_snapshot = None, se_anchor = None,
     se_events = [], se_defects = []\<rparr>"

text \<open>A connection: its transaction settings and the database as the transaction sees it.\<close>

record connection =
  cn_isolation :: string
  cn_read_only :: string
  cn_db :: db

definition snapshot_isolation :: "connection \<Rightarrow> bool" where
  "snapshot_isolation c \<longleftrightarrow> cn_isolation c = ''repeatable read'' \<and> cn_read_only c = ''on''"

definition defect_of :: "integrity_error \<Rightarrow> defect_kind option" where
  "defect_of e = (case e of MaterialDefectError k \<Rightarrow> Some k | CommitmentIntegrityError \<Rightarrow> None)"

definition gather_evidence :: "db \<Rightarrow> uuid \<Rightarrow> scoring_evidence" where
  "gather_evidence d rid =
     (case load_run d rid of
        None \<Rightarrow> no_evidence
      | Some run \<Rightarrow>
          let (decisions, defects) =
                (case decisions_from_rows run (decision_rows d rid) of
                   Inl e \<Rightarrow> ([], case defect_of e of Some k \<Rightarrow> [k] | None \<Rightarrow> [])
                 | Inr ds \<Rightarrow> (ds, []));
              (snapshot, defects2) =
                (case load_snapshot d rid of
                   None \<Rightarrow> (None, [SNAPSHOT_MISSING])
                 | Some s \<Rightarrow> if valid_snapshot s then (Some s, []) else (None, [SNAPSHOT_INVALID]))
          in \<lparr>se_run = Some run, se_commitment = load_commitment d rid, se_decisions = decisions,
              se_snapshot = snapshot, se_anchor = load_anchor d rid,
              se_events = load_kill_switch_events d rid, se_defects = defects @ defects2\<rparr>)"

definition load_scoring_evidence :: "connection \<Rightarrow> uuid \<Rightarrow> scoring_evidence option" where
  "load_scoring_evidence c rid =
     (if snapshot_isolation c then Some (gather_evidence (cn_db c) rid) else None)"

text \<open>\<open>ScoringReader.load\<close> opens the transaction itself.\<close>

definition scoring_reader_load :: "db \<Rightarrow> uuid \<Rightarrow> scoring_evidence option" where
  "scoring_reader_load d rid =
     load_scoring_evidence \<lparr>cn_isolation = ''repeatable read'', cn_read_only = ''on'', cn_db = d\<rparr> rid"

section \<open>The gate\<close>

datatype completeness = COMPLETE | HALTED | MISSING

datatype refusal_reason =
    RUN_MISSING | NO_COMMITMENT | NOT_SCORABLE_STATUS | HALT_EVIDENCE_MISSING | MATERIAL_INCOMPLETE
  | COMMITMENT_MISMATCH | ANCHOR_MISSING | ANCHOR_INVALID | OTS_NOT_CONFIRMED | HEADER_VERIFICATION_FAILED
  | GIT_UNREACHABLE | ANCHOR_TIMING | EVIDENCE_UNAVAILABLE

datatype score_exn =
    ScoringRefused refusal_reason "completeness option"
  | ScoreValueError
  | ScoreExternal anchor_exn

definition retryable :: "score_exn \<Rightarrow> bool" where
  "retryable e \<longleftrightarrow> (case e of ScoringRefused r _ \<Rightarrow> r = EVIDENCE_UNAVAILABLE | _ \<Rightarrow> False)"

text \<open>
  \<open>earliest_resolution_at\<close> may be absent, or a naive datetime, which is the inner \<open>None\<close>; the same
  holds for the clock.
\<close>

record scoring_request =
  sq_run_id :: uuid
  sq_earliest :: "instant option option"

record scoring_ticket =
  tk_run_id :: uuid
  tk_mode :: run_mode
  tk_completeness :: completeness
  tk_commitment_sha256 :: string
  tk_git_commit :: string
  tk_bitcoin_height :: int
  tk_bitcoin_block_time :: instant
  tk_requested_at :: instant

definition may_become_scored :: "scoring_ticket \<Rightarrow> bool" where
  "may_become_scored t \<longleftrightarrow> tk_completeness t = COMPLETE"

fun COMPLETE_STATUSES :: "run_mode \<Rightarrow> run_status list" where
  "COMPLETE_STATUSES LIVE = [EXECUTED, SCORED]"
| "COMPLETE_STATUSES BACKTEST = [ANCHORED, SCORED]"
| "COMPLETE_STATUSES ABLATION = [ANCHORED, SCORED]"

definition classify :: "run_record \<Rightarrow> kill_switch_event list \<Rightarrow> score_exn + completeness" where
  "classify run events =
     (if rr_status run \<in> set (COMPLETE_STATUSES (rr_mode run)) then Inr COMPLETE
      else if run_halted run then
        (if events = [] then Inl (ScoringRefused HALT_EVIDENCE_MISSING (Some MISSING)) else Inr HALTED)
      else Inl (ScoringRefused NOT_SCORABLE_STATUS (Some MISSING)))"

definition utc :: "int \<Rightarrow> instant" where
  "utc seconds = seconds * 1000000"

text \<open>The checks on what was read, in the order of the code: the material, the hash, the anchor.\<close>

definition judge_stored :: "stdlib \<Rightarrow> scoring_evidence \<Rightarrow>
    score_exn + run_record \<times> decision_commitment \<times> completeness \<times> string \<times> commitment_anchor \<times> string \<times> string" where
  "judge_stored sl ev =
     (case se_run ev of
        None \<Rightarrow> Inl (ScoringRefused RUN_MISSING (Some MISSING))
      | Some run \<Rightarrow>
     (case se_commitment ev of
        None \<Rightarrow> Inl (ScoringRefused NO_COMMITMENT (Some MISSING))
      | Some commitment \<Rightarrow>
     bindr (classify run (se_events ev)) (\<lambda>completeness.
     (case se_snapshot ev of
        None \<Rightarrow> Inl (ScoringRefused MATERIAL_INCOMPLETE None)
      | Some snapshot \<Rightarrow>
     if se_defects ev \<noteq> [] then Inl (ScoringRefused MATERIAL_INCOMPLETE None)
     else
     (case verify_commitment sl (dc_sha256 commitment) run (se_decisions ev) snapshot of
        Inl _ \<Rightarrow> Inl (ScoringRefused COMMITMENT_MISMATCH None)
      | Inr digest \<Rightarrow>
     (case se_anchor ev of
        None \<Rightarrow> Inl (ScoringRefused ANCHOR_MISSING None)
      | Some anchor \<Rightarrow>
     (case (ca_ots_proof anchor, ca_git_commit anchor) of
        (Some prf, Some commit) \<Rightarrow>
          if ca_sha256 anchor \<noteq> digest then Inl (ScoringRefused ANCHOR_INVALID None)
          else Inr (run, commitment, completeness, digest, anchor, prf, commit)
      | _ \<Rightarrow> Inl (ScoringRefused ANCHOR_MISSING None))))))))"

definition judge_timing ::
  "run_record \<Rightarrow> decision_commitment \<Rightarrow> commitment_anchor \<Rightarrow> instant option option \<Rightarrow> instant \<Rightarrow> instant
   \<Rightarrow> score_exn + unit" where
  "judge_timing run commitment anchor earliest block_time requested_at =
     (if \<not> (dc_committed_at commitment \<le> ca_anchored_at anchor \<and> ca_anchored_at anchor \<le> requested_at)
      then Inl (ScoringRefused ANCHOR_TIMING None)
      else if requested_at < block_time then Inl (ScoringRefused ANCHOR_TIMING None)
      else if rr_mode run = LIVE then
        (case earliest of
           Some (Some e) \<Rightarrow> if block_time < e then Inr () else Inl (ScoringRefused ANCHOR_TIMING None)
         | _ \<Rightarrow> Inl (ScoringRefused ANCHOR_TIMING None))
      else Inr ())"

text \<open>What the gate is given: the evidence source, the headers, git and the clock.\<close>

record ('w, 'h) probes =
  pr_load :: "uuid \<Rightarrow> ('w, anchor_exn, scoring_evidence) eff"
  pr_header :: "int \<Rightarrow> ('w, anchor_exn, 'h) eff"
  pr_reachable :: "string \<Rightarrow> ('w, anchor_exn, bool) eff"
  pr_clock :: "('w, anchor_exn, instant option) eff"

definition mapped :: "(anchor_exn \<Rightarrow> score_exn) \<Rightarrow> ('w, anchor_exn, 'a) eff \<Rightarrow> ('w, score_exn, 'a) eff" where
  "mapped f m w = (case m w of (Inl e, w') \<Rightarrow> (Inl (f e), w') | (Inr x, w') \<Rightarrow> (Inr x, w'))"

definition unavailable :: "anchor_exn \<Rightarrow> score_exn" where
  "unavailable e = ScoringRefused EVIDENCE_UNAVAILABLE None"

definition admit_run ::
  "('f, 'n, 'g, 'h) ots \<Rightarrow> stdlib \<Rightarrow> ('w, 'h) probes \<Rightarrow> scoring_request \<Rightarrow> ('w, score_exn, scoring_ticket) eff" where
  "admit_run lib sl p req =
     bnd (mapped unavailable (pr_load p (sq_run_id req))) (\<lambda>ev.
       case judge_stored sl ev of
         Inl e \<Rightarrow> throw e
       | Inr (run, commitment, completeness, digest, anchor, prf, commit) \<Rightarrow>
     (case check_binding lib prf digest of
        Inl e \<Rightarrow> throw (if e = AnchorBindingError then ScoringRefused ANCHOR_INVALID None else ScoreExternal e)
      | Inr status \<Rightarrow>
     if \<not> pst_confirmed status then throw (ScoringRefused OTS_NOT_CONFIRMED None)
     else
     bnd (mapped (\<lambda>e. if e = AnchorBindingError then ScoringRefused HEADER_VERIFICATION_FAILED None else unavailable e)
            (confirm_bitcoin lib prf digest (pr_header p))) (\<lambda>confirmation.
     bnd (mapped unavailable (pr_reachable p commit)) (\<lambda>reachable.
     if \<not> reachable then throw (ScoringRefused GIT_UNREACHABLE None)
     else
     bnd (mapped ScoreExternal (pr_clock p)) (\<lambda>now.
       case now of
         None \<Rightarrow> throw ScoreValueError
       | Some requested_at \<Rightarrow>
     (case judge_timing run commitment anchor (sq_earliest req) (utc (bc_block_time confirmation)) requested_at of
        Inl e \<Rightarrow> throw e
      | Inr _ \<Rightarrow>
          ret \<lparr>tk_run_id = sq_run_id req, tk_mode = rr_mode run, tk_completeness = completeness,
               tk_commitment_sha256 = digest, tk_git_commit = commit,
               tk_bitcoin_height = bc_height confirmation,
               tk_bitcoin_block_time = utc (bc_block_time confirmation), tk_requested_at = requested_at\<rparr>))))))"

definition run_scoring ::
  "('f, 'n, 'g, 'h) ots \<Rightarrow> stdlib \<Rightarrow> ('w, 'h) probes \<Rightarrow> (scoring_ticket \<Rightarrow> ('w, score_exn, 'a) eff)
   \<Rightarrow> scoring_request \<Rightarrow> ('w, score_exn, 'a) eff" where
  "run_scoring lib sl p load_outcomes req = bnd (admit_run lib sl p req) load_outcomes"

section \<open>Admission\<close>

text \<open>What an admission promises of the evidence it was given.\<close>

definition admissible ::
  "('f, 'n, 'g, 'h) ots \<Rightarrow> stdlib \<Rightarrow> ('w, 'h) probes \<Rightarrow> scoring_request \<Rightarrow> scoring_evidence \<Rightarrow> scoring_ticket \<Rightarrow> bool" where
  "admissible lib sl p req ev t \<longleftrightarrow>
     (\<exists>run com snap a prf h c.
        se_run ev = Some run \<and> se_commitment ev = Some com \<and> se_snapshot ev = Some snap \<and> se_anchor ev = Some a \<and>
        se_defects ev = [] \<and> commitment_hash sl run (se_decisions ev) snap = Inr (dc_sha256 com) \<and>
        tk_run_id t = sq_run_id req \<and> tk_mode t = rr_mode run \<and>
        tk_commitment_sha256 t = dc_sha256 com \<and> ca_sha256 a = dc_sha256 com \<and>
        ca_ots_proof a = Some prf \<and> serves (pr_header p) (tk_bitcoin_height t) h \<and>
        attests lib prf (dc_sha256 com) h \<lparr>bc_height = tk_bitcoin_height t, bc_block_time = c\<rparr> \<and>
        tk_bitcoin_block_time t = utc c \<and>
        ca_git_commit a = Some (tk_git_commit t) \<and> (\<exists>w w'. pr_reachable p (tk_git_commit t) w = (Inr True, w')) \<and>
        dc_committed_at com \<le> ca_anchored_at a \<and> ca_anchored_at a \<le> tk_requested_at t \<and>
        tk_bitcoin_block_time t \<le> tk_requested_at t \<and>
        (rr_mode run = LIVE \<longrightarrow> (\<exists>e. sq_earliest req = Some (Some e) \<and> tk_bitcoin_block_time t < e)) \<and>
        (tk_completeness t = COMPLETE \<and> rr_status run \<in> set (COMPLETE_STATUSES (rr_mode run)) \<or>
         tk_completeness t = HALTED \<and> run_halted run \<and> se_events ev \<noteq> []))"

lemma verify_commitment_InrD:
  "verify_commitment sl stored run ds snap = Inr h \<Longrightarrow> h = stored \<and> commitment_hash sl run ds snap = Inr stored"
  by (auto simp: verify_commitment_def split: sum.splits if_splits)

lemma classify_InrD:
  "classify run events = Inr c \<Longrightarrow>
     c = COMPLETE \<and> rr_status run \<in> set (COMPLETE_STATUSES (rr_mode run)) \<or> c = HALTED \<and> run_halted run \<and> events \<noteq> []"
  by (auto simp: classify_def split: if_splits)

lemma judge_stored_InrD:
  assumes "judge_stored sl ev = Inr (run, com, completeness, digest, a, pf, commit)"
  shows "se_run ev = Some run \<and> se_commitment ev = Some com \<and> se_anchor ev = Some a \<and> se_defects ev = [] \<and>
    classify run (se_events ev) = Inr completeness \<and>
    (\<exists>snap. se_snapshot ev = Some snap \<and> verify_commitment sl (dc_sha256 com) run (se_decisions ev) snap = Inr digest) \<and>
    ca_ots_proof a = Some pf \<and> ca_git_commit a = Some commit \<and> ca_sha256 a = digest"
proof -
  from assms obtain snap where s: "se_run ev = Some run" "se_commitment ev = Some com" "se_snapshot ev = Some snap"
    "classify run (se_events ev) = Inr completeness" "se_defects ev = []"
    "verify_commitment sl (dc_sha256 com) run (se_decisions ev) snap = Inr digest"
    unfolding judge_stored_def
    by (cases "se_run ev"; cases "se_commitment ev"; cases "se_snapshot ev")
      (auto simp: bindr_Inr_iff split: if_splits sum.splits option.splits)
  with assms have "(case se_anchor ev of
        None \<Rightarrow> Inl (ScoringRefused ANCHOR_MISSING None)
      | Some anchor \<Rightarrow>
     (case (ca_ots_proof anchor, ca_git_commit anchor) of
        (Some prf, Some commit) \<Rightarrow>
          if ca_sha256 anchor \<noteq> digest then Inl (ScoringRefused ANCHOR_INVALID None)
          else Inr (run, com, completeness, digest, anchor, prf, commit)
      | _ \<Rightarrow> Inl (ScoringRefused ANCHOR_MISSING None))) = Inr (run, com, completeness, digest, a, pf, commit)"
    by (simp add: judge_stored_def)
  with s show ?thesis by (auto split: option.splits if_splits)
qed

lemma judge_timing_InrD:
  assumes "judge_timing run com a earliest block now = Inr ()"
  shows "dc_committed_at com \<le> ca_anchored_at a \<and> ca_anchored_at a \<le> now \<and> block \<le> now \<and>
    (rr_mode run = LIVE \<longrightarrow> (\<exists>e. earliest = Some (Some e) \<and> block < e))"
  using assms unfolding judge_timing_def by (auto split: if_splits option.splits)

lemma mapped_Inr: "mapped f m w = (Inr x, w') \<longleftrightarrow> m w = (Inr x, w')"
  by (auto simp: mapped_def split: prod.splits sum.splits)

lemma bnd_InrE:
  assumes "bnd m f s = (Inr y, s')"
  obtains x s1 where "m s = (Inr x, s1)" and "f x s1 = (Inr y, s')"
  using assms by (auto simp: bnd_def split: prod.splits sum.splits)

lemma admit_run_sound:
  assumes "admit_run lib sl p req w = (Inr t, w')"
  shows "\<exists>ev w1. pr_load p (sq_run_id req) w = (Inr ev, w1) \<and> admissible lib sl p req ev t"
proof -
  from assms obtain ev w1 where ev: "pr_load p (sq_run_id req) w = (Inr ev, w1)" and
    rest: "(case judge_stored sl ev of
         Inl e \<Rightarrow> throw e
       | Inr (run, commitment, completeness, digest, anchor, prf, commit) \<Rightarrow>
     (case check_binding lib prf digest of
        Inl e \<Rightarrow> throw (if e = AnchorBindingError then ScoringRefused ANCHOR_INVALID None else ScoreExternal e)
      | Inr status \<Rightarrow>
     if \<not> pst_confirmed status then throw (ScoringRefused OTS_NOT_CONFIRMED None)
     else
     bnd (mapped (\<lambda>e. if e = AnchorBindingError then ScoringRefused HEADER_VERIFICATION_FAILED None else unavailable e)
            (confirm_bitcoin lib prf digest (pr_header p))) (\<lambda>confirmation.
     bnd (mapped unavailable (pr_reachable p commit)) (\<lambda>reachable.
     if \<not> reachable then throw (ScoringRefused GIT_UNREACHABLE None)
     else
     bnd (mapped ScoreExternal (pr_clock p)) (\<lambda>now.
       case now of
         None \<Rightarrow> throw ScoreValueError
       | Some requested_at \<Rightarrow>
     (case judge_timing run commitment anchor (sq_earliest req) (utc (bc_block_time confirmation)) requested_at of
        Inl e \<Rightarrow> throw e
      | Inr _ \<Rightarrow>
          ret \<lparr>tk_run_id = sq_run_id req, tk_mode = rr_mode run, tk_completeness = completeness,
               tk_commitment_sha256 = digest, tk_git_commit = commit,
               tk_bitcoin_height = bc_height confirmation,
               tk_bitcoin_block_time = utc (bc_block_time confirmation), tk_requested_at = requested_at\<rparr>)))))) w1 = (Inr t, w')"
    unfolding admit_run_def by (rule bnd_InrE) (simp add: mapped_Inr)
  then obtain run com completeness digest a pf commit where
    j: "judge_stored sl ev = Inr (run, com, completeness, digest, a, pf, commit)"
    by (cases "judge_stored sl ev") (auto simp: split_paired_all)
  note stored = judge_stored_InrD [OF j]
  obtain b w2 w3 w4 now where conf: "confirm_bitcoin lib pf digest (pr_header p) w1 = (Inr b, w2)"
    and reach: "pr_reachable p commit w2 = (Inr True, w3)"
    and time: "judge_timing run com a (sq_earliest req) (utc (bc_block_time b)) now = Inr ()"
    and t: "t = \<lparr>tk_run_id = sq_run_id req, tk_mode = rr_mode run, tk_completeness = completeness,
               tk_commitment_sha256 = digest, tk_git_commit = commit, tk_bitcoin_height = bc_height b,
               tk_bitcoin_block_time = utc (bc_block_time b), tk_requested_at = now\<rparr>"
    using rest unfolding j
    by (auto simp: mapped_Inr elim!: bnd_InrE split: sum.splits if_splits option.splits)
  from confirm_bitcoin_attests [OF conf] obtain h where
    "serves (pr_header p) (bc_height b) h" "attests lib pf digest h b" by blast
  then have "admissible lib sl p req ev t"
    using stored judge_timing_InrD [OF time] reach verify_commitment_InrD classify_InrD
    unfolding admissible_def t by (cases b) fastforce
  with ev show ?thesis by blast
qed

section \<open>Precedence of refusals\<close>

text \<open>The checks on stored evidence as the documentation lists them, each on its own.\<close>

fun passes :: "stdlib \<Rightarrow> scoring_evidence \<Rightarrow> refusal_reason \<Rightarrow> bool" where
  "passes sl ev RUN_MISSING \<longleftrightarrow> se_run ev \<noteq> None"
| "passes sl ev NO_COMMITMENT \<longleftrightarrow> se_commitment ev \<noteq> None"
| "passes sl ev NOT_SCORABLE_STATUS \<longleftrightarrow>
     (case se_run ev of Some run \<Rightarrow> rr_status run \<in> set (COMPLETE_STATUSES (rr_mode run)) \<or> run_halted run | None \<Rightarrow> False)"
| "passes sl ev HALT_EVIDENCE_MISSING \<longleftrightarrow>
     (case se_run ev of Some run \<Rightarrow> run_halted run \<longrightarrow> se_events ev \<noteq> [] | None \<Rightarrow> False)"
| "passes sl ev MATERIAL_INCOMPLETE \<longleftrightarrow> se_snapshot ev \<noteq> None \<and> se_defects ev = []"
| "passes sl ev COMMITMENT_MISMATCH \<longleftrightarrow>
     (case (se_run ev, se_commitment ev, se_snapshot ev) of
        (Some run, Some com, Some snap) \<Rightarrow> commitment_hash sl run (se_decisions ev) snap = Inr (dc_sha256 com)
      | _ \<Rightarrow> False)"
| "passes sl ev ANCHOR_MISSING \<longleftrightarrow>
     (case se_anchor ev of Some a \<Rightarrow> ca_ots_proof a \<noteq> None \<and> ca_git_commit a \<noteq> None | None \<Rightarrow> False)"
| "passes sl ev ANCHOR_INVALID \<longleftrightarrow>
     (case (se_anchor ev, se_commitment ev) of (Some a, Some com) \<Rightarrow> ca_sha256 a = dc_sha256 com | _ \<Rightarrow> False)"
| "passes sl ev _ \<longleftrightarrow> True"

definition PRECEDENCE :: "refusal_reason list" where
  "PRECEDENCE = [RUN_MISSING, NO_COMMITMENT, NOT_SCORABLE_STATUS, HALT_EVIDENCE_MISSING, MATERIAL_INCOMPLETE,
     COMMITMENT_MISMATCH, ANCHOR_MISSING, ANCHOR_INVALID]"

definition first_failure :: "stdlib \<Rightarrow> scoring_evidence \<Rightarrow> refusal_reason option" where
  "first_failure sl ev = find (\<lambda>r. \<not> passes sl ev r) PRECEDENCE"

lemma halted_not_complete: "run_halted run \<Longrightarrow> rr_status run \<notin> set (COMPLETE_STATUSES (rr_mode run))"
  by (cases "rr_mode run") (auto simp: run_halted_def)

lemma verify_commitment_iff:
  "verify_commitment sl stored run ds snap =
     (if commitment_hash sl run ds snap = Inr stored then Inr stored else Inl CommitmentIntegrityError)"
  by (auto simp: verify_commitment_def split: sum.split)

lemma judge_stored_refuses:
  "first_failure sl ev = Some r \<Longrightarrow> \<exists>c. judge_stored sl ev = Inl (ScoringRefused r c)"
  unfolding first_failure_def PRECEDENCE_def
  by (auto simp: judge_stored_def classify_def verify_commitment_iff halted_not_complete split: option.splits if_splits)

lemma judge_stored_accepts:
  "first_failure sl ev = None \<Longrightarrow> \<exists>x. judge_stored sl ev = Inr x"
  unfolding first_failure_def PRECEDENCE_def
  by (auto simp: judge_stored_def classify_def verify_commitment_iff halted_not_complete split: option.splits if_splits)

section \<open>Watching the outcome loader\<close>

definition watched_probes :: "('w, 'h) probes \<Rightarrow> ('w \<times> scoring_ticket list, 'h) probes" where
  "watched_probes p = \<lparr>pr_load = (\<lambda>r. unlogged (pr_load p r)), pr_header = (\<lambda>h. unlogged (pr_header p h)),
     pr_reachable = (\<lambda>c. unlogged (pr_reachable p c)), pr_clock = unlogged (pr_clock p)\<rparr>"

definition watched_loader ::
  "(scoring_ticket \<Rightarrow> ('w, score_exn, 'a) eff) \<Rightarrow> scoring_ticket \<Rightarrow> ('w \<times> scoring_ticket list, score_exn, 'a) eff" where
  "watched_loader load t = logged (\<lambda>_. [t]) (\<lambda>_. []) (load t)"

lemma keeps_mapped: "keeps P m \<Longrightarrow> keeps P (mapped f m)"
  by (auto simp: keeps_def mapped_def split: prod.splits sum.splits)

lemma keeps_admit_run: "keeps (on_trace P) (admit_run lib sl (watched_probes p) req)"
  unfolding admit_run_def watched_probes_def
  by (auto intro!: keeps_bnd keeps_mapped keeps_unlogged keeps_confirm split: option.split sum.split prod.split)

lemma unlogged_InrD: "unlogged m (w, tr) = (Inr x, (w', tr')) \<Longrightarrow> m w = (Inr x, w')"
  by (auto simp: unlogged_def split: prod.splits)

lemma admissible_watched: "admissible lib sl (watched_probes p) req ev t \<Longrightarrow> admissible lib sl p req ev t"
proof -
  assume a: "admissible lib sl (watched_probes p) req ev t"
  have r: "\<exists>w w'. pr_reachable p c w = (Inr True, w')" if "pr_reachable (watched_probes p) c s = (Inr True, s')" for c s s'
    using that by (cases s; cases s') (auto simp: watched_probes_def dest: unlogged_InrD)
  have h: "serves (pr_header p) n x" if "serves (pr_header (watched_probes p)) n x" for n x
    using that serves_unlogged [of "pr_header p" n x] by (simp add: watched_probes_def)
  from a show ?thesis unfolding admissible_def using r h by metis
qed

section \<open>A concrete admission\<close>

definition demo_evidence :: scoring_evidence where
  "demo_evidence = \<lparr>se_run = Some (demo_run EXECUTED),
     se_commitment = Some \<lparr>dc_run_id = ''r'', dc_sha256 = demo_hash, dc_committed_at = 5\<rparr>,
     se_decisions = [], se_snapshot = Some demo_snapshot, se_anchor = Some demo_anchor, se_events = [], se_defects = []\<rparr>"

definition demo_probes :: "(unit, unit) probes" where
  "demo_probes = \<lparr>pr_load = (\<lambda>_. ret demo_evidence), pr_header = (\<lambda>_. ret ()), pr_reachable = (\<lambda>_. ret True),
     pr_clock = ret (Some 150000000)\<rparr>"

definition demo_request :: scoring_request where
  "demo_request = \<lparr>sq_run_id = ''r'', sq_earliest = Some (Some 200000000)\<rparr>"

definition demo_ticket :: scoring_ticket where
  "demo_ticket = \<lparr>tk_run_id = ''r'', tk_mode = LIVE, tk_completeness = COMPLETE, tk_commitment_sha256 = demo_hash,
     tk_git_commit = demo_commit, tk_bitcoin_height = 7, tk_bitcoin_block_time = 100000000,
     tk_requested_at = 150000000\<rparr>"

lemma demo_hashes: "commitment_hash demo_std (demo_run st) [] demo_snapshot = Inr demo_hash"
  by (simp add: commitment_hash_eq demo_std_def fits_def demo_snapshot_def demo_run_def)

lemma demo_scoring:
  "run_scoring demo_ots demo_std (watched_probes demo_probes) (watched_loader (\<lambda>t. ret (tk_run_id t))) demo_request ((), []) =
     (Inr ''r'', ((), [demo_ticket]))"
proof -
  have load: "loads demo_ots ''p'' = Inr ()" by (simp add: loads_def MAX_PROOF_BYTES_def demo_ots_def)
  have conf: "confirm_bitcoin demo_ots ''p'' demo_hash (\<lambda>h. unlogged (ret ())) s =
      (Inr \<lparr>bc_height = 7, bc_block_time = 100\<rparr>, s)" for s :: "unit \<times> scoring_ticket list"
    by (cases s) (simp add: confirm_bitcoin_def demo_binding load confirm_step_def bnd_def catch_def unlogged_ret)
  have r: "rr_status (demo_run st) = st" "rr_mode (demo_run st) = LIVE" for st
    by (simp_all add: demo_run_def)
  have j: "judge_stored demo_std demo_evidence = Inr (demo_run EXECUTED,
      \<lparr>dc_run_id = ''r'', dc_sha256 = demo_hash, dc_committed_at = 5\<rparr>, COMPLETE, demo_hash, demo_anchor, ''p'', demo_commit)"
    by (simp add: judge_stored_def demo_evidence_def classify_def verify_commitment_iff demo_hashes demo_anchor_def r)
  show ?thesis
    by (simp add: run_scoring_def admit_run_def watched_probes_def demo_probes_def watched_loader_def bnd_def mapped_def
        unlogged_ret logged_ret j demo_binding conf pst_confirmed_def judge_timing_def demo_anchor_def utc_def
        demo_request_def demo_ticket_def r)
qed

section \<open>Properties\<close>

text \<open>
  C19: admission before outcomes. Outcomes are loaded at most once, and only for a ticket of a run whose
  stored rows recompute to the committed and anchored hash, whose proof verifies against a served block
  header, whose commit was reported reachable, whose times are in order (for a live run strictly before
  the earliest resolution), and which is complete, or halted with a halt event on record. A run that is
  refused, or whose evidence could not be fetched, never reaches the loader.
\<close>

theorem run_scoring_admits_first:
  assumes "run_scoring lib sl (watched_probes p) (watched_loader load) req (w, []) = (r, (w', calls))"
  shows "calls = [] \<and> (\<exists>e. r = Inl e) \<or>
    (\<exists>t ev w1 w2. calls = [t] \<and> pr_load p (sq_run_id req) w1 = (Inr ev, w2) \<and> admissible lib sl p req ev t)"
proof -
  obtain a s where Pair: "admit_run lib sl (watched_probes p) req (w, []) = (a, s)"
    by (cases "admit_run lib sl (watched_probes p) req (w, [])" rule: prod.exhaust)
  have "on_trace (\<lambda>tr. tr = []) s" using keepsE [OF keeps_admit_run [where P = "\<lambda>tr. tr = []"] _ Pair] by simp
  then obtain w1 where s: "s = (w1, [])" by (cases s) simp
  show ?thesis
  proof (cases a)
    case (Inl e)
    then show ?thesis using assms Pair s by (auto simp: run_scoring_def bnd_def)
  next
    case (Inr t)
    with assms Pair s have calls: "calls = [t]"
      by (auto simp: run_scoring_def bnd_def watched_loader_def logged_def split: prod.splits sum.splits)
    from admit_run_sound [OF Pair [unfolded Inr]] obtain ev s1 where
      ev: "pr_load (watched_probes p) (sq_run_id req) (w, []) = (Inr ev, s1)"
      and ok: "admissible lib sl (watched_probes p) req ev t" by blast
    then have "pr_load p (sq_run_id req) w = (Inr ev, fst s1)"
      by (cases s1) (auto simp: watched_probes_def dest: unlogged_InrD)
    with calls admissible_watched [OF ok] show ?thesis by blast
  qed
qed

theorem run_scoring_admits_first_witness:
  "\<exists>ev. admissible demo_ots demo_std demo_probes demo_request ev demo_ticket"
  using run_scoring_admits_first [OF demo_scoring] by auto

text \<open>
  C20: refusals have one order. If a check on the stored evidence fails, the run is refused with the
  first failing reason of the documented precedence, and neither the proof, the block headers, git nor
  the clock is asked; if none fails the stored evidence is accepted.
\<close>

theorem admit_run_first_failure:
  assumes "pr_load p (sq_run_id req) w = (Inr ev, w1)"
  shows "case first_failure sl ev of
      Some r \<Rightarrow> \<exists>c. admit_run lib sl p req w = (Inl (ScoringRefused r c), w1)
    | None \<Rightarrow> \<exists>x. judge_stored sl ev = Inr x"
proof (cases "first_failure sl ev")
  case (Some r)
  from judge_stored_refuses [OF this] obtain c where "judge_stored sl ev = Inl (ScoringRefused r c)" by blast
  then show ?thesis using assms Some by (simp add: admit_run_def bnd_def mapped_def)
qed (use judge_stored_accepts in auto)

theorem admit_run_first_failure_witness:
  "\<exists>c. admit_run demo_ots demo_std (demo_probes\<lparr>pr_load := (\<lambda>_. ret (demo_evidence\<lparr>se_commitment := None, se_anchor := None\<rparr>))\<rparr>)
     demo_request () = (Inl (ScoringRefused NO_COMMITMENT c), ())"
  using admit_run_first_failure [of "demo_probes\<lparr>pr_load := (\<lambda>_. ret (demo_evidence\<lparr>se_commitment := None, se_anchor := None\<rparr>))\<rparr>"
      demo_request "()" "demo_evidence\<lparr>se_commitment := None, se_anchor := None\<rparr>" "()" demo_std demo_ots]
  by (simp add: first_failure_def PRECEDENCE_def demo_evidence_def)

text \<open>
  C21: what the sink writes can be scored. In a reachable database a run that is anchored or executed is
  never refused for a missing commitment, a missing halt event, a missing anchor or an anchor of another
  hash, and a halted run is never refused for its status or for missing halt evidence.
\<close>

theorem reachable_evidence_present:
  assumes "reachable d" and "load_run d rid = Some run" and "first_failure sl (gather_evidence d rid) = Some r"
  shows "(rr_status run = ANCHORED \<or> rr_status run = EXECUTED \<longrightarrow>
      r \<notin> {RUN_MISSING, NO_COMMITMENT, HALT_EVIDENCE_MISSING, ANCHOR_MISSING, ANCHOR_INVALID}) \<and>
    (run_halted run \<longrightarrow> r \<notin> {RUN_MISSING, NOT_SCORABLE_STATUS, HALT_EVIDENCE_MISSING})"
proof -
  from assms(2) have run: "run \<in> set (db_runs d)" "rr_run_id run = rid"
    unfolding load_run_def using row_of_SomeD by metis+
  have fails: "\<not> passes sl (gather_evidence d rid) r"
    using assms(3) unfolding first_failure_def by (auto simp: find_Some_iff)
  have ev: "se_run (gather_evidence d rid) = Some run" "se_commitment (gather_evidence d rid) = load_commitment d rid"
    "se_anchor (gather_evidence d rid) = load_anchor d rid"
    "se_events (gather_evidence d rid) = load_kill_switch_events d rid"
    using assms(2) by (simp_all add: gather_evidence_def split: prod.split)
  note evidence = reachable_evidence [OF assms(1) run(1), unfolded run(2)]
  have "r \<notin> {RUN_MISSING, NO_COMMITMENT, HALT_EVIDENCE_MISSING, ANCHOR_MISSING, ANCHOR_INVALID}"
    if "rr_status run = ANCHORED \<or> rr_status run = EXECUTED"
    using fails evidence that by (auto simp: ev run_halted_def load_commitment_hash_def ADVANCED_def)
  moreover have "r \<notin> {RUN_MISSING, NOT_SCORABLE_STATUS, HALT_EVIDENCE_MISSING}" if "run_halted run"
    using fails evidence that ks_from_events_Nil by (auto simp: ev ks_halted_def)
  ultimately show ?thesis by blast
qed

theorem reachable_evidence_present_witness:
  "first_failure demo_std (gather_evidence halted_db ''r'') = Some MATERIAL_INCOMPLETE \<and>
    MATERIAL_INCOMPLETE \<notin> {RUN_MISSING, NOT_SCORABLE_STATUS, HALT_EVIDENCE_MISSING}"
proof -
  have run: "load_run halted_db ''r'' = Some halted_run"
    by (simp add: load_run_def row_of_def halted_db_def halted_run_def sink_run_def demo_run_def)
  have halted: "run_halted halted_run"
    by (simp add: halted_run_def run_halted_def sink_run_def demo_run_def)
  have events: "load_kill_switch_events halted_db ''r'' = [sink_event 9]"
    by (simp add: load_kill_switch_events_def halted_db_def sink_event_def)
  have com: "load_commitment halted_db ''r'' \<noteq> None"
    by (simp add: load_commitment_def row_of_def halted_db_def anchored_db_def empty_db_def)
  have decs: "decisions_from_rows halted_run (decision_rows halted_db ''r'') = Inl (MaterialDefectError DECISION_ROW_INVALID)"
    by (simp add: decisions_from_rows_def decision_rows_def halted_db_def anchored_db_def empty_db_def decision_row_of_def
        demo_record_def decision_from_row_def horizon_of_def all_horizons_def valid_decision_record_def
        valid_committee_decision_def Let_def)
  have first: "first_failure demo_std (gather_evidence halted_db ''r'') = Some MATERIAL_INCOMPLETE"
    using halted com events
    by (auto simp: first_failure_def PRECEDENCE_def gather_evidence_def run decs defect_of_def Let_def split: option.split prod.split)
  show ?thesis
    using reachable_evidence_present [OF halted_reachable run first] halted first by simp
qed



end
