(* ===== verification/Execution_Stage.thy ===== *)
theory Execution_Stage
  imports Executor_Safety Frames Scorable
begin

text \<open>
  The paper-execution stage, \<open>orchestration/execution_stage.py\<close>: eligibility of a run, the planning of
  targets, the execution of the book under the kill switch, reconciliation and the operator's halt. The
  kill switch is one object that the executor reads and the halt controller changes, so both work on
  the world paired with the controller's state.
\<close>

section \<open>Planning\<close>

record market_view =
  mv_symbols :: "(int \<times> string) list"
  mv_prices :: "int \<Rightarrow> flt option"

definition usable_price :: "flt option \<Rightarrow> real option" where
  "usable_price p = (case p of Some (Fin x) \<Rightarrow> if 0 < x then Some x else None | _ \<Rightarrow> None)"

definition weight_of :: "proposed_book \<Rightarrow> int \<Rightarrow> real option" where
  "weight_of book sid = map_of (rev (map (\<lambda>p. (pp_security_id p, pp_target_weight p)) (pb_positions book))) sid"

definition held_of :: "(string \<times> real) list \<Rightarrow> string \<Rightarrow> real" where
  "held_of positions symbol = (case map_of positions symbol of None \<Rightarrow> 0 | Some q \<Rightarrow> q)"

definition desired_shares :: "real \<Rightarrow> real \<Rightarrow> real \<Rightarrow> int" where
  "desired_shares weight equity price = (if 0 < weight then \<lfloor>weight * equity / price\<rfloor> else 0)"

text \<open>One name of the loop of \<open>plan_targets\<close>: an error, no order, or a target.\<close>

definition plan_one ::
  "uuid \<Rightarrow> proposed_book \<Rightarrow> market_view \<Rightarrow> real \<Rightarrow> (string \<times> real) list \<Rightarrow> int \<Rightarrow> exn + exec_target option" where
  "plan_one rid book view equity positions sid =
     (let symbol = the (map_of (mv_symbols view) sid);
          weight = (case weight_of book sid of None \<Rightarrow> 0 | Some x \<Rightarrow> x);
          held = held_of positions symbol
      in case usable_price (mv_prices view sid) of
           None \<Rightarrow> if 0 < weight \<or> held \<noteq> 0 then Inl ExecutionPlanError else Inr None
         | Some price \<Rightarrow>
             let delta = round6 (of_int (desired_shares weight equity price) - held)
             in Inr (if delta = 0 then None
                     else Some \<lparr>tg_run_id = rid, tg_security_id = sid, tg_symbol = symbol,
                                tg_side = (if 0 < delta then BUY else SELL), tg_qty = Fin \<bar>delta\<bar>,
                                tg_decision_price = price\<rparr>))"

fun plan_each :: "(int \<Rightarrow> exn + exec_target option) \<Rightarrow> int list \<Rightarrow> exn + exec_target list" where
  "plan_each f [] = Inr []"
| "plan_each f (sid # sids) =
     bindr (f sid) (\<lambda>t. bindr (plan_each f sids) (\<lambda>ts. Inr (case t of None \<Rightarrow> ts | Some x \<Rightarrow> x # ts)))"

definition plan_targets ::
  "uuid \<Rightarrow> proposed_book \<Rightarrow> market_view \<Rightarrow> flt \<Rightarrow> (string \<times> real) list \<Rightarrow> exn + exec_target list" where
  "plan_targets rid book view equity positions =
     (if \<not> (isfinite equity \<and> 0 < fl_val equity) then Inl ExecutionPlanError
      else if list_ex (\<lambda>p. pp_security_id p \<notin> fst ` set (mv_symbols view)) (pb_positions book)
      then Inl ExecutionPlanError
      else plan_each (plan_one rid book view (fl_val equity) positions) (sort (map fst (mv_symbols view))))"

section \<open>The stage\<close>

record 'w exec_store =
  xs_load_run :: "uuid \<Rightarrow> ('w, exn, run_record option) eff"
  xs_load_material :: "uuid \<Rightarrow> ('w, exn, commitment_material option) eff"
  xs_load_events :: "uuid \<Rightarrow> ('w, exn, kill_switch_event list) eff"
  xs_load_open :: "uuid \<Rightarrow> ('w, exn, execution_record list) eff"
  xs_record_halt :: "kill_switch_event \<Rightarrow> ('w, exn, unit) eff"
  xs_record_dlq :: "dlq_record list \<Rightarrow> ('w, exn, unit) eff"
  xs_mark_executed :: "uuid \<Rightarrow> instant \<Rightarrow> ('w, exn, bool) eff"
  xs_record_executions :: "execution_record list \<Rightarrow> ('w, exn, unit) eff"
  xs_find_execution :: "string \<Rightarrow> ('w, exn, execution_record option) eff"

record 'w exec_stage =
  sg_gw :: "'w gateway"
  sg_store :: "'w exec_store"
  sg_market :: "run_record \<Rightarrow> ('w, exn, market_view) eff"
  sg_reference :: "string \<Rightarrow> ('w, exn, ref_price) eff"
  sg_feeds :: "('w, exn, feed_name \<Rightarrow> instant option option) eff"
  sg_clock :: "'w \<Rightarrow> instant \<times> 'w"
  sg_sleep :: "int \<Rightarrow> ('w, exn, unit) eff"
  sg_limit :: real
  sg_sla :: "(feed_name \<times> real) list"
  sg_collar_bps :: real
  sg_limit_wait :: int
  sg_poll_seconds :: int
  sg_poll_attempts :: nat
  sg_type_name :: "exn \<Rightarrow> string"
  sg_message :: "exn \<Rightarrow> string"

record exec_result =
  xr_run_id :: uuid
  xr_status :: run_status
  xr_advanced :: bool
  xr_reason :: "string option"
  xr_outcomes :: "exec_outcome list"




section \<open>Targets\<close>



section \<open>Executing a run\<close>

definition halt_controller :: "'w exec_stage \<Rightarrow> uuid \<Rightarrow> 'w halt_ctl" where
  "halt_controller s rid =
     \<lparr>hl_gw = sg_gw s, hl_record = xs_record_halt (sg_store s), hl_run_id = rid, hl_clock = sg_clock s,
      hl_sleep = sg_sleep s, hl_poll_seconds = sg_poll_seconds s, hl_poll_attempts = sg_poll_attempts s\<rparr>"

definition initial_halt :: "kill_switch_event list \<Rightarrow> halt_state" where
  "initial_halt events = \<lparr>hs_switch = ks_from_events events, hs_flattened = was_flattened events\<rparr>"












definition with_halt :: "halt_state \<Rightarrow> ('w, 'a) halt_eff \<Rightarrow> ('w, exn, 'a) eff" where
  "with_halt h m w = (case m (w, h) of (r, (w', _)) \<Rightarrow> (r, w'))"



section \<open>Reconciliation and the manual halt\<close>

definition reconcile_one :: "'w exec_stage \<Rightarrow> execution_record \<Rightarrow> execution_record list \<Rightarrow> ('w, exn, execution_record list) eff" where
  "reconcile_one s stored changed =
     bnd (gw_get_order (sg_gw s) (er_broker_order_id stored)) (\<lambda>w.
       case refresh_record stored w of
         Inl e \<Rightarrow> throw e
       | Inr fresh \<Rightarrow> ret (if fresh \<noteq> stored then changed @ [fresh] else changed))"

definition reconcile_orders :: "'w exec_stage \<Rightarrow> uuid \<Rightarrow> ('w, exn, nat) eff" where
  "reconcile_orders s rid =
     bnd (xs_load_open (sg_store s) rid) (\<lambda>stored.
     bnd (fold_eff (reconcile_one s) stored []) (\<lambda>changed.
     bnd (if changed \<noteq> [] then xs_record_executions (sg_store s) changed else ret ()) (\<lambda>_.
     ret (length changed))))"

definition operator_halt :: "'w exec_stage \<Rightarrow> uuid \<Rightarrow> bool \<Rightarrow> ('w, exn, exec_result) eff" where
  "operator_halt s rid flatten =
     bnd (xs_load_run (sg_store s) rid) (\<lambda>found.
       case found of
         None \<Rightarrow> throw ExecutionNotEligibleError
       | Some run \<Rightarrow>
           if rr_mode run \<noteq> LIVE then throw ExecutionNotEligibleError
           else
             bnd (xs_load_events (sg_store s) rid) (\<lambda>events.
             bnd (with_halt (initial_halt events) (manual_halt (halt_controller s rid) flatten)) (\<lambda>_.
             bnd (xs_load_run (sg_store s) rid) (\<lambda>after.
               case after of
                 None \<Rightarrow> throw AssertionError
               | Some r \<Rightarrow> ret \<lparr>xr_run_id = rid, xr_status = rr_status r, xr_advanced = False,
                               xr_reason = rr_status_reason r, xr_outcomes = []\<rparr>))))"

section \<open>What is planned\<close>

text \<open>A target of the plan: a real order of the name, on the side of its sign, towards the desired shares.\<close>

definition planned_for ::
  "uuid \<Rightarrow> proposed_book \<Rightarrow> market_view \<Rightarrow> real \<Rightarrow> (string \<times> real) list \<Rightarrow> exec_target \<Rightarrow> bool" where
  "planned_for rid book view equity positions t \<longleftrightarrow>
     (let weight = (case weight_of book (tg_security_id t) of None \<Rightarrow> 0 | Some x \<Rightarrow> x);
          want = of_int (desired_shares weight equity (tg_decision_price t));
          signed = (if tg_side t = BUY then fl_val (tg_qty t) else - fl_val (tg_qty t))
      in tg_run_id t = rid \<and> map_of (mv_symbols view) (tg_security_id t) = Some (tg_symbol t) \<and>
         mv_prices view (tg_security_id t) = Some (Fin (tg_decision_price t)) \<and> 0 < tg_decision_price t \<and>
         isfinite (tg_qty t) \<and> 0 < fl_val (tg_qty t) \<and>
         \<bar>held_of positions (tg_symbol t) + signed - want\<bar> \<le> 1 / (2 * 10 ^ 6) \<and>
         want * tg_decision_price t \<le> max 0 weight * equity)"

lemma usable_price_SomeD: "usable_price p = Some x \<Longrightarrow> p = Some (Fin x) \<and> 0 < x"
  by (auto simp: usable_price_def split: option.splits flt.splits if_splits)

lemma desired_shares_bound:
  assumes "0 < price" and "0 < equity"
  shows "of_int (desired_shares weight equity price) * price \<le> max 0 weight * equity"
proof (cases "0 < weight")
  case True
  have "of_int \<lfloor>weight * equity / price\<rfloor> \<le> weight * equity / price" by simp
  then have "of_int \<lfloor>weight * equity / price\<rfloor> * price \<le> weight * equity / price * price"
    using assms(1) by (intro mult_right_mono) auto
  then show ?thesis using True assms by (simp add: desired_shares_def)
qed (simp add: desired_shares_def)

lemma plan_one_SomeD:
  assumes "plan_one rid book view equity positions sid = Inr (Some t)" and "sid \<in> fst ` set (mv_symbols view)"
    and "0 < equity"
  shows "planned_for rid book view equity positions t \<and> tg_security_id t = sid"
proof -
  from assms(2) obtain symbol where sy: "map_of (mv_symbols view) sid = Some symbol"
    by (metis image_iff map_of_eq_None_iff not_None_eq)
  from assms(1) obtain price where p: "usable_price (mv_prices view sid) = Some price"
    by (auto simp: plan_one_def Let_def split: option.splits if_splits)
  define weight where "weight = (case weight_of book sid of None \<Rightarrow> 0 | Some x \<Rightarrow> x)"
  define delta where "delta = round6 (of_int (desired_shares weight equity price) - held_of positions symbol)"
  from assms(1) p sy have d: "delta \<noteq> 0" and t: "t = \<lparr>tg_run_id = rid, tg_security_id = sid, tg_symbol = symbol,
      tg_side = (if 0 < delta then BUY else SELL), tg_qty = Fin \<bar>delta\<bar>, tg_decision_price = price\<rparr>"
    by (auto simp: plan_one_def Let_def weight_def delta_def split: if_splits)
  have "\<bar>delta - (of_int (desired_shares weight equity price) - held_of positions symbol)\<bar> \<le> 1 / (2 * 10 ^ 6)"
    unfolding delta_def by (rule round6_error)
  then have "\<bar>held_of positions symbol + delta - of_int (desired_shares weight equity price)\<bar> \<le> 1 / (2 * 10 ^ 6)"
    by (simp add: algebra_simps)
  moreover have "(if 0 < delta then \<bar>delta\<bar> else - \<bar>delta\<bar>) = delta" by simp
  moreover have "of_int (desired_shares weight equity price) * price \<le> max 0 weight * equity"
    using usable_price_SomeD [OF p] assms(3) by (intro desired_shares_bound) auto
  ultimately show ?thesis
    using d sy usable_price_SomeD [OF p] unfolding planned_for_def t Let_def
    by (auto simp: weight_def [symmetric])
qed

lemma plan_each_InrD:
  assumes "plan_each f sids = Inr ts" and "\<And>sid t. sid \<in> set sids \<Longrightarrow> f sid = Inr (Some t) \<Longrightarrow> key t = sid \<and> P t"
  shows "(\<forall>t \<in> set ts. P t \<and> key t \<in> set sids) \<and> (sorted_wrt (<) sids \<longrightarrow> sorted_wrt (<) (map key ts))"
  using assms
proof (induction sids arbitrary: ts)
  case (Cons sid sids)
  from Cons.prems(1) obtain z ts' where z: "f sid = Inr z" and ts': "plan_each f sids = Inr ts'"
    and ts: "ts = (case z of None \<Rightarrow> ts' | Some x \<Rightarrow> x # ts')"
    by (auto simp: bindr_Inr_iff)
  from Cons.IH [OF ts'] Cons.prems(2) have ih: "\<forall>t \<in> set ts'. P t \<and> key t \<in> set sids"
    "sorted_wrt (<) sids \<longrightarrow> sorted_wrt (<) (map key ts')" by auto
  show ?case
  proof (cases z)
    case (Some t)
    with Cons.prems(2) [of sid t] z have "key t = sid \<and> P t" by simp
    with ih Some ts show ?thesis by auto
  qed (use ih ts in auto)
qed simp

lemma sorted_symbols: "distinct (map fst xs) \<Longrightarrow> sorted_wrt (<) (sort (map fst xs) :: int list)"
  using strict_sorted_iff [of "sort (map fst xs)"] by simp

lemma plan_targets_InrD:
  assumes "plan_targets rid book view equity positions = Inr ts"
  shows "(\<forall>t \<in> set ts. planned_for rid book view (fl_val equity) positions t) \<and>
    (distinct (map fst (mv_symbols view)) \<longrightarrow> sorted_wrt (<) (map tg_security_id ts))"
proof -
  from assms have e: "0 < fl_val equity" and
    p: "plan_each (plan_one rid book view (fl_val equity) positions) (sort (map fst (mv_symbols view))) = Inr ts"
    by (auto simp: plan_targets_def split: if_splits)
  have one: "tg_security_id t = sid \<and> planned_for rid book view (fl_val equity) positions t"
    if "sid \<in> set (sort (map fst (mv_symbols view)))" "plan_one rid book view (fl_val equity) positions sid = Inr (Some t)" for sid t
    using plan_one_SomeD [OF that(2) _ e] that(1) by auto
  have "(\<forall>t \<in> set ts. planned_for rid book view (fl_val equity) positions t \<and> tg_security_id t \<in> set (sort (map fst (mv_symbols view)))) \<and>
      (sorted_wrt (<) (sort (map fst (mv_symbols view))) \<longrightarrow> sorted_wrt (<) (map tg_security_id ts))"
    by (rule plan_each_InrD [OF p]) (rule one)
  with sorted_symbols [of "mv_symbols view"] show ?thesis by blast
qed

section \<open>Watching the stage\<close>



































section \<open>The targets of a run\<close>





text \<open>Every name of the view that gets no order is already where the plan wants it.\<close>

definition left_alone :: "proposed_book \<Rightarrow> market_view \<Rightarrow> real \<Rightarrow> (string \<times> real) list \<Rightarrow> int \<Rightarrow> bool" where
  "left_alone book view equity positions sid \<longleftrightarrow>
     (let weight = (case weight_of book sid of None \<Rightarrow> 0 | Some x \<Rightarrow> x);
          held = held_of positions (the (map_of (mv_symbols view) sid))
      in case usable_price (mv_prices view sid) of
           None \<Rightarrow> weight \<le> 0 \<and> held = 0
         | Some price \<Rightarrow> \<bar>of_int (desired_shares weight equity price) - held\<bar> \<le> 1 / (2 * 10 ^ 6))"

lemma plan_one_NoneD:
  assumes "plan_one rid book view equity positions sid = Inr None"
  shows "left_alone book view equity positions sid"
proof (cases "usable_price (mv_prices view sid)")
  case (Some price)
  let ?x = "of_int (desired_shares (case weight_of book sid of None \<Rightarrow> 0 | Some x \<Rightarrow> x) equity price)
     - held_of positions (the (map_of (mv_symbols view) sid))"
  from assms Some have "round6 ?x = 0" by (auto simp: plan_one_def Let_def split: if_splits)
  with round6_error [of ?x] show ?thesis by (simp add: left_alone_def Some abs_minus_commute)
qed (use assms in \<open>auto simp: plan_one_def left_alone_def Let_def split: if_splits option.splits\<close>)

lemma plan_each_rest:
  assumes "plan_each f sids = Inr ts" and "\<And>sid t. sid \<in> set sids \<Longrightarrow> f sid = Inr (Some t) \<Longrightarrow> key t = sid"
    and "sid \<in> set sids" and "sid \<notin> key ` set ts"
  shows "f sid = Inr None"
  using assms
proof (induction sids arbitrary: ts)
  case (Cons a sids)
  from Cons.prems(1) obtain z ts' where z: "f a = Inr z" and ts': "plan_each f sids = Inr ts'"
    and ts: "ts = (case z of None \<Rightarrow> ts' | Some x \<Rightarrow> x # ts')"
    by (auto simp: bindr_Inr_iff)
  from ts Cons.prems(4) have "sid \<notin> key ` set ts'" by (auto split: option.splits)
  with Cons.IH [OF ts'] Cons.prems(2,3) z ts Cons.prems(4) show ?case
    by (cases z; cases "sid = a") auto
qed simp

section \<open>A concrete stage\<close>








section \<open>Properties\<close>

text \<open>
  C28: the plan turns the book into whole-share orders and nothing else. Every target is for a name of
  the view, has a usable price, a positive quantity on the side of its sign, moves the held position
  to the floor of weight times equity over price (up to the rounding to six places), so what is wanted
  of a name never costs more than its weight of the equity; targets are in the order of the names, one
  each, and every other name is already where the plan wants it.
\<close>

theorem plan_targets_sound:
  assumes "plan_targets rid book view equity positions = Inr ts"
  shows "(\<forall>t \<in> set ts. planned_for rid book view (fl_val equity) positions t) \<and>
    (\<forall>sid \<in> fst ` set (mv_symbols view) - tg_security_id ` set ts. left_alone book view (fl_val equity) positions sid) \<and>
    (distinct (map fst (mv_symbols view)) \<longrightarrow> sorted_wrt (<) (map tg_security_id ts))"
proof -
  from assms have e: "0 < fl_val equity" and
    p: "plan_each (plan_one rid book view (fl_val equity) positions) (sort (map fst (mv_symbols view))) = Inr ts"
    by (auto simp: plan_targets_def split: if_splits)
  have key: "tg_security_id t = sid" if "sid \<in> set (sort (map fst (mv_symbols view)))"
    "plan_one rid book view (fl_val equity) positions sid = Inr (Some t)" for sid t
    using plan_one_SomeD [OF that(2) _ e] that(1) by auto
  from plan_targets_InrD [OF assms] plan_one_NoneD [OF plan_each_rest [OF p key]] show ?thesis by auto
qed

theorem plan_targets_sound_witness:
  "\<exists>t. plan_targets ''r'' \<lparr>pb_run_id = ''r'', pb_as_of = 5,
        pb_positions = [\<lparr>pp_security_id = 3, pp_entity_token = ''CO_01'', pp_sector = ''TECH'', pp_pooled_p = 6 / 10, pp_target_weight = 1 / 20\<rparr>]\<rparr>
      \<lparr>mv_symbols = [(3, ''SPY'')], mv_prices = (\<lambda>_. Some (Fin 100))\<rparr> (Fin 10000) [] = Inr [t] \<and>
    tg_qty t = Fin 5 \<and> of_int (desired_shares (1 / 20) 10000 100) * 100 \<le> (500 :: real)"
proof -
  let ?book = "\<lparr>pb_run_id = ''r'', pb_as_of = 5, pb_positions = [\<lparr>pp_security_id = 3, pp_entity_token = ''CO_01'', pp_sector = ''TECH'', pp_pooled_p = 6 / 10, pp_target_weight = 1 / 20\<rparr>]\<rparr>"
  let ?view = "\<lparr>mv_symbols = [(3, ''SPY'')], mv_prices = (\<lambda>_. Some (Fin 100))\<rparr>"
  let ?t = "\<lparr>tg_run_id = ''r'', tg_security_id = 3, tg_symbol = ''SPY'', tg_side = BUY, tg_qty = Fin 5, tg_decision_price = 100\<rparr>"
  have "round6 5 = 5" using py_round_of_int [of 5000000] by (simp add: round6_def)
  then have p: "plan_targets ''r'' ?book ?view (Fin 10000) [] = Inr [?t]"
    by (simp add: plan_targets_def plan_one_def weight_of_def held_of_def usable_price_def desired_shares_def)
  from plan_targets_sound [OF p] have "planned_for ''r'' ?book ?view 10000 [] ?t" by simp
  then have "of_int (desired_shares (1 / 20) 10000 100) * 100 \<le> (500 :: real)"
    by (simp add: planned_for_def weight_of_def Let_def del: of_int_le_iff)
  then show ?thesis using p by simp
qed









end
