(* ===== verification/Config.thy ===== *)
theory Config
  imports Json Models Tables
begin

text \<open>
  The validated configuration of \<open>config/loader.py\<close> the committee, the sizing and the agents read: the
  model catalogue with its cost accounting, the risk limits and the committee parameters.
\<close>

section \<open>Models and costs\<close>

datatype model_tier = FAST | STRONG | PROBE

datatype cost_source = LOCAL | PROVIDER_FALLBACK

record served_model =
  sm_slug :: string
  sm_family :: string
  sm_stated_training_cutoff :: date
  sm_measured_effective_cutoff :: "date option"
  sm_supports_structured_outputs :: bool
  sm_accepts_temperature :: bool
  sm_rpm :: int
  sm_tpm :: int
  sm_input_price :: real
  sm_output_price :: real

definition valid_served_model :: "served_model \<Rightarrow> bool" where
  "valid_served_model m \<longleftrightarrow> sm_slug m \<noteq> [] \<and> sm_family m \<noteq> [] \<and> 0 < sm_rpm m \<and> 0 < sm_tpm m \<and>
     0 \<le> sm_input_price m \<and> 0 \<le> sm_output_price m"

definition effective_cutoff :: "served_model \<Rightarrow> date" where
  "effective_cutoff m =
     (case sm_measured_effective_cutoff m of
        None \<Rightarrow> sm_stated_training_cutoff m
      | Some d \<Rightarrow> max (sm_stated_training_cutoff m) d)"

definition TOKENS_PER_PRICE_UNIT :: real where
  "TOKENS_PER_PRICE_UNIT = 1000000"

definition local_cost_usd :: "served_model \<Rightarrow> int \<Rightarrow> int \<Rightarrow> real" where
  "local_cost_usd m prompt completion =
     (of_int prompt * sm_input_price m + of_int completion * sm_output_price m) / TOKENS_PER_PRICE_UNIT"

text \<open>
  The usage block of a response is a JSON object. A token count is a non-negative integer that is not
  a boolean; the provider's own cost is a non-negative number. Non-finite JSON numbers do not occur in
  \<open>json\<close>, whose numbers are reals.
\<close>

type_synonym usage = "(string \<times> json) list"

definition usage_count :: "usage \<Rightarrow> string \<Rightarrow> int option" where
  "usage_count u k =
     (case map_of u k of Some (JInt n) \<Rightarrow> if 0 \<le> n then Some n else None | _ \<Rightarrow> None)"

definition usage_cost :: "usage \<Rightarrow> real option" where
  "usage_cost u =
     (case map_of u ''cost'' of
        Some (JInt n) \<Rightarrow> if 0 \<le> n then Some (of_int n) else None
      | Some (JNum x) \<Rightarrow> if 0 \<le> x then Some x else None
      | _ \<Rightarrow> None)"

text \<open>\<open>None\<close> is \<open>UsageUnavailableError\<close>.\<close>

definition call_cost :: "served_model \<Rightarrow> usage option \<Rightarrow> (real \<times> cost_source) option" where
  "call_cost m u =
     (let block = (case u of None \<Rightarrow> [] | Some b \<Rightarrow> b)
      in case (usage_count block ''prompt_tokens'', usage_count block ''completion_tokens'') of
           (Some p, Some c) \<Rightarrow> Some (local_cost_usd m p c, LOCAL)
         | _ \<Rightarrow> (case usage_cost block of Some x \<Rightarrow> Some (x, PROVIDER_FALLBACK) | None \<Rightarrow> None))"

record model_entry =
  me_primary :: served_model
  me_fallbacks :: "served_model list"

definition entry_models :: "model_entry \<Rightarrow> served_model list" where
  "entry_models e = me_primary e # me_fallbacks e"

definition all_slugs :: "model_entry \<Rightarrow> string list" where
  "all_slugs e = map sm_slug (entry_models e)"

definition valid_model_entry :: "model_entry \<Rightarrow> bool" where
  "valid_model_entry e \<longleftrightarrow> list_all valid_served_model (entry_models e) \<and> distinct (all_slugs e)"

text \<open>The tiers in the order of the file; a validated catalogue has all three.\<close>

type_synonym models_config = "(model_tier \<times> model_entry) list"

definition catalogue :: "models_config \<Rightarrow> served_model list" where
  "catalogue cfg = concat (map (\<lambda>(_, e). entry_models e) cfg)"

definition tier_slugs :: "models_config \<Rightarrow> model_tier \<Rightarrow> string list" where
  "tier_slugs cfg t = (case map_of cfg t of None \<Rightarrow> [] | Some e \<Rightarrow> all_slugs e)"

definition valid_models_config :: "models_config \<Rightarrow> bool" where
  "valid_models_config cfg \<longleftrightarrow>
     distinct (map fst cfg) \<and> {FAST, STRONG, PROBE} \<subseteq> set (map fst cfg) \<and>
     list_all (\<lambda>(_, e). valid_model_entry e) cfg \<and>
     list_all sm_supports_structured_outputs (catalogue cfg) \<and>
     list_all (\<lambda>m. list_all (\<lambda>n. sm_slug m = sm_slug n \<longrightarrow> m = n) (catalogue cfg)) (catalogue cfg) \<and>
     set (tier_slugs cfg PROBE) \<subseteq> set (tier_slugs cfg FAST) \<union> set (tier_slugs cfg STRONG)"

definition latest_effective_cutoff :: "models_config \<Rightarrow> date" where
  "latest_effective_cutoff cfg = Max (effective_cutoff ` set (catalogue cfg))"

text \<open>\<open>model_for_response\<close>: \<open>None\<close> where the code raises \<open>ValueError\<close>.\<close>

definition model_for_response :: "models_config \<Rightarrow> string \<Rightarrow> served_model option" where
  "model_for_response cfg slug = find (\<lambda>m. sm_slug m = slug) (catalogue cfg)"

lemma local_cost_nonneg: "valid_served_model m \<Longrightarrow> 0 \<le> p \<Longrightarrow> 0 \<le> c \<Longrightarrow> 0 \<le> local_cost_usd m p c"
  by (simp add: local_cost_usd_def valid_served_model_def TOKENS_PER_PRICE_UNIT_def)

lemma usage_count_nonneg: "usage_count u k = Some n \<Longrightarrow> 0 \<le> n"
  by (auto simp: usage_count_def split: option.splits json.splits if_splits)

lemma usage_cost_nonneg: "usage_cost u = Some x \<Longrightarrow> 0 \<le> x"
  by (auto simp: usage_cost_def split: option.splits json.splits if_splits)

lemma call_cost_nonneg:
  assumes "valid_served_model m" and "call_cost m u = Some (x, src)"
  shows "0 \<le> x"
  using assms(2) local_cost_nonneg [OF assms(1)] usage_count_nonneg usage_cost_nonneg
  unfolding call_cost_def Let_def by (fastforce split: option.splits)

lemma model_for_response_Some:
  assumes "model_for_response cfg slug = Some m"
  shows "m \<in> set (catalogue cfg) \<and> sm_slug m = slug"
  using assms unfolding model_for_response_def by (rule find_in)

lemma catalogue_valid:
  assumes "valid_models_config cfg" and "m \<in> set (catalogue cfg)"
  shows "valid_served_model m"
  using assms by (auto simp: valid_models_config_def catalogue_def valid_model_entry_def list_all_iff)

section \<open>Risk limits\<close>

record risk_config =
  rc_long_only :: bool
  rc_max_position :: real
  rc_max_sector :: real
  rc_vol_target_annual :: real
  rc_min_position :: real
  rc_entry_threshold :: real
  rc_k :: real
  rc_dispersion_lambda :: real
  rc_rank_top_m :: nat
  rc_edge_hurdle :: real
  rc_committee_k :: real
  rc_committee_dispersion_lambda :: real
  rc_bear_multiplier :: "bear_severity \<Rightarrow> real"
  rc_cio_veto_budget :: real
  rc_kill_switch_daily_loss :: real
  rc_modeled_cost_bps :: real

definition valid_risk_config :: "risk_config \<Rightarrow> bool" where
  "valid_risk_config c \<longleftrightarrow>
     rc_long_only c \<and> 0 < rc_min_position c \<and> rc_min_position c < rc_max_position c \<and>
     rc_max_position c \<le> MAX_POSITION \<and> rc_max_position c \<le> rc_max_sector c \<and> rc_max_sector c \<le> 1 \<and>
     0 < rc_vol_target_annual c \<and> 1 / 2 < rc_entry_threshold c \<and> rc_entry_threshold c < 1 \<and>
     0 < rc_k c \<and> 0 \<le> rc_dispersion_lambda c \<and> 1 \<le> rc_rank_top_m c \<and>
     probability (rc_edge_hurdle c) \<and> 0 < rc_committee_k c \<and> 0 \<le> rc_committee_dispersion_lambda c \<and>
     list_all (\<lambda>b. probability (rc_bear_multiplier c b)) [LOW, MED, HIGH] \<and>
     probability (rc_cio_veto_budget c) \<and> probability (rc_kill_switch_daily_loss c) \<and> 0 \<le> rc_modeled_cost_bps c"

section \<open>Committee parameters\<close>

record shrinkage_config =
  sh_min_periods :: int
  sh_tau :: real

record overlap_weights =
  ow_d5 :: real
  ow_d21 :: real
  ow_d63 :: real

fun for_horizon :: "overlap_weights \<Rightarrow> horizon \<Rightarrow> real" where
  "for_horizon w D5 = ow_d5 w"
| "for_horizon w D21 = ow_d21 w"
| "for_horizon w D63 = ow_d63 w"

record stacker_config =
  st_gamma_alpha :: real
  st_gamma_beta :: real
  st_activation_periods :: int

record committee_config =
  cc_clip_lo :: real
  cc_clip_hi :: real
  cc_cold_start_min_verdicts :: int
  cc_weight_floor :: real
  cc_shrinkage :: shrinkage_config
  cc_overlap_weights :: overlap_weights
  cc_stacker :: stacker_config

definition valid_committee_config :: "committee_config \<Rightarrow> bool" where
  "valid_committee_config c \<longleftrightarrow>
     0 < cc_clip_lo c \<and> cc_clip_lo c < 1 / 2 \<and> 1 / 2 < cc_clip_hi c \<and> cc_clip_hi c < 1 \<and>
     0 \<le> cc_cold_start_min_verdicts c \<and> 0 \<le> cc_weight_floor c \<and>
     cc_weight_floor c * real (card VOTING_AGENTS) \<le> 1 \<and>
     0 \<le> sh_min_periods (cc_shrinkage c) \<and> 0 < sh_tau (cc_shrinkage c) \<and>
     0 < ow_d5 (cc_overlap_weights c) \<and> 0 < ow_d21 (cc_overlap_weights c) \<and> 0 < ow_d63 (cc_overlap_weights c) \<and>
     0 \<le> st_gamma_alpha (cc_stacker c) \<and> 0 \<le> st_gamma_beta (cc_stacker c) \<and>
     1 \<le> st_activation_periods (cc_stacker c)"

lemma card_voting [simp]: "card VOTING_AGENTS = 5"
  by (simp add: VOTING_AGENTS_def)

lemma for_horizon_pos: "valid_committee_config c \<Longrightarrow> 0 < for_horizon (cc_overlap_weights c) h"
  by (cases h) (simp_all add: valid_committee_config_def)

end
