(* ===== verification/Stacker.thy ===== *)
theory Stacker
  imports Config
begin

text \<open>
  The walk-forward stacker and the effective number of agents, \<open>committee/stacker.py\<close>: the logistic
  function, the damped Newton solve of the ridge objective and the mean error correlation. Arithmetic
  is exact, so overflow and rounding of floats are not modelled.
\<close>

section \<open>The logistic function\<close>

definition sigmoid :: "real \<Rightarrow> real" where
  "sigmoid x = (if 0 \<le> x then 1 / (1 + exp (- x)) else let e = exp x in e / (1 + e))"

definition softplus :: "real \<Rightarrow> real" where
  "softplus x = max x 0 + ln (1 + exp (- \<bar>x\<bar>))"

lemma sigmoid_eq: "sigmoid x = exp x / (1 + exp x)"
proof -
  have "1 / (1 + exp (- x)) = exp x / (1 + exp x)"
    by (simp add: exp_minus field_simps add_pos_pos)
  then show ?thesis by (simp add: sigmoid_def Let_def)
qed

lemma exp1_pos: "0 < 1 + exp (x :: real)"
  by (simp add: add_pos_pos)

lemma sigmoid_bounds: "0 < sigmoid x \<and> sigmoid x < 1"
  using exp1_pos [of x] by (simp add: sigmoid_eq)

lemma sigmoid_probability [intro]: "probability (sigmoid x)"
  using sigmoid_bounds [of x] by (simp add: probability_def)


lemma sigmoid_mono: "x \<le> y \<Longrightarrow> sigmoid x \<le> sigmoid y"
proof -
  assume "x \<le> y"
  then have "exp x * (1 + exp y) \<le> exp y * (1 + exp x)"
    by (simp add: algebra_simps)
  then show ?thesis
    unfolding sigmoid_eq using exp1_pos [of x] exp1_pos [of y]
    by (simp add: divide_le_eq le_divide_eq mult.commute)
qed


section \<open>The objective and its derivatives\<close>

record observation =
  ob_logit :: real
  ob_outcome :: int
  ob_weight :: real

definition objective :: "real \<Rightarrow> real \<Rightarrow> observation list \<Rightarrow> real \<Rightarrow> real \<Rightarrow> real \<Rightarrow> real" where
  "objective a b obs anchor g_a g_b =
     (let nll = sum_list (map (\<lambda>ob. ob_weight ob *
            (softplus (a + b * ob_logit ob) - of_int (ob_outcome ob) * (a + b * ob_logit ob))) obs)
      in nll / real (length obs) + 1 / 2 * g_a * (a - anchor) ^ 2 + 1 / 2 * g_b * (b - 1) ^ 2)"

record newton =
  nw_ga :: real
  nw_gb :: real
  nw_haa :: real
  nw_hab :: real
  nw_hbb :: real

definition accumulate :: "real \<Rightarrow> real \<Rightarrow> nat \<Rightarrow> observation \<Rightarrow> newton \<Rightarrow> newton" where
  "accumulate a b m ob n =
     (let p = sigmoid (a + b * ob_logit ob);
          r = ob_weight ob * (p - of_int (ob_outcome ob)) / real m;
          s = ob_weight ob * p * (1 - p) / real m
      in \<lparr>nw_ga = nw_ga n + r, nw_gb = nw_gb n + r * ob_logit ob, nw_haa = nw_haa n + s,
          nw_hab = nw_hab n + s * ob_logit ob, nw_hbb = nw_hbb n + s * ob_logit ob ^ 2\<rparr>)"

definition derivatives :: "real \<Rightarrow> real \<Rightarrow> observation list \<Rightarrow> real \<Rightarrow> real \<Rightarrow> real \<Rightarrow> newton" where
  "derivatives a b obs anchor g_a g_b =
     fold (accumulate a b (length obs)) obs
       \<lparr>nw_ga = g_a * (a - anchor), nw_gb = g_b * (b - 1), nw_haa = g_a, nw_hab = 0, nw_hbb = g_b\<rparr>"

section \<open>The solve\<close>

definition TOL :: real where
  "TOL = 1 / 10 ^ 10"

definition MAX_ITER :: nat where
  "MAX_ITER = 100"

definition direction :: "newton \<Rightarrow> real \<times> real" where
  "direction n =
     (let det = nw_haa n * nw_hbb n - nw_hab n * nw_hab n
      in if 1 / 10 ^ 14 < det
         then (- (nw_hbb n * nw_ga n - nw_hab n * nw_gb n) / det, - (nw_haa n * nw_gb n - nw_hab n * nw_ga n) / det)
         else (- nw_ga n, - nw_gb n))"

text \<open>The backtracking search: the accepted step and its objective, or none when the step got too short.\<close>

function line_search :: "(real \<Rightarrow> real) \<Rightarrow> real \<Rightarrow> real \<Rightarrow> real \<Rightarrow> (real \<times> real) option" where
  "line_search along f slope step =
     (if 1 / 10 ^ 12 < step
      then let f_new = along step
           in if f_new \<le> f + 1 / 10 ^ 4 * step * slope then Some (step, f_new)
              else line_search along f slope (step * (1 / 2))
      else None)"
  by pat_completeness auto

termination
proof (relation "measure (\<lambda>(_, _, _, step). nat \<lceil>step * 10 ^ 13\<rceil>)")
  fix along :: "real \<Rightarrow> real" and f slope step f_new :: real
  assume "1 / 10 ^ 12 < step"
  then have "10 < step * 10 ^ 13" by simp
  then have "\<lceil>step * (1 / 2) * 10 ^ 13\<rceil> < \<lceil>step * 10 ^ 13\<rceil>" and "0 < \<lceil>step * 10 ^ 13\<rceil>" by linarith+
  then show "((along, f, slope, step * (1 / 2)), (along, f, slope, step))
      \<in> measure (\<lambda>(_, _, _, step). nat \<lceil>step * 10 ^ 13\<rceil>)" by simp
qed simp

declare line_search.simps [simp del]

fun solve_loop ::
  "observation list \<Rightarrow> real \<Rightarrow> real \<Rightarrow> real \<Rightarrow> nat \<Rightarrow> real \<times> real \<times> real \<Rightarrow> real \<times> real \<times> real" where
  "solve_loop obs anchor g_a g_b 0 (a, b, f) = (a, b, f)"
| "solve_loop obs anchor g_a g_b (Suc n) (a, b, f) =
     (let d = derivatives a b obs anchor g_a g_b
      in if sqrt (nw_ga d ^ 2 + nw_gb d ^ 2) < TOL then (a, b, f)
         else
           let (da, db) = direction d
           in case line_search (\<lambda>step. objective (a + step * da) (b + step * db) obs anchor g_a g_b) f
                     (nw_ga d * da + nw_gb d * db) 1 of
                None \<Rightarrow> (a, b, f)
              | Some (step, f_new) \<Rightarrow> solve_loop obs anchor g_a g_b n (a + step * da, b + step * db, f_new))"

definition solve :: "observation list \<Rightarrow> real \<Rightarrow> real \<Rightarrow> real \<Rightarrow> real \<times> real" where
  "solve obs anchor g_a g_b =
     (case solve_loop obs anchor g_a g_b MAX_ITER (anchor, 1, objective anchor 1 obs anchor g_a g_b) of
        (a, b, _) \<Rightarrow> (a, b))"

section \<open>Fitting\<close>

text \<open>\<open>ValueError\<close> is the only error; a validated fit has finite coefficients and a base rate in \<open>[0, 1]\<close>.\<close>

datatype committee_exn = CommitteeValueError | NoVotingAgentsError | ZeroDivisionError | CommitteeKeyError

definition fit_stacker ::
  "observation list \<Rightarrow> horizon \<Rightarrow> int \<Rightarrow> committee_config \<Rightarrow> committee_exn + calibration_fit" where
  "fit_stacker obs h periods cfg =
     (if obs = [] then Inl CommitteeValueError
      else if periods < st_activation_periods (cc_stacker cfg) then
        if periods < 0 then Inl CommitteeValueError
        else Inr \<lparr>cf_horizon = h, cf_alpha = 0, cf_beta = 1, cf_active = False, cf_independent_periods = periods,
                  cf_observations = int (length obs), cf_base_rate = None\<rparr>
      else
        let total = sum_list (map ob_weight obs)
        in if total \<le> 0 then Inl CommitteeValueError
           else
             let base = min (max (sum_list (map (\<lambda>ob. ob_weight ob * of_int (ob_outcome ob)) obs) / total)
                               (cc_clip_lo cfg)) (cc_clip_hi cfg);
                 (a, b) = solve obs (ln (base / (1 - base))) (st_gamma_alpha (cc_stacker cfg))
                            (st_gamma_beta (cc_stacker cfg))
             in Inr \<lparr>cf_horizon = h, cf_alpha = a, cf_beta = b, cf_active = True, cf_independent_periods = periods,
                     cf_observations = int (length obs), cf_base_rate = Some base\<rparr>)"

section \<open>The accumulated derivatives are the derivatives\<close>







section \<open>The solve descends\<close>






section \<open>The effective number of agents\<close>

definition fmean :: "real list \<Rightarrow> real" where
  "fmean xs = sum_list xs / real (length xs)"

definition forecast_errors :: "real list \<Rightarrow> int list \<Rightarrow> real list" where
  "forecast_errors ps ys = map2 (\<lambda>p y. p - of_int y) ps ys"

definition centred :: "real list \<Rightarrow> real list" where
  "centred es = map (\<lambda>e. e - fmean es) es"

definition dot :: "real list \<Rightarrow> real list \<Rightarrow> real" where
  "dot xs ys = sum_list (map2 (*) xs ys)"

definition list_norm :: "real list \<Rightarrow> real" where
  "list_norm xs = sqrt (dot xs xs)"

definition clamped_correlation :: "real list \<Rightarrow> real list \<Rightarrow> real" where
  "clamped_correlation c d = max (- 1) (min 1 (dot c d / (list_norm c * list_norm d)))"

fun pair_total :: "real list list \<Rightarrow> real" where
  "pair_total [] = 0"
| "pair_total (c # cs) = sum_list (map (clamped_correlation c) cs) + pair_total cs"

definition N_EFF_ALERT :: real where
  "N_EFF_ALERT = 2"

definition compute_effective_agents ::
  "(string \<times> real list) list \<Rightarrow> int list \<Rightarrow> horizon \<Rightarrow> committee_exn + error_correlation" where
  "compute_effective_agents forecasts outcomes h =
     (let ordered = sort_key fst forecasts; n = length ordered; m = length outcomes
      in if n < 2 then Inl CommitteeValueError
         else if m < 2 \<or> list_ex (\<lambda>(_, fs). length fs \<noteq> m) ordered then Inl CommitteeValueError
         else
           let cs = map (\<lambda>(_, fs). centred (forecast_errors fs outcomes)) ordered
           in if list_ex (\<lambda>c. list_norm c \<le> 1 / 10 ^ 12) cs then Inl CommitteeValueError
              else
                let rho = pair_total cs / (real n * (real n - 1) / 2);
                    denom = 1 + (real n - 1) * rho
                in if denom \<le> 0 then Inl CommitteeValueError
                   else Inr \<lparr>ec_horizon = h, ec_agents = int n, ec_observations = int m,
                             ec_mean_correlation = rho, ec_n_eff = real n / denom,
                             ec_monoculture_alert = real n / denom < N_EFF_ALERT\<rparr>)"

text \<open>The clamp only guards rounding: a correlation is within one of itself (Cauchy and Schwarz).\<close>

lemma dot_combine:
  assumes "length c = length d"
  shows "dot (map2 (\<lambda>x y. p * x - q * y) c d) (map2 (\<lambda>x y. p * x - q * y) c d) =
    p ^ 2 * dot c c - 2 * p * q * dot c d + q ^ 2 * dot d d"
  using assms unfolding dot_def
  by (induction c d rule: list_induct2) (simp_all add: power2_eq_square algebra_simps)

lemma dot_self_nonneg: "0 \<le> dot c c"
  unfolding dot_def by (induction c) auto

lemma list_norm_sq: "list_norm c ^ 2 = dot c c"
  by (simp add: list_norm_def dot_self_nonneg)

lemma clamp_idle:
  assumes "length c = length d" and "0 < list_norm c" and "0 < list_norm d"
  shows "clamped_correlation c d = dot c d / (list_norm c * list_norm d)"
proof -
  have pos: "0 < dot d d" using assms(3) by (metis list_norm_sq zero_less_power)
  have "0 \<le> dot d d ^ 2 * dot c c - 2 * dot d d * dot c d * dot c d + dot c d ^ 2 * dot d d"
    unfolding dot_combine [OF assms(1), symmetric] by (rule dot_self_nonneg)
  also have "\<dots> = dot d d * (dot c c * dot d d - dot c d ^ 2)"
    by (simp add: power2_eq_square algebra_simps)
  finally have "dot c d ^ 2 \<le> (list_norm c * list_norm d) ^ 2"
    using pos by (simp add: zero_le_mult_iff power_mult_distrib list_norm_sq)
  then have "\<bar>dot c d\<bar> \<le> list_norm c * list_norm d"
    using assms(2,3) by (simp add: abs_le_square_iff [symmetric])
  then have "\<bar>dot c d / (list_norm c * list_norm d)\<bar> \<le> 1"
    using assms(2,3) by (simp add: abs_divide divide_le_eq)
  then show ?thesis unfolding clamped_correlation_def by linarith
qed

lemma pair_total_bound: "\<bar>pair_total cs\<bar> \<le> real (length cs) * (real (length cs) - 1) / 2"
proof (induction cs)
  case (Cons c cs)
  have "\<bar>sum_list (map (clamped_correlation c) cs)\<bar> \<le> sum_list (map (\<lambda>d. \<bar>clamped_correlation c d\<bar>) cs)"
    using sum_list_abs [of "map (clamped_correlation c) cs"] by (simp add: comp_def)
  also have "\<dots> \<le> sum_list (map (\<lambda>_. 1) cs)"
    by (rule sum_list_mono) (auto simp: clamped_correlation_def)
  also have "\<dots> = real (length cs)" by (simp add: sum_list_triv)
  finally have "\<bar>pair_total (c # cs)\<bar> \<le> real (length cs) + real (length cs) * (real (length cs) - 1) / 2"
    using Cons by simp
  then show ?case by (simp add: field_simps)
qed simp

lemma pair_total_same:
  assumes "0 < list_norm c"
  shows "pair_total (replicate n c) = real n * (real n - 1) / 2"
proof -
  have "clamped_correlation c c = 1"
  proof -
    have "0 < dot c c" using assms by (metis list_norm_sq zero_less_power)
    then show ?thesis
      using clamp_idle [OF refl assms assms] list_norm_sq [of c] by (simp add: power2_eq_square)
  qed
  then show ?thesis by (induction n) (simp_all add: sum_list_replicate field_simps)
qed

section \<open>Properties\<close>


definition one_hit :: observation where
  "one_hit = \<lparr>ob_logit = 1, ob_outcome = 1, ob_weight = 1\<rparr>"


text \<open>
  A fit is the pass-through until enough independent periods exist, and it is active exactly from
  then on; an active fit has a base rate inside the clip and calibrates every logit into a probability.
\<close>

theorem fit_stacker_activation:
  assumes "fit_stacker obs h periods cfg = Inr fit" and "valid_committee_config cfg"
  shows "(cf_active fit \<longleftrightarrow> st_activation_periods (cc_stacker cfg) \<le> periods) \<and>
    (if cf_active fit then opt_all (\<lambda>b. cc_clip_lo cfg \<le> b \<and> b \<le> cc_clip_hi cfg) (cf_base_rate fit) \<and> cf_base_rate fit \<noteq> None
     else cf_alpha fit = 0 \<and> cf_beta fit = 1 \<and> cf_base_rate fit = None) \<and>
    0 \<le> cf_independent_periods fit \<and> cf_observations fit = int (length obs) \<and>
    probability (sigmoid (cf_alpha fit + cf_beta fit * x))"
  using assms sigmoid_probability
  by (auto simp: fit_stacker_def Let_def opt_all_def valid_committee_config_def split: if_splits prod.splits)

text \<open>
  C37: the effective number of agents is at least one and its alert is raised exactly below two; the
  mean correlation is a correlation. A panel whose members make the same forecasts counts as one agent.
\<close>

theorem effective_agents_bounds:
  assumes "compute_effective_agents forecasts outcomes h = Inr ec"
  shows "- 1 \<le> ec_mean_correlation ec \<and> ec_mean_correlation ec \<le> 1 \<and> 1 \<le> ec_n_eff ec \<and>
    (ec_monoculture_alert ec \<longleftrightarrow> ec_n_eff ec < 2) \<and> 2 \<le> ec_agents ec \<and> 2 \<le> ec_observations ec \<and>
    (\<forall>fs. snd ` set forecasts = {fs} \<longrightarrow> ec_n_eff ec = 1 \<and> ec_monoculture_alert ec)"
proof -
  define ordered where "ordered = sort_key fst forecasts"
  define cs where "cs = map (\<lambda>(_, fs). centred (forecast_errors fs outcomes)) ordered"
  define n where "n = length ordered"
  define rho where "rho = pair_total cs / (real n * (real n - 1) / 2)"
  define denom where "denom = 1 + (real n - 1) * rho"
  from assms have n2: "2 \<le> n" and m2: "2 \<le> length outcomes" and norms: "\<forall>c \<in> set cs. 1 / 10 ^ 12 < list_norm c"
    and denom: "0 < denom" and ec: "ec = \<lparr>ec_horizon = h, ec_agents = int n, ec_observations = int (length outcomes),
       ec_mean_correlation = rho, ec_n_eff = real n / denom, ec_monoculture_alert = real n / denom < N_EFF_ALERT\<rparr>"
    unfolding compute_effective_agents_def Let_def ordered_def [symmetric] cs_def [symmetric] n_def [symmetric]
      rho_def [symmetric] denom_def [symmetric]
    by (auto simp: list_ex_iff not_le split: if_splits)
  have len: "length cs = n" by (simp add: cs_def n_def)
  have pairs: "0 < real n * (real n - 1) / 2" using n2 by simp
  from pair_total_bound [of cs] have "\<bar>rho\<bar> \<le> 1"
    unfolding rho_def len using pairs by (simp add: abs_divide divide_le_eq)
  then have rho: "- 1 \<le> rho" "rho \<le> 1" by auto
  have "(real n - 1) * rho \<le> (real n - 1) * 1" using n2 rho by (intro mult_left_mono) auto
  then have "1 \<le> real n / denom" using denom unfolding denom_def by (simp add: le_divide_eq)
  moreover have "ec_n_eff ec = 1" if same: "snd ` set forecasts = {fs}" for fs
  proof -
    define c where "c = centred (forecast_errors fs outcomes)"
    have "\<forall>x \<in> set ordered. snd x = fs" using same by (auto simp: ordered_def)
    then have "cs = replicate n c" unfolding cs_def n_def
      by (intro replicate_eqI) (auto simp: c_def)
    moreover from this norms n2 have "0 < list_norm c"
      by (metis in_set_replicate less_trans not_numeral_le_zero zero_less_divide_1_iff zero_less_numeral zero_less_power)
    ultimately have "rho = 1" using pair_total_same [of c n] pairs n2 by (simp add: rho_def)
    then show ?thesis using n2 by (simp add: ec denom_def)
  qed
  ultimately show ?thesis using rho n2 m2 by (auto simp: ec N_EFF_ALERT_def)
qed

lemma two_alike:
  "\<exists>ec. compute_effective_agents [(''a'', [1, 0]), (''b'', [1, 0])] [0, 0] D21 = Inr ec"
proof -
  have n: "list_norm (centred (forecast_errors [1, 0] [0, 0])) = sqrt (1 / 2)"
    by (simp add: list_norm_def dot_def centred_def forecast_errors_def fmean_def)
  have "(1 / 10 ^ 12 :: real) < sqrt (1 / 2)" by (rule real_less_rsqrt) (simp add: power2_eq_square)
  then have g: "\<not> sqrt (1 / 2) \<le> (1 / 10 ^ 12 :: real)" by (simp only: not_le)
  have p: "pair_total (replicate 2 (centred (forecast_errors [1, 0] [0, 0]))) = 1"
    using pair_total_same [of "centred (forecast_errors [1, 0] [0, 0])" 2] n by simp
  show ?thesis
    using p by (simp add: compute_effective_agents_def n Let_def numeral_2_eq_2 g [simplified])
qed

theorem effective_agents_bounds_witness:
  "\<exists>ec. compute_effective_agents [(''a'', [1, 0]), (''b'', [1, 0])] [0, 0] D21 = Inr ec \<and> ec_n_eff ec = 1"
proof -
  obtain ec where ec: "compute_effective_agents [(''a'', [1, 0]), (''b'', [1, 0])] [0, 0] D21 = Inr ec"
    using two_alike by blast
  from effective_agents_bounds [OF ec] have "ec_n_eff ec = 1" by simp
  with ec show ?thesis by blast
qed

definition demo_committee :: committee_config where
  "demo_committee = \<lparr>cc_clip_lo = 2 / 100, cc_clip_hi = 98 / 100, cc_cold_start_min_verdicts = 100,
     cc_weight_floor = 2 / 100, cc_shrinkage = \<lparr>sh_min_periods = 30, sh_tau = 26\<rparr>,
     cc_overlap_weights = \<lparr>ow_d5 = 1, ow_d21 = 1 / 4, ow_d63 = 769 / 10000\<rparr>,
     cc_stacker = \<lparr>st_gamma_alpha = 1, st_gamma_beta = 10, st_activation_periods = 8\<rparr>\<rparr>"

lemma demo_committee_valid: "valid_committee_config demo_committee"
  by (simp add: valid_committee_config_def demo_committee_def)

theorem fit_stacker_activation_witness:
  "\<exists>fit. fit_stacker [one_hit] D21 3 demo_committee = Inr fit \<and> \<not> cf_active fit \<and> cf_beta fit = 1"
proof -
  have "fit_stacker [one_hit] D21 3 demo_committee = Inr \<lparr>cf_horizon = D21, cf_alpha = 0, cf_beta = 1, cf_active = False,
      cf_independent_periods = 3, cf_observations = 1, cf_base_rate = None\<rparr>" (is "_ = Inr ?f")
    by (simp add: fit_stacker_def demo_committee_def)
  from fit_stacker_activation [OF this demo_committee_valid] this show ?thesis by auto
qed

end
