(* ===== verification/Pooling.thy ===== *)
theory Pooling
  imports Stacker Commitment
begin

text \<open>
  Per-horizon logit pooling of the voting agents, \<open>committee/pooling.py\<close>: shrinkage of skill weights
  towards equal weights, the weight floor, and the pooled logit of an entity at every horizon. A
  mapping from agents to weights is an association list in the order of insertion.
\<close>

section \<open>History and skill\<close>

record agent_history =
  ah_forecasts :: "real list"
  ah_outcomes :: "int list"
  ah_independent_periods :: int

definition valid_history :: "agent_history \<Rightarrow> bool" where
  "valid_history h \<longleftrightarrow> length (ah_forecasts h) = length (ah_outcomes h)"

type_synonym history = "agent_name \<Rightarrow> horizon \<Rightarrow> agent_history option"

definition clipped_logit :: "real \<Rightarrow> real \<Rightarrow> real \<Rightarrow> real" where
  "clipped_logit p lo hi = (let q = min (max p lo) hi in ln (q / (1 - q)))"

fun p_outperform :: "agent_verdict \<Rightarrow> horizon \<Rightarrow> real" where
  "p_outperform v D5 = p_outperform_5 v"
| "p_outperform v D21 = p_outperform_21 v"
| "p_outperform v D63 = p_outperform_63 v"

definition brier :: "real list \<Rightarrow> int list \<Rightarrow> real \<Rightarrow> committee_exn + real" where
  "brier forecasts outcomes omega =
     (if length forecasts \<noteq> length outcomes then Inl CommitteeValueError
      else if outcomes = [] then Inl ZeroDivisionError
      else Inr (sum_list (map2 (\<lambda>p y. omega * (p - of_int y) ^ 2) forecasts outcomes) / real (length outcomes)))"

text \<open>The periods of every voter, or none when one has no history.\<close>

fun voter_periods :: "history \<Rightarrow> horizon \<Rightarrow> agent_name list \<Rightarrow> int list option" where
  "voter_periods hist h [] = Some []"
| "voter_periods hist h (a # as) =
     (case hist a h of
        None \<Rightarrow> None
      | Some x \<Rightarrow> map_option (\<lambda>ps. ah_independent_periods x # ps) (voter_periods hist h as))"

definition lambda_t :: "agent_name list \<Rightarrow> horizon \<Rightarrow> history option \<Rightarrow> committee_config \<Rightarrow> real" where
  "lambda_t agents h hist cfg =
     (case hist of
        None \<Rightarrow> 0
      | Some hs \<Rightarrow>
          (case voter_periods hs h agents of
             None \<Rightarrow> 0
           | Some periods \<Rightarrow>
               let t = Min (set periods); t_w = sh_min_periods (cc_shrinkage cfg)
               in if t \<le> t_w then 0 else 1 - exp (- of_int (t - t_w) / sh_tau (cc_shrinkage cfg))))"

definition agent_skill :: "agent_history \<Rightarrow> real \<Rightarrow> real \<Rightarrow> committee_exn + real" where
  "agent_skill h base_rate omega =
     bindr (brier (replicate (length (ah_outcomes h)) base_rate) (ah_outcomes h) omega) (\<lambda>base.
       if 0 < base then
         bindr (brier (ah_forecasts h) (ah_outcomes h) omega) (\<lambda>b. Inr (max 0 (1 - b / base)))
       else Inr 0)"

fun agent_skills :: "history \<Rightarrow> horizon \<Rightarrow> real \<Rightarrow> real \<Rightarrow> agent_name list \<Rightarrow> committee_exn + (agent_name \<times> real) list" where
  "agent_skills hist h base_rate omega [] = Inr []"
| "agent_skills hist h base_rate omega (a # as) =
     (case hist a h of
        None \<Rightarrow> Inl CommitteeKeyError
      | Some x \<Rightarrow>
          bindr (agent_skill x base_rate omega) (\<lambda>s.
          bindr (agent_skills hist h base_rate omega as) (\<lambda>ss. Inr ((a, s) # ss))))"

definition skill_weights :: "agent_name list \<Rightarrow> horizon \<Rightarrow> history \<Rightarrow> real \<Rightarrow> real \<Rightarrow> committee_exn + (agent_name \<times> real) list" where
  "skill_weights agents h hist base_rate omega =
     bindr (agent_skills hist h base_rate omega agents) (\<lambda>skill.
       let total = sum_list (map snd skill)
       in if total \<le> 0 then Inr (map (\<lambda>a. (a, 1 / real (length agents))) agents)
          else Inr (map (\<lambda>(a, s). (a, s / total)) skill))"

section \<open>The weight floor\<close>

lemma filter_shrinks:
  assumes "\<And>x. Q x \<Longrightarrow> P x" and "x \<in> set xs" and "P x" and "\<not> Q x"
  shows "length (filter Q xs) < length (filter P xs)"
proof -
  have "filter Q xs = filter Q (filter P xs)"
    using assms(1) by (simp add: filter_filter) (metis (mono_tags, lifting))
  moreover have "length (filter Q (filter P xs)) < length (filter P xs)"
    using assms(2-4) by (intro length_filter_less) auto
  ultimately show ?thesis by simp
qed

text \<open>
  \<open>_apply_floor\<close>: agents below the floor are pinned to it and the rest rescaled, until no rescaled
  agent falls below. Each round pins a free agent, so the loop ends.
\<close>

function floor_loop :: "('a \<times> real) list \<Rightarrow> real \<Rightarrow> 'a list \<Rightarrow> ('a \<times> real) list" where
  "floor_loop raw fl pinned =
     (let free = filter (\<lambda>(a, _). a \<notin> set pinned) raw;
          remaining = 1 - fl * real (length pinned);
          free_sum = sum_list (map snd free)
      in if free = [] \<or> free_sum \<le> 0 then map (\<lambda>(a, _). (a, 1 / real (length raw))) raw
         else
           let newly = map fst (filter (\<lambda>(_, w). w * remaining / free_sum < fl) free)
           in if newly = []
              then map (\<lambda>(a, w). (a, if a \<in> set pinned then fl else w * remaining / free_sum)) raw
              else floor_loop raw fl (pinned @ newly))"
  by pat_completeness auto

termination
proof (relation "measure (\<lambda>(raw, _, pinned). length (filter (\<lambda>(a, _). a \<notin> set pinned) raw))", goal_cases)
  case (2 raw fl pinned free remaining free_sum newly)
  then obtain a where a: "a \<in> set newly" by (metis list.set_intros(1) neq_Nil_conv)
  with 2 obtain w where w: "(a, w) \<in> set raw" "a \<notin> set pinned" by auto
  have "length (filter (\<lambda>(b, _). b \<notin> set (pinned @ newly)) raw) < length (filter (\<lambda>(b, _). b \<notin> set pinned) raw)"
    by (rule filter_shrinks [OF _ w(1)]) (use a w(2) in auto)
  then show ?case by simp
qed simp

declare floor_loop.simps [simp del]

definition apply_floor :: "('a \<times> real) list \<Rightarrow> real \<Rightarrow> ('a \<times> real) list" where
  "apply_floor raw fl = floor_loop raw fl (map fst (filter (\<lambda>(_, w). w < fl) raw))"

section \<open>Pooling\<close>

text \<open>\<open>pstdev\<close>: the population standard deviation.\<close>

definition pstdev :: "real list \<Rightarrow> real" where
  "pstdev xs = sqrt (sum_list (map (\<lambda>x. (x - fmean xs) ^ 2) xs) / real (length xs))"

definition weight_in :: "(agent_name \<times> real) list \<Rightarrow> agent_name \<Rightarrow> real" where
  "weight_in ws a = (case map_of ws a of None \<Rightarrow> 0 | Some w \<Rightarrow> w)"

definition raw_weights ::
  "agent_name list \<Rightarrow> horizon \<Rightarrow> (horizon \<Rightarrow> real option) \<Rightarrow> committee_config \<Rightarrow> history option
   \<Rightarrow> committee_exn + (agent_name \<times> real) list" where
  "raw_weights agents h base_rates cfg hist =
     (let lam = lambda_t agents h hist cfg; equal = 1 / real (length agents)
      in bindr (case hist of
                  Some hs \<Rightarrow>
                    if 0 < lam then
                      (case base_rates h of
                         None \<Rightarrow> Inl CommitteeKeyError
                       | Some b \<Rightarrow> skill_weights agents h hs b (for_horizon (cc_overlap_weights cfg) h))
                    else Inr (map (\<lambda>a. (a, equal)) agents)
                | None \<Rightarrow> Inr (map (\<lambda>a. (a, equal)) agents)) (\<lambda>skill.
           Inr (map (\<lambda>a. (a, (1 - lam) * equal + lam * weight_in skill a)) agents)))"

definition pool_horizon ::
  "agent_verdict list \<Rightarrow> (horizon \<Rightarrow> real option) \<Rightarrow> committee_config \<Rightarrow> history option \<Rightarrow> horizon
   \<Rightarrow> committee_exn + horizon_pool" where
  "pool_horizon voters base_rates cfg hist h =
     (let agents = map av_agent voters;
          z = map (\<lambda>v. clipped_logit (p_outperform v h) (cc_clip_lo cfg) (cc_clip_hi cfg)) voters
      in bindr (raw_weights agents h base_rates cfg hist) (\<lambda>raw.
           let w = apply_floor raw (cc_weight_floor cfg);
               p = \<lparr>hp_horizon = h, hp_logit = sum_list (map2 (\<lambda>a x. weight_in w a * x) agents z),
                    hp_lambda_t = lambda_t agents h hist cfg,
                    hp_dispersion = (if 1 < length z then pstdev z else 0),
                    hp_weights = map (\<lambda>a. \<lparr>aw_agent = a, aw_weight = weight_in w a\<rparr>) agents\<rparr>
           in if valid_horizon_pool p then Inr p else Inl CommitteeValueError))"

fun pool_horizons ::
  "agent_verdict list \<Rightarrow> (horizon \<Rightarrow> real option) \<Rightarrow> committee_config \<Rightarrow> history option \<Rightarrow> horizon list
   \<Rightarrow> committee_exn + horizon_pool list" where
  "pool_horizons voters base_rates cfg hist [] = Inr []"
| "pool_horizons voters base_rates cfg hist (h # hs) =
     bindr (pool_horizon voters base_rates cfg hist h) (\<lambda>p.
     bindr (pool_horizons voters base_rates cfg hist hs) (\<lambda>ps. Inr (p # ps)))"

definition votes :: "agent_verdict \<Rightarrow> bool" where
  "votes v \<longleftrightarrow> av_valid v \<and> av_data_sufficiency v \<noteq> INSUFFICIENT"

definition voters_of :: "agent_verdict list \<Rightarrow> agent_verdict list" where
  "voters_of verdicts = sort_key (\<lambda>v. agent_value (av_agent v)) (filter votes verdicts)"

definition pool_agent_verdicts ::
  "agent_verdict list \<Rightarrow> (horizon \<Rightarrow> real option) \<Rightarrow> committee_config \<Rightarrow> history option
   \<Rightarrow> committee_exn + pooled_forecast" where
  "pool_agent_verdicts verdicts base_rates cfg hist =
     (if \<not> distinct (map av_agent verdicts) then Inl CommitteeValueError
      else if 1 < card (av_entity_token ` set verdicts) then Inl CommitteeValueError
      else
        case voters_of verdicts of
          [] \<Rightarrow> Inl NoVotingAgentsError
        | v # vs \<Rightarrow>
            bindr (pool_horizons (v # vs) base_rates cfg hist all_horizons) (\<lambda>ps.
              Inr \<lparr>pf_entity_token = av_entity_token v, pf_pools = ps\<rparr>))"

section \<open>The floor keeps a distribution\<close>

definition distribution :: "('a \<times> real) list \<Rightarrow> bool" where
  "distribution ws \<longleftrightarrow> distinct (map fst ws) \<and> (\<forall>(a, w) \<in> set ws. 0 \<le> w) \<and> sum_list (map snd ws) = 1"





lemma apply_floor_idle:
  assumes "distribution raw" and "\<forall>(a, w) \<in> set raw. fl \<le> w"
  shows "apply_floor raw fl = raw"
proof -
  from assms(2) have low: "filter (\<lambda>(_, w). w < fl) raw = []" by (auto simp: filter_empty_conv)
  from assms(1) have s: "sum_list (map snd raw) = 1" and ne: "raw \<noteq> []" by (auto simp: distribution_def)
  have f: "filter (\<lambda>(a, _). True) raw = raw" "filter (\<lambda>x. True) raw = raw" by (auto simp: filter_id_conv)
  show ?thesis
    unfolding apply_floor_def low
    by (subst floor_loop.simps) (use s ne low in \<open>auto simp: Let_def case_prod_beta f\<close>)
qed

section \<open>The weights of a pool\<close>

lemma equal_distribution:
  "distinct agents \<Longrightarrow> agents \<noteq> [] \<Longrightarrow> distribution (map (\<lambda>a. (a, 1 / real (length agents))) agents)"
  by (simp add: distribution_def comp_def sum_list_triv)









section \<open>What a pool promises\<close>






lemma inj_agent_value: "inj agent_value"
proof (rule injI)
  fix a b assume "agent_value a = agent_value b"
  then show "a = b" by (cases a; cases b) simp_all
qed

lemma voters_of_set: "set (voters_of vs) = {v \<in> set vs. votes v}"
  by (auto simp: voters_of_def)

lemma voters_of_distinct: "distinct (map av_agent vs) \<Longrightarrow> distinct (map av_agent (voters_of vs))"
proof -
  assume "distinct (map av_agent vs)"
  then have "distinct (map av_agent (filter votes vs))" by (rule distinct_map_filter)
  moreover have "mset (map av_agent (voters_of vs)) = mset (map av_agent (filter votes vs))"
    by (simp add: voters_of_def)
  ultimately show ?thesis by (metis mset_eq_imp_distinct_iff)
qed

lemma pool_horizons_InrD:
  "pool_horizons voters base cfg hist hs = Inr ps \<Longrightarrow> length ps = length hs \<and>
     (\<forall>(h, p) \<in> set (zip hs ps). pool_horizon voters base cfg hist h = Inr p)"
  by (induction hs arbitrary: ps) (auto simp: bindr_Inr_iff)

lemma pool_InrD:
  assumes "pool_agent_verdicts vs base cfg hist = Inr f"
  shows "distinct (map av_agent vs) \<and> voters_of vs \<noteq> [] \<and> pf_entity_token f \<in> av_entity_token ` set vs \<and>
    length (pf_pools f) = length all_horizons \<and>
    (\<forall>(h, p) \<in> set (zip all_horizons (pf_pools f)). pool_horizon (voters_of vs) base cfg hist h = Inr p)"
proof -
  from assms obtain v rest ps where v: "voters_of vs = v # rest" and d: "distinct (map av_agent vs)"
    and ps: "pool_horizons (v # rest) base cfg hist all_horizons = Inr ps"
    and f: "f = \<lparr>pf_entity_token = av_entity_token v, pf_pools = ps\<rparr>"
    by (auto simp: pool_agent_verdicts_def bindr_Inr_iff split: if_splits list.splits)
  from voters_of_set [of vs] v have "v \<in> set vs" by auto
  with pool_horizons_InrD [OF ps] v d f show ?thesis by auto
qed

section \<open>Properties\<close>


text \<open>
  C34: before there is any history, pooling is the plain average: every voter has the same weight, no
  shrinkage is applied, and the pooled logit is the mean of the voters' clipped logits.
\<close>

theorem pool_cold_start:
  assumes "pool_agent_verdicts vs base cfg None = Inr f" and "valid_committee_config cfg"
    and "\<And>v. v \<in> set vs \<Longrightarrow> valid_agent_verdict v" and "(h, p) \<in> set (zip all_horizons (pf_pools f))"
  shows "hp_lambda_t p = 0 \<and> map aw_weight (hp_weights p) = replicate (length (voters_of vs)) (1 / real (length (voters_of vs))) \<and>
    hp_logit p = fmean (map (\<lambda>v. clipped_logit (p_outperform v h) (cc_clip_lo cfg) (cc_clip_hi cfg)) (voters_of vs))"
proof -
  let ?v = "voters_of vs" let ?as = "map av_agent (voters_of vs)"
  define raw where "raw = map (\<lambda>a. (a, 1 / real (length ?as))) ?as"
  from pool_InrD [OF assms(1)] assms(4) have d: "distinct ?as" and ne: "?v \<noteq> []"
    and p: "pool_horizon ?v base cfg None h = Inr p" by (auto simp: voters_of_distinct)
  have raw: "raw_weights ?as h base cfg None = Inr raw" by (simp add: raw_def raw_weights_def lambda_t_def)
  have dist: "distribution raw" unfolding raw_def by (rule equal_distribution [OF d]) (use ne in simp)
  have "set ?as \<subseteq> VOTING_AGENTS" using assms(3) by (auto simp: voters_of_set valid_agent_verdict_def)
  then have "length ?as \<le> card VOTING_AGENTS"
    using distinct_card [OF d] card_mono [of VOTING_AGENTS "set ?as"] by (simp add: VOTING_AGENTS_def)
  then have "cc_weight_floor cfg * real (length ?as) \<le> cc_weight_floor cfg * real (card VOTING_AGENTS)"
    using assms(2) by (intro mult_left_mono) (auto simp: valid_committee_config_def)
  also have "\<dots> \<le> 1" using assms(2) by (simp add: valid_committee_config_def)
  finally have low: "cc_weight_floor cfg \<le> 1 / real (length ?as)" using ne by (simp add: field_simps)
  have "apply_floor raw (cc_weight_floor cfg) = raw" by (rule apply_floor_idle [OF dist]) (use low in \<open>auto simp: raw_def\<close>)
  moreover have "weight_in raw a = 1 / real (length ?as)" if "a \<in> set ?as" for a
  proof -
    have "distinct (map fst raw)" using d by (simp add: raw_def comp_def)
    from map_of_is_SomeI [OF this, of a "1 / real (length ?as)"] that show ?thesis by (auto simp: weight_in_def raw_def)
  qed
  ultimately have w: "weight_in (apply_floor raw (cc_weight_floor cfg)) (av_agent v) = 1 / real (length ?v)"
    if "v \<in> set ?v" for v using that by simp
  let ?z = "\<lambda>v. clipped_logit (p_outperform v h) (cc_clip_lo cfg) (cc_clip_hi cfg)"
  have "sum_list (map2 (\<lambda>a x. weight_in (apply_floor raw (cc_weight_floor cfg)) a * x) ?as (map ?z ?v)) =
      sum_list (map (\<lambda>v. ?z v * (1 / real (length ?v))) ?v)"
    unfolding map2_map_map by (rule arg_cong [where f = sum_list]) (auto simp: w comp_def)
  also have "\<dots> = sum_list (map ?z ?v) * (1 / real (length ?v))" by (rule sum_list_mult_const)
  finally have logit: "sum_list (map2 (\<lambda>a x. weight_in (apply_floor raw (cc_weight_floor cfg)) a * x) ?as (map ?z ?v)) =
      fmean (map ?z ?v)" by (simp add: fmean_def)
  have "map (\<lambda>a. weight_in (apply_floor raw (cc_weight_floor cfg)) a) ?as = replicate (length ?v) (1 / real (length ?v))"
    by (intro replicate_eqI) (auto simp: w)
  with p raw logit show ?thesis
    by (auto simp: pool_horizon_def Let_def lambda_t_def comp_def split: if_splits)
qed

text \<open>C35: the order in which the verdicts of an entity arrive does not matter.\<close>

theorem pool_order_independent:
  assumes "mset vs = mset vs'"
  shows "pool_agent_verdicts vs base cfg hist = pool_agent_verdicts vs' base cfg hist"
proof -
  have s: "set vs = set vs'" using assms by (rule mset_eq_setD)
  have d: "distinct (map av_agent vs) \<longleftrightarrow> distinct (map av_agent vs')"
    using assms by (metis mset_eq_imp_distinct_iff mset_map)
  have "voters_of vs = voters_of vs'" if "distinct (map av_agent vs)"
    unfolding voters_of_def
  proof (rule sort_key_mset_eq)
    show "mset (filter votes vs) = mset (filter votes vs')" using assms by (simp add: mset_filter)
    from that have "inj_on av_agent (set vs)" by (simp add: distinct_map)
    then show "inj_on (\<lambda>v. agent_value (av_agent v)) (set (filter votes vs))"
      using inj_agent_value by (auto simp: inj_on_def)
  qed
  then show ?thesis using s d by (auto simp: pool_agent_verdicts_def)
qed

section \<open>A concrete panel\<close>

definition demo_verdict :: "agent_name \<Rightarrow> real \<Rightarrow> agent_verdict" where
  "demo_verdict a p = \<lparr>av_stance = HOLD, p_outperform_5 = p, p_outperform_21 = p, p_outperform_63 = p,
     av_key_evidence = [\<lparr>ev_source = FEED_NEWS, ev_row_id = ''n1'', ev_note = ''x''\<rparr>], av_risks = [],
     av_data_sufficiency = FULL, av_run_id = ''r'', av_agent = a, av_entity_token = ''CO_01'', av_as_of = 5,
     av_prompt_version = ''v1'', av_model_served = ''m'', av_valid = True\<rparr>"

lemma demo_verdict_valid: "a \<in> VOTING_AGENTS \<Longrightarrow> probability p \<Longrightarrow> valid_agent_verdict (demo_verdict a p)"
  by (simp add: valid_agent_verdict_def valid_agent_verdict_llm_def demo_verdict_def entity_token_ok_def upper_char_def
      digit_char_def label_ok_def valid_evidence_ref_def)

definition demo_pool :: "horizon \<Rightarrow> horizon_pool" where
  "demo_pool h = \<lparr>hp_horizon = h, hp_logit = clipped_logit (1 / 2) (2 / 100) (98 / 100), hp_lambda_t = 0, hp_dispersion = 0,
     hp_weights = [\<lparr>aw_agent = VALUE, aw_weight = 1\<rparr>]\<rparr>"

lemma demo_pooled:
  "pool_agent_verdicts [demo_verdict VALUE (1 / 2)] (\<lambda>_. None) demo_committee None =
     Inr \<lparr>pf_entity_token = ''CO_01'', pf_pools = map demo_pool all_horizons\<rparr>"
proof -
  have v: "voters_of [demo_verdict VALUE (1 / 2)] = [demo_verdict VALUE (1 / 2)]"
    by (simp add: voters_of_def votes_def demo_verdict_def)
  have fl: "apply_floor [(VALUE, 1)] (2 / 100) = [(VALUE, 1 :: real)]"
    by (rule apply_floor_idle) (simp_all add: distribution_def)
  have one: "pool_horizon [demo_verdict VALUE (1 / 2)] (\<lambda>_. None) demo_committee None h = Inr (demo_pool h)" for h
    using fl by (cases h) (simp_all add: pool_horizon_def raw_weights_def lambda_t_def demo_verdict_def demo_committee_def
        demo_pool_def weight_in_def valid_horizon_pool_def probability_def VOTING_AGENTS_def Let_def)
  have t: "av_entity_token (demo_verdict VALUE (1 / 2)) = ''CO_01''" by (simp add: demo_verdict_def)
  show ?thesis by (simp add: pool_agent_verdicts_def v one t all_horizons_def)
qed


theorem pool_cold_start_witness: "hp_logit (demo_pool D5) = fmean [clipped_logit (1 / 2) (2 / 100) (98 / 100)]"
proof -
  have v: "valid_agent_verdict (demo_verdict VALUE (1 / 2))"
    by (rule demo_verdict_valid) (simp_all add: VOTING_AGENTS_def probability_def)
  have w: "voters_of [demo_verdict VALUE (1 / 2)] = [demo_verdict VALUE (1 / 2)]"
    by (simp add: voters_of_def votes_def demo_verdict_def)
  from pool_cold_start [OF demo_pooled demo_committee_valid, of D5 "demo_pool D5"] v w show ?thesis
    by (simp add: all_horizons_def demo_verdict_def demo_committee_def)
qed

theorem pool_order_independent_witness:
  "pool_agent_verdicts [demo_verdict VALUE (1 / 2), demo_verdict INSIDER (1 / 3)] (\<lambda>_. None) demo_committee None =
   pool_agent_verdicts [demo_verdict INSIDER (1 / 3), demo_verdict VALUE (1 / 2)] (\<lambda>_. None) demo_committee None"
  by (rule pool_order_independent) simp

end
