(* ===== verification/Sizing.thy ===== *)
theory Sizing
  imports Pooling
begin

text \<open>
  Deterministic sizing and portfolio constraints, \<open>risk/sizing.py\<close>. A dictionary of weights is an
  association list in the order of insertion; a lookup of a missing sector or volatility is the
  \<open>KeyError\<close> the code raises.
\<close>

type_synonym weights = "(int \<times> real) list"

fun dict_set :: "'k \<Rightarrow> 'v \<Rightarrow> ('k \<times> 'v) list \<Rightarrow> ('k \<times> 'v) list" where
  "dict_set k v [] = [(k, v)]"
| "dict_set k v ((k', v') # xs) = (if k = k' then (k, v) # xs else (k', v') # dict_set k v xs)"

definition portfolio_vol :: "weights \<Rightarrow> (int \<Rightarrow> real option) \<Rightarrow> committee_exn + real" where
  "portfolio_vol ws vols =
     (if list_ex (\<lambda>(sid, _). vols sid = None) ws then Inl CommitteeKeyError
      else Inr (sqrt (sum_list (map (\<lambda>(sid, w). (w * the (vols sid)) ^ 2) ws))))"

definition sector_total :: "(int \<Rightarrow> string option) \<Rightarrow> string \<Rightarrow> weights \<Rightarrow> real" where
  "sector_total sectors sector ws = sum_list (map snd (filter (\<lambda>(sid, _). sectors sid = Some sector) ws))"

definition cap_sector :: "(int \<Rightarrow> string option) \<Rightarrow> real \<Rightarrow> string \<Rightarrow> weights \<Rightarrow> weights" where
  "cap_sector sectors cap sector ws =
     (let total = sector_total sectors sector ws;
          scale = (if total \<noteq> 0 then min 1 (cap / total) else 1)
      in map (\<lambda>(sid, w). (sid, if sectors sid = Some sector then w * scale else w)) ws)"

definition cap_sectors :: "weights \<Rightarrow> (int \<Rightarrow> string option) \<Rightarrow> real \<Rightarrow> committee_exn + weights" where
  "cap_sectors ws sectors cap =
     (if list_ex (\<lambda>(sid, _). sectors sid = None) ws then Inl CommitteeKeyError
      else Inr (fold (cap_sector sectors cap) (sorted_list_of_set ((\<lambda>(sid, _). the (sectors sid)) ` set ws)) ws))"

definition drop_dust :: "real \<Rightarrow> weights \<Rightarrow> weights" where
  "drop_dust lo ws = map (\<lambda>(sid, w). (sid, if lo \<le> w then w else 0)) ws"

text \<open>The common end of both sizings: the volatility target, gross at most one, the final floor.\<close>

definition limit_scale :: "risk_config \<Rightarrow> real \<Rightarrow> real \<Rightarrow> real" where
  "limit_scale cfg vol gross =
     (let scale = (if vol \<noteq> 0 then min 1 (rc_vol_target_annual cfg / vol) else 1)
      in if gross \<noteq> 0 then min scale (1 / gross) else scale)"

definition scale_to_limits :: "risk_config \<Rightarrow> (int \<Rightarrow> real option) \<Rightarrow> weights \<Rightarrow> committee_exn + weights" where
  "scale_to_limits cfg vols ws =
     bindr (portfolio_vol ws vols) (\<lambda>vol.
       let scale = limit_scale cfg vol (sum_list (map snd ws))
       in Inr (drop_dust (rc_min_position cfg) (map (\<lambda>(sid, w). (sid, w * scale)) ws)))"

definition positions_of ::
  "(int \<Rightarrow> string) \<Rightarrow> (int \<Rightarrow> string option) \<Rightarrow> (int \<Rightarrow> real) \<Rightarrow> weights \<Rightarrow> proposed_position list" where
  "positions_of token sectors p ws =
     map (\<lambda>(sid, w). \<lparr>pp_security_id = sid, pp_entity_token = token sid, pp_sector = the (sectors sid),
                      pp_pooled_p = p sid, pp_target_weight = w\<rparr>)
       (filter (\<lambda>(_, w). 0 < w) (sort_key fst ws))"

definition checked_book :: "uuid \<Rightarrow> instant \<Rightarrow> proposed_position list \<Rightarrow> committee_exn + proposed_book" where
  "checked_book rid as_of ps =
     (let b = \<lparr>pb_run_id = rid, pb_as_of = as_of, pb_positions = ps\<rparr>
      in if valid_book b then Inr b else Inl CommitteeValueError)"

section \<open>The baseline\<close>

definition severity_or_low :: "bear_severity option \<Rightarrow> bear_severity" where
  "severity_or_low b = (case b of None \<Rightarrow> LOW | Some x \<Rightarrow> x)"

definition baseline_weight :: "risk_config \<Rightarrow> (int \<Rightarrow> real option) \<Rightarrow> committee_decision \<Rightarrow> real" where
  "baseline_weight cfg vols d =
     (let sigma = (case vols (dec_security_id d) of None \<Rightarrow> 0 | Some x \<Rightarrow> x);
          edge = dec_pooled_p d - 1 / 2
      in if dec_pooled_p d < rc_entry_threshold cfg \<or> sigma \<le> 0 \<or> edge \<le> 0 then 0
         else
           let bear = rc_bear_multiplier cfg (severity_or_low (dec_bear_severity d));
               w = min (rc_k cfg * edge / sigma * (max 0 (1 - rc_dispersion_lambda cfg * dec_dispersion d) * bear))
                     (rc_max_position cfg)
           in if w < rc_min_position cfg then 0 else w)"

definition size_book ::
  "committee_decision list \<Rightarrow> (int \<Rightarrow> string option) \<Rightarrow> (int \<Rightarrow> real option) \<Rightarrow> risk_config
   \<Rightarrow> committee_exn + proposed_book" where
  "size_book decisions sectors vols cfg =
     (case decisions of
        [] \<Rightarrow> Inl CommitteeValueError
      | d0 # _ \<Rightarrow>
          let ws = fold (\<lambda>d. dict_set (dec_security_id d) (baseline_weight cfg vols d)) decisions [];
              by_id = map_of (rev (map (\<lambda>d. (dec_security_id d, d)) decisions))
          in bindr (cap_sectors ws sectors (rc_max_sector cfg)) (\<lambda>capped.
             bindr (scale_to_limits cfg vols capped) (\<lambda>final.
               checked_book (dec_run_id d0) (dec_as_of d0)
                 (positions_of (\<lambda>sid. dec_entity_token (the (by_id sid))) sectors
                    (\<lambda>sid. dec_pooled_p (the (by_id sid))) final))))"

section \<open>The committee\<close>

fun scores :: "horizon \<Rightarrow> (int \<times> pooled_forecast) list \<Rightarrow> committee_exn + (int \<times> real \<times> real) list" where
  "scores h [] = Inr []"
| "scores h ((sid, f) # rest) =
     (case pf_pool f h of
        None \<Rightarrow> Inl CommitteeKeyError
      | Some p \<Rightarrow> bindr (scores h rest) (\<lambda>ss. Inr ((sid, hp_logit p, hp_dispersion p) # ss)))"

definition s_bear :: "risk_config \<Rightarrow> (int \<Rightarrow> bear_severity option) \<Rightarrow> int \<Rightarrow> real" where
  "s_bear cfg bear sid = rc_bear_multiplier cfg (severity_or_low (bear sid))"

definition rank_weights ::
  "risk_config \<Rightarrow> (int \<Rightarrow> bear_severity option) \<Rightarrow> (int \<Rightarrow> real option) \<Rightarrow> (int \<times> real \<times> real) list \<Rightarrow> weights" where
  "rank_weights cfg bear vols eligible =
     (let top = map fst (take (rc_rank_top_m cfg) (sort_key (\<lambda>(sid, l, _). (- l, sid)) eligible));
          total = sum_list (map (\<lambda>sid. 1 / the (vols sid)) top)
      in map (\<lambda>sid. (sid, 1 / the (vols sid) / total * s_bear cfg bear sid)) top)"

definition edge_of :: "calibration_fit \<Rightarrow> real \<Rightarrow> real \<Rightarrow> real" where
  "edge_of fit base l = sigmoid (cf_alpha fit + cf_beta fit * l) - base"

definition edge_weights ::
  "risk_config \<Rightarrow> (int \<Rightarrow> bear_severity option) \<Rightarrow> (int \<Rightarrow> real option) \<Rightarrow> calibration_fit \<Rightarrow> real
   \<Rightarrow> (int \<times> real \<times> real) list \<Rightarrow> weights" where
  "edge_weights cfg bear vols fit base eligible =
     map (\<lambda>(sid, l, disp).
         (sid, rc_committee_k cfg * edge_of fit base l / the (vols sid)
                 * max 0 (1 - rc_committee_dispersion_lambda cfg * disp) * s_bear cfg bear sid))
       (filter (\<lambda>(sid, l, _). rc_edge_hurdle cfg \<le> edge_of fit base l) eligible)"

definition eligible_scores :: "(int \<Rightarrow> real option) \<Rightarrow> (int \<times> real \<times> real) list \<Rightarrow> (int \<times> real \<times> real) list" where
  "eligible_scores vols scored = filter (\<lambda>(sid, _). case vols sid of None \<Rightarrow> False | Some x \<Rightarrow> 0 < x) scored"

definition raw_committee_weights ::
  "risk_config \<Rightarrow> (int \<Rightarrow> bear_severity option) \<Rightarrow> (int \<Rightarrow> real option) \<Rightarrow> calibration_fit
   \<Rightarrow> (int \<times> real \<times> real) list \<Rightarrow> committee_exn + weights" where
  "raw_committee_weights cfg bear vols fit eligible =
     (if \<not> cf_active fit then Inr (rank_weights cfg bear vols eligible)
      else case cf_base_rate fit of
             None \<Rightarrow> Inl CommitteeValueError
           | Some base \<Rightarrow> Inr (edge_weights cfg bear vols fit base eligible))"

definition size_committee_book ::
  "uuid \<Rightarrow> instant \<Rightarrow> (int \<times> pooled_forecast) list \<Rightarrow> (int \<Rightarrow> bear_severity option) \<Rightarrow> (int \<Rightarrow> string option)
   \<Rightarrow> (int \<Rightarrow> real option) \<Rightarrow> calibration_fit \<Rightarrow> risk_config \<Rightarrow> committee_exn + proposed_book" where
  "size_committee_book rid as_of pooled bear sectors vols fit cfg =
     bindr (scores (cf_horizon fit) pooled) (\<lambda>scored.
     bindr (raw_committee_weights cfg bear vols fit (eligible_scores vols scored)) (\<lambda>raw.
     bindr (cap_sectors (map (\<lambda>(sid, w). (sid, min (max w 0) (rc_max_position cfg))) raw) sectors (rc_max_sector cfg)) (\<lambda>capped.
     bindr (scale_to_limits cfg vols (drop_dust (rc_min_position cfg) capped)) (\<lambda>final.
       checked_book rid as_of
         (positions_of (\<lambda>sid. pf_entity_token (the (map_of pooled sid))) sectors
            (\<lambda>sid. sigmoid (cf_alpha fit + cf_beta fit * fst (the (map_of scored sid)))) final)))))"

definition with_target_weights :: "committee_decision list \<Rightarrow> proposed_book \<Rightarrow> committee_decision list" where
  "with_target_weights decisions book =
     map (\<lambda>d. d\<lparr>dec_target_weight :=
            (case map_of (rev (map (\<lambda>p. (pp_security_id p, pp_target_weight p)) (pb_positions book))) (dec_security_id d) of
               None \<Rightarrow> 0 | Some w \<Rightarrow> w)\<rparr>) decisions"

section \<open>Shrinking\<close>

text \<open>Every later step of a sizing keeps the names and only lowers their non-negative weights.\<close>

definition shrunk :: "weights \<Rightarrow> weights \<Rightarrow> bool" where
  "shrunk ws ws' \<longleftrightarrow> list_all2 (\<lambda>(s, w) (s', w'). s' = s \<and> 0 \<le> w' \<and> w' \<le> w) ws ws'"

definition nonneg :: "weights \<Rightarrow> bool" where
  "nonneg ws \<longleftrightarrow> (\<forall>(_, w) \<in> set ws. 0 \<le> w)"

lemma shrunk_refl: "nonneg ws \<Longrightarrow> shrunk ws ws"
  unfolding shrunk_def nonneg_def by (auto intro: list.rel_refl_strong)

lemma shrunk_map:
  "(\<And>s w. (s, w) \<in> set ws \<Longrightarrow> 0 \<le> f s w \<and> f s w \<le> w) \<Longrightarrow> shrunk ws (map (\<lambda>(s, w). (s, f s w)) ws)"
  unfolding shrunk_def by (induction ws) auto

lemma shrunk_iff: "shrunk a b \<longleftrightarrow> length a = length b \<and>
    (\<forall>i < length a. fst (b ! i) = fst (a ! i) \<and> 0 \<le> snd (b ! i) \<and> snd (b ! i) \<le> snd (a ! i))"
  unfolding shrunk_def list_all2_conv_all_nth by (auto simp: case_prod_beta)

lemma shrunk_trans: "shrunk a b \<Longrightarrow> shrunk b c \<Longrightarrow> shrunk a c"
  unfolding shrunk_iff by fastforce

lemma shrunk_nonneg: "shrunk a b \<Longrightarrow> nonneg b"
  unfolding shrunk_def nonneg_def by (auto simp: list_all2_conv_all_nth in_set_conv_nth) fastforce

lemma shrunk_names: "shrunk a b \<Longrightarrow> map fst b = map fst a"
  unfolding shrunk_def by (induction a b rule: list_all2_induct) auto

lemma shrunk_sum:
  assumes "shrunk a b" and "\<And>s w w'. 0 \<le> w' \<Longrightarrow> w' \<le> w \<Longrightarrow> g s w' \<le> (g s w :: real)"
  shows "sum_list (map (\<lambda>(s, w). g s w) b) \<le> sum_list (map (\<lambda>(s, w). g s w) a)"
  using assms(1) unfolding shrunk_def
  by (induction a b rule: list_all2_induct) (auto intro!: add_mono assms(2))

lemma sector_total_eq:
  "sector_total sectors x ws = sum_list (map (\<lambda>(s, w). if sectors s = Some x then w else 0) ws)"
  unfolding sector_total_def by (induction ws) auto

lemma shrunk_sector_total: "shrunk a b \<Longrightarrow> sector_total sectors x b \<le> sector_total sectors x a"
  unfolding sector_total_eq by (rule shrunk_sum) auto

lemma shrunk_gross: "shrunk a b \<Longrightarrow> sum_list (map snd b) \<le> sum_list (map snd a)"
  using shrunk_sum [of a b "\<lambda>_ w. w"] by (simp add: case_prod_beta')

definition sq_vol :: "(int \<Rightarrow> real option) \<Rightarrow> weights \<Rightarrow> real" where
  "sq_vol vols ws = sum_list (map (\<lambda>(sid, w). (w * the (vols sid)) ^ 2) ws)"

lemma shrunk_vol: "shrunk a b \<Longrightarrow> sq_vol vols b \<le> sq_vol vols a"
  unfolding sq_vol_def by (rule shrunk_sum) (auto simp: power_mult_distrib intro!: mult_right_mono power_mono)

section \<open>The limits\<close>

lemma shrunk_cap_sector:
  assumes "nonneg ws" and "0 \<le> cap"
  shows "shrunk ws (cap_sector sectors cap x ws)" and "sector_total sectors x (cap_sector sectors cap x ws) \<le> cap"
proof -
  let ?t = "sector_total sectors x ws"
  have t: "0 \<le> ?t" unfolding sector_total_eq using assms(1) by (intro sum_list_nonneg) (auto simp: nonneg_def)
  let ?scale = "if ?t \<noteq> 0 then min 1 (cap / ?t) else 1"
  have s: "0 \<le> ?scale" "?scale \<le> 1" using t assms(2) by auto
  have c: "cap_sector sectors cap x ws = map (\<lambda>(s, w). (s, if sectors s = Some x then w * ?scale else w)) ws"
    by (simp add: cap_sector_def Let_def)
  show "shrunk ws (cap_sector sectors cap x ws)"
    unfolding c by (rule shrunk_map) (use assms(1) s in \<open>auto simp: nonneg_def intro: mult_nonneg_nonneg mult_left_le\<close>)
  have "sector_total sectors x (cap_sector sectors cap x ws) =
      sum_list (map (\<lambda>(s, w). (if sectors s = Some x then w else 0) * ?scale) ws)"
    unfolding sector_total_eq c map_map by (rule arg_cong [where f = sum_list]) auto
  also have "\<dots> = ?t * ?scale"
    unfolding sector_total_eq case_prod_beta by (rule sum_list_mult_const)
  also have "\<dots> \<le> cap"
    using t assms(2) by (auto simp: min_def field_simps)
  finally show "sector_total sectors x (cap_sector sectors cap x ws) \<le> cap" .
qed

lemma fold_cap_sectors:
  assumes "nonneg ws" and "0 \<le> cap"
  shows "shrunk ws (fold (cap_sector sectors cap) xs ws) \<and>
    (\<forall>x \<in> set xs. sector_total sectors x (fold (cap_sector sectors cap) xs ws) \<le> cap)"
  using assms(1)
proof (induction xs arbitrary: ws)
  case (Cons x xs)
  let ?w = "cap_sector sectors cap x ws"
  from shrunk_cap_sector [OF Cons.prems assms(2)] have s: "shrunk ws ?w" "sector_total sectors x ?w \<le> cap" .
  from Cons.IH [OF shrunk_nonneg [OF s(1)]] have ih: "shrunk ?w (fold (cap_sector sectors cap) xs ?w)"
    "\<forall>y \<in> set xs. sector_total sectors y (fold (cap_sector sectors cap) xs ?w) \<le> cap" by auto
  from shrunk_sector_total [OF ih(1), of sectors x] s(2) ih shrunk_trans [OF s(1) ih(1)] show ?case by auto
qed (simp add: shrunk_refl)

lemma cap_sectors_InrD:
  assumes "cap_sectors ws sectors cap = Inr ws'" and "nonneg ws" and "0 \<le> cap"
  shows "shrunk ws ws' \<and> sector_total sectors x ws' \<le> cap"
proof -
  let ?xs = "sorted_list_of_set ((\<lambda>(sid, _). the (sectors sid)) ` set ws)"
  from assms(1) have all: "\<forall>(sid, _) \<in> set ws. sectors sid \<noteq> None" and ws': "ws' = fold (cap_sector sectors cap) ?xs ws"
    by (auto simp: cap_sectors_def list_ex_iff split: if_splits)
  from fold_cap_sectors [OF assms(2,3), of sectors ?xs] have s: "shrunk ws ws'"
    and t: "\<forall>x \<in> set ?xs. sector_total sectors x ws' \<le> cap" by (auto simp: ws')
  show ?thesis
  proof (cases "x \<in> set ?xs")
    case False
    have "\<forall>y \<in> set ws'. fst y \<in> fst ` set ws" using shrunk_names [OF s] by (metis image_eqI list.set_map)
    with False all have "filter (\<lambda>(sid, _). sectors sid = Some x) ws' = []"
      by (fastforce simp: filter_empty_conv image_iff)
    then show ?thesis using s assms(3) by (simp add: sector_total_def)
  qed (use s t in auto)
qed

lemma drop_dust_shrunk: "nonneg ws \<Longrightarrow> shrunk ws (drop_dust lo ws)"
  unfolding drop_dust_def by (rule shrunk_map) (auto simp: nonneg_def)

lemma limit_scale_bounds:
  assumes "0 < rc_vol_target_annual cfg" and "0 \<le> vol" and "0 \<le> gross"
  shows "0 \<le> limit_scale cfg vol gross" and "limit_scale cfg vol gross \<le> 1"
    and "limit_scale cfg vol gross * gross \<le> 1" and "limit_scale cfg vol gross * vol \<le> rc_vol_target_annual cfg"
proof -
  define s where "s = (if vol \<noteq> 0 then min 1 (rc_vol_target_annual cfg / vol) else 1)"
  have s: "0 \<le> s" "s \<le> 1" "s * vol \<le> rc_vol_target_annual cfg"
    using assms by (auto simp: s_def min_def field_simps)
  have l: "limit_scale cfg vol gross = (if gross \<noteq> 0 then min s (1 / gross) else s)"
    by (simp add: limit_scale_def s_def Let_def)
  show "0 \<le> limit_scale cfg vol gross" "limit_scale cfg vol gross \<le> 1" using s assms by (auto simp: l)
  show "limit_scale cfg vol gross * gross \<le> 1" using s assms by (auto simp: l min_def field_simps)
  have "limit_scale cfg vol gross \<le> s" by (simp add: l)
  then have "limit_scale cfg vol gross * vol \<le> s * vol" using assms by (intro mult_right_mono)
  with s show "limit_scale cfg vol gross * vol \<le> rc_vol_target_annual cfg" by linarith
qed

lemma scale_to_limits_InrD:
  assumes "scale_to_limits cfg vols ws = Inr ws'" and "nonneg ws" and "valid_risk_config cfg"
  shows "shrunk ws ws' \<and> sum_list (map snd ws') \<le> 1 \<and> sq_vol vols ws' \<le> rc_vol_target_annual cfg ^ 2 \<and>
    (\<forall>(_, w) \<in> set ws'. 0 < w \<longrightarrow> rc_min_position cfg \<le> w) \<and> (\<forall>(sid, _) \<in> set ws'. vols sid \<noteq> None)"
proof -
  let ?vol = "sqrt (sq_vol vols ws)" and ?gross = "sum_list (map snd ws)"
  let ?s = "limit_scale cfg ?vol ?gross" let ?m = "map (\<lambda>(sid, w). (sid, w * ?s)) ws"
  from assms(1) have all: "\<forall>(sid, _) \<in> set ws. vols sid \<noteq> None" and ws': "ws' = drop_dust (rc_min_position cfg) ?m"
    by (auto simp: scale_to_limits_def bindr_Inr_iff portfolio_vol_def sq_vol_def Let_def list_ex_iff split: if_splits)
  have q: "0 \<le> sq_vol vols ws" unfolding sq_vol_def by (rule sum_list_nonneg) auto
  have g: "0 \<le> ?gross" using assms(2) by (intro sum_list_nonneg) (auto simp: nonneg_def)
  have target: "0 < rc_vol_target_annual cfg" using assms(3) by (simp add: valid_risk_config_def)
  note l = limit_scale_bounds [OF target real_sqrt_ge_zero [OF q] g]
  have sm: "shrunk ws ?m"
    by (rule shrunk_map) (use assms(2) l(1,2) in \<open>auto simp: nonneg_def intro: mult_nonneg_nonneg mult_left_le\<close>)
  have dm: "shrunk ?m ws'" unfolding ws' by (rule drop_dust_shrunk) (rule shrunk_nonneg [OF sm])
  have "sum_list (map snd ?m) = sum_list (map (\<lambda>x. snd x * ?s) ws)"
    by (rule arg_cong [where f = sum_list]) auto
  also have "\<dots> = ?gross * ?s" by (rule sum_list_mult_const)
  finally have "sum_list (map snd ws') \<le> 1" using shrunk_gross [OF dm] l(3) by (simp add: mult.commute)
  moreover have "sq_vol vols ws' \<le> rc_vol_target_annual cfg ^ 2"
  proof -
    have "sq_vol vols ?m = sum_list (map (\<lambda>x. (case x of (sid, w) \<Rightarrow> (w * the (vols sid)) ^ 2) * ?s ^ 2) ws)"
      unfolding sq_vol_def map_map
      by (rule arg_cong [where f = sum_list]) (auto simp: power_mult_distrib)
    also have "\<dots> = sq_vol vols ws * ?s ^ 2" unfolding sq_vol_def by (rule sum_list_mult_const)
    also have "\<dots> = (?s * ?vol) ^ 2" using q by (simp add: power_mult_distrib)
    also have "\<dots> \<le> rc_vol_target_annual cfg ^ 2"
      using l(1,4) q by (intro power_mono) (auto intro: mult_nonneg_nonneg)
    finally show ?thesis using shrunk_vol [OF dm, of vols] by linarith
  qed
  moreover have "\<forall>(sid, _) \<in> set ws'. vols sid \<noteq> None"
    using all unfolding ws' drop_dust_def by auto
  moreover have "\<forall>(_, w) \<in> set ws'. 0 < w \<longrightarrow> rc_min_position cfg \<le> w"
    unfolding ws' drop_dust_def by (auto split: if_splits)
  ultimately show ?thesis using shrunk_trans [OF sm dm] by blast
qed

section \<open>Books\<close>

lemma shrunk_le: "shrunk a b \<Longrightarrow> (\<forall>(_, w) \<in> set a. w \<le> M) \<Longrightarrow> (\<forall>(_, w) \<in> set b. w \<le> M)"
  unfolding shrunk_iff by (auto simp: in_set_conv_nth case_prod_beta) (metis nth_mem order_trans snd_conv)

lemma sum_list_filter_zero: "(\<And>x. x \<in> set xs \<Longrightarrow> \<not> P x \<Longrightarrow> f x = 0) \<Longrightarrow> sum_list (map f (filter P xs)) = sum_list (map f xs)"
  for f :: "'a \<Rightarrow> real"
  by (induction xs) auto

lemma sum_list_sort_key: "sum_list (map f (sort_key k xs)) = sum_list (map f xs)" for f :: "'a \<Rightarrow> real"
proof -
  have "mset (map f (sort_key k xs)) = mset (map f xs)" by simp
  then show ?thesis by (metis sum_mset_sum_list)
qed

lemma positions_of_set:
  "p \<in> set (positions_of token sectors q ws) \<longleftrightarrow> (\<exists>(sid, w) \<in> set ws. 0 < w \<and>
     p = \<lparr>pp_security_id = sid, pp_entity_token = token sid, pp_sector = the (sectors sid), pp_pooled_p = q sid, pp_target_weight = w\<rparr>)"
  unfolding positions_of_def by force

lemma positions_of_sum:
  fixes g :: "int \<Rightarrow> real \<Rightarrow> real"
  assumes "nonneg ws" and "\<And>sid. g sid 0 = 0"
  shows "sum_list (map (\<lambda>p. g (pp_security_id p) (pp_target_weight p)) (positions_of token sectors q ws)) =
    sum_list (map (\<lambda>(sid, w). g sid w) ws)"
proof -
  have "sum_list (map (\<lambda>p. g (pp_security_id p) (pp_target_weight p)) (positions_of token sectors q ws)) =
      sum_list (map (\<lambda>(sid, w). g sid w) (filter (\<lambda>(_, w). 0 < w) (sort_key fst ws)))"
    unfolding positions_of_def map_map by (rule arg_cong [where f = sum_list]) auto
  also have "\<dots> = sum_list (map (\<lambda>(sid, w). g sid w) (sort_key fst ws))"
    by (rule sum_list_filter_zero) (use assms in \<open>force simp: nonneg_def\<close>)
  finally show ?thesis by (simp add: sum_list_sort_key)
qed

text \<open>The limits of the configuration, read off the positions of a book.\<close>

definition within_limits :: "risk_config \<Rightarrow> (int \<Rightarrow> real option) \<Rightarrow> proposed_book \<Rightarrow> bool" where
  "within_limits cfg vols book \<longleftrightarrow>
     (\<forall>p \<in> set (pb_positions book). rc_min_position cfg \<le> pp_target_weight p \<and> pp_target_weight p \<le> rc_max_position cfg) \<and>
     gross_exposure book \<le> 1 \<and>
     (\<forall>x. sum_list (map pp_target_weight (filter (\<lambda>p. pp_sector p = x) (pb_positions book))) \<le> rc_max_sector cfg) \<and>
     sqrt (sum_list (map (\<lambda>p. (pp_target_weight p * the (vols (pp_security_id p))) ^ 2) (pb_positions book)))
       \<le> rc_vol_target_annual cfg"

lemma limited_book:
  assumes cap: "cap_sectors ws sectors (rc_max_sector cfg) = Inr capped" and mid: "shrunk capped mid"
    and fin: "scale_to_limits cfg vols mid = Inr final" and cfg: "valid_risk_config cfg"
    and ws: "nonneg ws" "\<forall>(_, w) \<in> set ws. w \<le> rc_max_position cfg"
  shows "shrunk ws final \<and> within_limits cfg vols \<lparr>pb_run_id = rid, pb_as_of = t, pb_positions = positions_of token sectors q final\<rparr>"
proof -
  have sec: "0 \<le> rc_max_sector cfg" and target: "0 < rc_vol_target_annual cfg"
    using cfg by (auto simp: valid_risk_config_def)
  from cap_sectors_InrD [OF cap ws(1) sec] have c: "shrunk ws capped" and tot: "\<And>x. sector_total sectors x capped \<le> rc_max_sector cfg"
    by auto
  from cap have known: "\<forall>(sid, _) \<in> set ws. sectors sid \<noteq> None" by (auto simp: cap_sectors_def list_ex_iff split: if_splits)
  from scale_to_limits_InrD [OF fin shrunk_nonneg [OF mid] cfg] have f: "shrunk mid final" "sum_list (map snd final) \<le> 1"
    "sq_vol vols final \<le> rc_vol_target_annual cfg ^ 2" "\<forall>(_, w) \<in> set final. 0 < w \<longrightarrow> rc_min_position cfg \<le> w" by auto
  have all: "shrunk ws final" and cf: "shrunk capped final" using c mid f(1) shrunk_trans by blast+
  note nn = shrunk_nonneg [OF all]
  let ?ps = "positions_of token sectors q final"
  have sects: "sectors sid = Some x \<longleftrightarrow> the (sectors sid) = x" if "(sid, w) \<in> set final" for sid w x
    using known shrunk_names [OF all] that by (force simp: image_iff dest: arg_cong [where f = set])
  have "rc_min_position cfg \<le> pp_target_weight p \<and> pp_target_weight p \<le> rc_max_position cfg" if "p \<in> set ?ps" for p
    using that f(4) shrunk_le [OF all ws(2)] by (auto simp: positions_of_set)
  moreover have "sum_list (map pp_target_weight ?ps) \<le> 1"
    using positions_of_sum [OF nn, of "\<lambda>_ w. w" token sectors q] f(2) by (simp add: case_prod_beta')
  moreover have "sum_list (map pp_target_weight (filter (\<lambda>p. pp_sector p = x) ?ps)) \<le> rc_max_sector cfg" for x
  proof -
    have "sum_list (map pp_target_weight (filter (\<lambda>p. pp_sector p = x) ?ps)) =
        sum_list (map (\<lambda>p. if pp_sector p = x then pp_target_weight p else 0) ?ps)"
      by (rule sum_list_map_filter')
    also have "\<dots> = sum_list (map (\<lambda>p. (\<lambda>sid w. if the (sectors sid) = x then w else 0) (pp_security_id p) (pp_target_weight p)) ?ps)"
      by (rule arg_cong [where f = sum_list], rule map_cong) (auto simp: positions_of_set)
    also have "\<dots> = sum_list (map (\<lambda>(sid, w). if the (sectors sid) = x then w else 0) final)"
      by (rule positions_of_sum [OF nn]) simp
    also have "\<dots> = sector_total sectors x final"
      unfolding sector_total_eq by (rule arg_cong [where f = sum_list], rule map_cong) (auto simp: sects)
    also have "\<dots> \<le> rc_max_sector cfg" using shrunk_sector_total [OF cf] tot order_trans by blast
    finally show ?thesis .
  qed
  moreover have "sqrt (sum_list (map (\<lambda>p. (pp_target_weight p * the (vols (pp_security_id p))) ^ 2) ?ps)) \<le> rc_vol_target_annual cfg"
  proof -
    have "sum_list (map (\<lambda>p. (pp_target_weight p * the (vols (pp_security_id p))) ^ 2) ?ps) = sq_vol vols final"
      unfolding sq_vol_def by (rule positions_of_sum [OF nn]) simp
    with f(3) target show ?thesis by (simp add: real_le_lsqrt)
  qed
  ultimately show ?thesis using all by (simp add: within_limits_def gross_exposure_def)
qed

lemma scores_total:
  assumes "\<forall>(sid, f) \<in> set pooled. pf_pool f h \<noteq> None"
  shows "\<exists>scored. scores h pooled = Inr scored \<and> map fst scored = map fst pooled"
  using assms by (induction pooled) (auto split: option.splits)

lemma mem_fst: "(a, b) \<in> set xs \<Longrightarrow> map fst xs = ys \<Longrightarrow> a \<in> set ys"
  by force

lemma cap_sectors_total: "(\<And>sid w. (sid, w) \<in> set ws \<Longrightarrow> sectors sid \<noteq> None) \<Longrightarrow> \<exists>ws'. cap_sectors ws sectors cap = Inr ws'"
  by (fastforce simp: cap_sectors_def list_ex_iff)

lemma scale_to_limits_total: "(\<And>sid w. (sid, w) \<in> set ws \<Longrightarrow> vols sid \<noteq> None) \<Longrightarrow> \<exists>ws'. scale_to_limits cfg vols ws = Inr ws'"
  by (fastforce simp: scale_to_limits_def portfolio_vol_def list_ex_iff Let_def)

lemma rank_weights_names:
  assumes "distinct (map fst eligible)"
  shows "distinct (map fst (rank_weights cfg bear vols eligible)) \<and>
    set (map fst (rank_weights cfg bear vols eligible)) \<subseteq> set (map fst eligible) \<and>
    length (rank_weights cfg bear vols eligible) \<le> rc_rank_top_m cfg"
proof -
  let ?k = "\<lambda>(sid, l, _). (- l, sid)"
  have "mset (map fst (sort_key ?k eligible)) = mset (map fst eligible)" by simp
  with assms have "distinct (map fst (sort_key ?k eligible))" by (metis mset_eq_imp_distinct_iff)
  then have "distinct (map fst (take (rc_rank_top_m cfg) (sort_key ?k eligible)))"
    unfolding take_map [symmetric] by (rule distinct_take)
  moreover have "set (take (rc_rank_top_m cfg) (sort_key ?k eligible)) \<subseteq> set eligible"
    using set_take_subset [of "rc_rank_top_m cfg" "sort_key ?k eligible"] by simp
  ultimately show ?thesis by (auto simp: rank_weights_def Let_def comp_def)
qed

lemma raw_weights_names:
  assumes "raw_committee_weights cfg bear vols fit eligible = Inr raw" and "distinct (map fst eligible)"
  shows "distinct (map fst raw) \<and> set (map fst raw) \<subseteq> set (map fst eligible) \<and>
    (\<not> cf_active fit \<longrightarrow> length raw \<le> rc_rank_top_m cfg)"
proof (cases "cf_active fit")
  case True
  with assms(1) obtain base where "raw = edge_weights cfg bear vols fit base eligible"
    by (auto simp: raw_committee_weights_def split: option.splits)
  moreover have "map fst (edge_weights cfg bear vols fit base eligible) =
      map fst (filter (\<lambda>(sid, l, _). rc_edge_hurdle cfg \<le> edge_of fit base l) eligible)"
    by (auto simp: edge_weights_def)
  ultimately show ?thesis using True assms(2) by (auto simp: distinct_map_filter)
qed (use assms rank_weights_names [OF assms(2), of cfg bear vols] in \<open>simp add: raw_committee_weights_def\<close>)

definition clip_weights :: "risk_config \<Rightarrow> weights \<Rightarrow> weights" where
  "clip_weights cfg raw = map (\<lambda>(sid, w). (sid, min (max w 0) (rc_max_position cfg))) raw"

lemma clip_weights_ok:
  assumes "valid_risk_config cfg"
  shows "nonneg (clip_weights cfg raw) \<and> (\<forall>(_, w) \<in> set (clip_weights cfg raw). w \<le> rc_max_position cfg) \<and>
    map fst (clip_weights cfg raw) = map fst raw"
  using assms by (auto simp: clip_weights_def nonneg_def valid_risk_config_def)

text \<open>What the committee hands to the sizing: known names with known sectors and a pool at the horizon.\<close>

definition sizable :: "horizon \<Rightarrow> (int \<Rightarrow> string option) \<Rightarrow> (int \<times> pooled_forecast) list \<Rightarrow> bool" where
  "sizable h sectors pooled \<longleftrightarrow>
     distinct (map fst pooled) \<and> distinct (map (\<lambda>(_, f). pf_entity_token f) pooled) \<and>
     list_all (\<lambda>(sid, f). 1 \<le> sid \<and> entity_token_ok (pf_entity_token f) \<and> pf_pool f h \<noteq> None \<and>
        (case sectors sid of None \<Rightarrow> False | Some s \<Rightarrow> label_ok s)) pooled"

lemma positions_distinct:
  assumes "distinct (map fst ws)" and "inj_on token (fst ` set ws)"
  shows "distinct (map pp_security_id (positions_of token sectors q ws)) \<and>
    distinct (map pp_entity_token (positions_of token sectors q ws))"
proof -
  have ids: "map pp_security_id (positions_of token sectors q ws) = map fst (filter (\<lambda>(_, w). 0 < w) (sort_key fst ws))"
    by (auto simp: positions_of_def)
  have toks: "map pp_entity_token (positions_of token sectors q ws) = map token (map fst (filter (\<lambda>(_, w). 0 < w) (sort_key fst ws)))"
    by (auto simp: positions_of_def)
  have "mset (map fst (sort_key fst ws)) = mset (map fst ws)" by simp
  with assms(1) have "distinct (map fst (sort_key fst ws))" by (metis mset_eq_imp_distinct_iff)
  then have d: "distinct (map fst (filter (\<lambda>(_, w). 0 < w) (sort_key fst ws)))" by (rule distinct_map_filter)
  moreover have "inj_on token (set (map fst (filter (\<lambda>(_, w). 0 < w) (sort_key fst ws))))"
    by (rule inj_on_subset [OF assms(2)]) auto
  ultimately show ?thesis unfolding ids toks distinct_map [of token] by blast
qed

lemma tokens_inj:
  assumes "distinct (map fst pooled)" and "distinct (map (\<lambda>(_, f). pf_entity_token f) pooled)"
  shows "inj_on (\<lambda>sid. pf_entity_token (the (map_of pooled sid))) (fst ` set pooled)"
proof (rule inj_onI)
  fix a b assume "a \<in> fst ` set pooled" "b \<in> fst ` set pooled"
    and eq: "pf_entity_token (the (map_of pooled a)) = pf_entity_token (the (map_of pooled b))"
  then obtain f g where f: "(a, f) \<in> set pooled" and g: "(b, g) \<in> set pooled" by auto
  with assms(1) eq have "pf_entity_token f = pf_entity_token g" by simp
  with assms(2) f g have "(a, f) = (b, g)"
    unfolding distinct_map inj_on_def by fastforce
  then show "a = b" by simp
qed

lemma sizableD:
  assumes "sizable h sectors pooled"
  shows "distinct (map fst pooled)" and "distinct (map (\<lambda>(_, f). pf_entity_token f) pooled)"
    and "(sid, f) \<in> set pooled \<Longrightarrow> 1 \<le> sid \<and> entity_token_ok (pf_entity_token f) \<and> pf_pool f h \<noteq> None \<and>
        (\<exists>s. sectors sid = Some s \<and> label_ok s)"
  using assms by (auto simp: sizable_def list_all_iff split: option.splits)

lemma committee_raw:
  assumes "sizable (cf_horizon fit) sectors pooled" and "cf_active fit \<longrightarrow> cf_base_rate fit \<noteq> None"
  shows "\<exists>scored raw. scores (cf_horizon fit) pooled = Inr scored \<and>
    raw_committee_weights cfg bear vols fit (eligible_scores vols scored) = Inr raw \<and> distinct (map fst raw) \<and>
    (\<forall>sid \<in> set (map fst raw). sid \<in> fst ` set pooled \<and> (\<exists>x. vols sid = Some x \<and> 0 < x)) \<and>
    (\<not> cf_active fit \<longrightarrow> length raw \<le> rc_rank_top_m cfg)"
proof -
  obtain scored where sc: "scores (cf_horizon fit) pooled = Inr scored" "map fst scored = map fst pooled"
    using scores_total [of pooled "cf_horizon fit"] sizableD(3) [OF assms(1)] by fastforce
  let ?e = "eligible_scores vols scored"
  obtain raw where raw: "raw_committee_weights cfg bear vols fit ?e = Inr raw"
    using assms(2) by (fastforce simp: raw_committee_weights_def)
  have "distinct (map fst ?e)"
    using sizableD(1) [OF assms(1)] sc(2) unfolding eligible_scores_def by (metis distinct_map_filter)
  note names = raw_weights_names [OF raw this]
  have "sid \<in> fst ` set pooled \<and> (\<exists>x. vols sid = Some x \<and> 0 < x)" if "sid \<in> set (map fst ?e)" for sid
  proof -
    from that obtain l where "(sid, l) \<in> set scored" "\<exists>x. vols sid = Some x \<and> 0 < x"
      by (auto simp: eligible_scores_def split: option.splits)
    with mem_fst [OF _ sc(2)] show ?thesis by auto
  qed
  with sc(1) raw names show ?thesis by blast
qed

lemma committee_final:
  assumes "valid_risk_config cfg" and "\<And>sid. sid \<in> set (map fst raw) \<Longrightarrow> sectors sid \<noteq> None \<and> vols sid \<noteq> None"
  shows "\<exists>capped final. cap_sectors (clip_weights cfg raw) sectors (rc_max_sector cfg) = Inr capped \<and>
    shrunk capped (drop_dust (rc_min_position cfg) capped) \<and>
    scale_to_limits cfg vols (drop_dust (rc_min_position cfg) capped) = Inr final"
proof -
  note cl = clip_weights_ok [OF assms(1), of raw]
  have "sectors sid \<noteq> None" if "(sid, w) \<in> set (clip_weights cfg raw)" for sid w
    using assms(2) mem_fst [OF that, of "map fst raw"] cl by auto
  then obtain capped where cap: "cap_sectors (clip_weights cfg raw) sectors (rc_max_sector cfg) = Inr capped"
    using cap_sectors_total by blast
  have "0 \<le> rc_max_sector cfg" using assms(1) by (auto simp: valid_risk_config_def)
  from cap_sectors_InrD [OF cap _ this] cl have s: "shrunk (clip_weights cfg raw) capped" by auto
  let ?mid = "drop_dust (rc_min_position cfg) capped"
  have mid: "shrunk capped ?mid" by (rule drop_dust_shrunk [OF shrunk_nonneg [OF s]])
  have "map fst ?mid = map fst raw" using shrunk_names [OF s] shrunk_names [OF mid] cl by simp
  then have "vols sid \<noteq> None" if "(sid, w) \<in> set ?mid" for sid w using assms(2) mem_fst [OF that] by auto
  then show ?thesis using cap mid scale_to_limits_total by blast
qed

lemma sized_book_valid:
  assumes "sizable h sectors pooled" and "valid_risk_config cfg" and "within_limits cfg vols book"
    and "distinct (map fst ws)" and "fst ` set ws \<subseteq> fst ` set pooled"
    and "book = \<lparr>pb_run_id = rid, pb_as_of = t, pb_positions =
      positions_of (\<lambda>sid. pf_entity_token (the (map_of pooled sid))) sectors (\<lambda>sid. sigmoid (q sid)) ws\<rparr>"
  shows "valid_book book"
proof -
  have "valid_position p" if p: "p \<in> set (pb_positions book)" for p
  proof -
    from p assms(6) obtain w where w: "(pp_security_id p, w) \<in> set ws" "0 < w"
      and pe: "pp_entity_token p = pf_entity_token (the (map_of pooled (pp_security_id p)))"
        "pp_sector p = the (sectors (pp_security_id p))" "pp_pooled_p p = sigmoid (q (pp_security_id p))" "pp_target_weight p = w"
      by (auto simp: positions_of_set)
    from w(1) assms(5) obtain f where f: "(pp_security_id p, f) \<in> set pooled" by force
    with sizableD(1) [OF assms(1)] have "map_of pooled (pp_security_id p) = Some f" by simp
    moreover from assms(3) p have "pp_target_weight p \<le> rc_max_position cfg" by (auto simp: within_limits_def)
    ultimately show ?thesis
      using sizableD(3) [OF assms(1) f] pe w(2) assms(2) sigmoid_probability
      by (auto simp: valid_position_def weight_ok_def valid_risk_config_def)
  qed
  moreover have "gross_exposure book \<le> 1" using assms(3) by (simp add: within_limits_def)
  moreover have "inj_on (\<lambda>sid. pf_entity_token (the (map_of pooled sid))) (fst ` set ws)"
    using tokens_inj [OF sizableD(1,2) [OF assms(1)]] assms(5) by (rule inj_on_subset)
  ultimately show ?thesis
    using positions_distinct [OF assms(4)] assms(6) by (simp add: valid_book_def list_all_iff)
qed

lemma dict_set_names: "fst ` set (dict_set k v xs) = insert k (fst ` set xs)"
  by (induction xs) force+

lemma fold_dict_set_names: "fst ` set (fold (\<lambda>d. dict_set (f d) (g d)) ds xs) = f ` set ds \<union> fst ` set xs"
  by (induction ds arbitrary: xs) (auto simp: dict_set_names)

section \<open>Properties\<close>

text \<open>
  C31: committee sizing always returns a book, and the book respects every limit of the configuration:
  each position between the minimum and the single-name cap, gross at most one, every sector under its
  cap, the diagonal volatility under the target; it holds only names of the committee with a positive
  volatility, at most M of them while the stacker is inactive, and it passes the validation of a book.
\<close>

theorem committee_book_within_limits:
  assumes "sizable (cf_horizon fit) sectors pooled" and "valid_risk_config cfg"
    and "cf_active fit \<longrightarrow> cf_base_rate fit \<noteq> None"
  shows "\<exists>book. size_committee_book rid as_of pooled bear sectors vols fit cfg = Inr book \<and>
    within_limits cfg vols book \<and> valid_book book \<and>
    (\<forall>p \<in> set (pb_positions book). pp_security_id p \<in> fst ` set pooled \<and> (\<exists>x. vols (pp_security_id p) = Some x \<and> 0 < x)) \<and>
    (\<not> cf_active fit \<longrightarrow> length (pb_positions book) \<le> rc_rank_top_m cfg)"
proof -
  obtain scored raw where run: "scores (cf_horizon fit) pooled = Inr scored"
    "raw_committee_weights cfg bear vols fit (eligible_scores vols scored) = Inr raw"
    and d: "distinct (map fst raw)"
    and names: "\<And>sid. sid \<in> set (map fst raw) \<Longrightarrow> sid \<in> fst ` set pooled \<and> (\<exists>x. vols sid = Some x \<and> 0 < x)"
    and len: "\<not> cf_active fit \<longrightarrow> length raw \<le> rc_rank_top_m cfg"
    using committee_raw [OF assms(1,3), of cfg bear vols] by blast
  have known: "sectors sid \<noteq> None \<and> vols sid \<noteq> None" if "sid \<in> set (map fst raw)" for sid
    using names [OF that] sizableD(3) [OF assms(1)] by fastforce
  obtain capped final where cap: "cap_sectors (clip_weights cfg raw) sectors (rc_max_sector cfg) = Inr capped"
    and mid: "shrunk capped (drop_dust (rc_min_position cfg) capped)"
    and fin: "scale_to_limits cfg vols (drop_dust (rc_min_position cfg) capped) = Inr final"
    using committee_final [OF assms(2), of raw sectors vols] known by blast
  let ?ps = "positions_of (\<lambda>sid. pf_entity_token (the (map_of pooled sid))) sectors
      (\<lambda>sid. sigmoid (cf_alpha fit + cf_beta fit * fst (the (map_of scored sid)))) final"
  let ?book = "\<lparr>pb_run_id = rid, pb_as_of = as_of, pb_positions = ?ps\<rparr>"
  note cl = clip_weights_ok [OF assms(2), of raw]
  from limited_book [OF cap mid fin assms(2)] cl have sf: "shrunk (clip_weights cfg raw) final"
    and lim: "within_limits cfg vols ?book" by auto
  have fn: "map fst final = map fst raw" using shrunk_names [OF sf] cl by simp
  then have sub: "fst ` set final = set (map fst raw)" by (metis list.set_map)
  have vb: "valid_book ?book"
    by (rule sized_book_valid [OF assms(1,2) lim _ _ refl]) (use d fn sub names in auto)
  have "length ?ps \<le> length final" unfolding positions_of_def by (simp add: order_trans [OF length_filter_le])
  then have "\<not> cf_active fit \<longrightarrow> length ?ps \<le> rc_rank_top_m cfg" using len fn by (metis length_map order_trans)
  moreover have "pp_security_id p \<in> set (map fst raw)" if "p \<in> set ?ps" for p
    using that mem_fst [OF _ fn] by (auto simp: positions_of_set)
  ultimately show ?thesis
    using run cap fin lim vb names
    by (intro exI [of _ ?book]) (simp add: size_committee_book_def clip_weights_def [symmetric] checked_book_def Let_def)
qed

text \<open>
  C32: the baseline sizing fails on an input it announces to handle. A decision without a volatility is
  meant to get weight zero, but the portfolio volatility then looks the missing entry up, so the whole
  book is lost with a KeyError.
\<close>

theorem size_book_needs_volatility:
  assumes "d \<in> set decisions" and "vols (dec_security_id d) = None" and "0 \<le> rc_max_sector cfg"
  shows "baseline_weight cfg vols d = 0 \<and> size_book decisions sectors vols cfg = Inl CommitteeKeyError"
proof -
  obtain d0 ds where ds: "decisions = d0 # ds" using assms(1) by (cases decisions) auto
  let ?ws = "fold (\<lambda>d. dict_set (dec_security_id d) (baseline_weight cfg vols d)) decisions []"
  have name: "dec_security_id d \<in> fst ` set ?ws" using assms(1) by (simp add: fold_dict_set_names)
  have "list_ex (\<lambda>(sid, _). vols sid = None) capped" if "cap_sectors ?ws sectors (rc_max_sector cfg) = Inr capped" for capped
  proof -
    have "map fst (cap_sector sectors c x ws) = map fst ws" for c x ws by (auto simp: cap_sector_def Let_def)
    then have "map fst (fold (cap_sector sectors c) xs ws) = map fst ws" for c xs ws
      by (induction xs arbitrary: ws) auto
    with that have "map fst capped = map fst ?ws" by (auto simp: cap_sectors_def split: if_splits)
    with name assms(2) show ?thesis by (metis (mono_tags, lifting) case_prod_unfold imageE list.set_map list_ex_iff)
  qed
  then have "size_book decisions sectors vols cfg = Inl CommitteeKeyError"
    by (cases "cap_sectors ?ws sectors (rc_max_sector cfg)")
      (auto simp: size_book_def ds Let_def scale_to_limits_def portfolio_vol_def cap_sectors_def split: if_splits)
  then show ?thesis using assms(2) by (simp add: baseline_weight_def Let_def)
qed

section \<open>Concrete sizings\<close>

definition demo_risk :: risk_config where
  "demo_risk = \<lparr>rc_long_only = True, rc_max_position = 8 / 100, rc_max_sector = 3 / 10, rc_vol_target_annual = 12 / 100,
     rc_min_position = 1 / 100, rc_entry_threshold = 55 / 100, rc_k = 2 / 100, rc_dispersion_lambda = 1 / 2, rc_rank_top_m = 8,
     rc_edge_hurdle = 4 / 100, rc_committee_k = 1 / 2, rc_committee_dispersion_lambda = 0,
     rc_bear_multiplier = (\<lambda>b. case b of LOW \<Rightarrow> 1 | MED \<Rightarrow> 75 / 100 | HIGH \<Rightarrow> 1 / 2), rc_cio_veto_budget = 2 / 10,
     rc_kill_switch_daily_loss = 3 / 100, rc_modeled_cost_bps = 5\<rparr>"

lemma demo_risk_valid: "valid_risk_config demo_risk"
  by (simp add: valid_risk_config_def demo_risk_def MAX_POSITION_def probability_def)

definition demo_fit :: calibration_fit where
  "demo_fit = \<lparr>cf_horizon = D21, cf_alpha = 0, cf_beta = 1, cf_active = False, cf_independent_periods = 3,
     cf_observations = 1, cf_base_rate = None\<rparr>"

theorem committee_book_within_limits_witness:
  "\<exists>book. size_committee_book ''r'' 5 [(3, \<lparr>pf_entity_token = ''CO_01'', pf_pools = [demo_pool D21]\<rparr>)] (\<lambda>_. None)
      (\<lambda>_. Some ''TECH'') (\<lambda>_. Some (1 / 5)) demo_fit demo_risk = Inr book \<and> within_limits demo_risk (\<lambda>_. Some (1 / 5)) book"
proof -
  have "sizable (cf_horizon demo_fit) (\<lambda>_. Some ''TECH'') [(3, \<lparr>pf_entity_token = ''CO_01'', pf_pools = [demo_pool D21]\<rparr>)]"
    by (simp add: sizable_def demo_fit_def pf_pool_def demo_pool_def entity_token_ok_def upper_char_def digit_char_def label_ok_def)
  from committee_book_within_limits [OF this demo_risk_valid, of "''r''" 5 "\<lambda>_. None" "\<lambda>_. Some (1 / 5)"] show ?thesis
    by (auto simp: demo_fit_def)
qed

theorem size_book_needs_volatility_witness:
  "size_book [cdr_decision (demo_record 1)] (\<lambda>_. Some ''TECH'') (\<lambda>_. None) demo_risk = Inl CommitteeKeyError"
  using size_book_needs_volatility [of "cdr_decision (demo_record 1)" "[cdr_decision (demo_record 1)]" "\<lambda>_. None" demo_risk
      "\<lambda>_. Some ''TECH''"] demo_risk_valid
  by (simp add: valid_risk_config_def)

end
