(* ===== verification/Spec2Isabelle.thy ===== *)
theory Spec2Isabelle
  imports Halt Sink Execution_Stage Sizing
begin

text \<open>Header.\<close>

end
